(* ===== verification/GoPrelude.thy ===== *)
theory GoPrelude
  imports Main "HOL-Library.Sublist" "HOL-Library.Char_ord"
begin

text \<open>
  The prelude of the development: the Go built-ins and the functions of the Go packages
  \<open>strings\<close>, \<open>strconv\<close>, \<open>fmt\<close> and \<open>unicode/utf8\<close> that the backend calls, and the generic
  lemmas the component theories share.

  A Go \<open>string\<close> is a sequence of bytes, and so is a HOL \<open>string\<close>: \<open>length\<close> is Go's
  \<open>len\<close>, and a multi-byte rune is several characters. White space is Unicode white space,
  recognised by its UTF-8 byte sequences. Case mapping is the ASCII one: the bytes of a
  rune outside ASCII keep their value.
\<close>

named_theorems go_strings \<open>facts on the string functions of the Go library\<close>
named_theorems go_numbers \<open>facts on the number parsers of the Go library\<close>

section \<open>Bytes and case\<close>

abbreviation byte :: "char \<Rightarrow> nat" where
  "byte c \<equiv> of_char c"

definition in_range :: "nat \<Rightarrow> nat \<Rightarrow> char \<Rightarrow> bool" where
  "in_range lo hi c \<longleftrightarrow> lo \<le> byte c \<and> byte c \<le> hi"

definition is_digit_byte :: "char \<Rightarrow> bool" where
  "is_digit_byte c \<longleftrightarrow> in_range 48 57 c"

definition is_lower_hex :: "char \<Rightarrow> bool" where
  "is_lower_hex c \<longleftrightarrow> in_range 48 57 c \<or> in_range 97 102 c"

definition is_hex_byte :: "char \<Rightarrow> bool" where
  "is_hex_byte c \<longleftrightarrow> in_range 48 57 c \<or> in_range 97 102 c \<or> in_range 65 70 c"

definition lower_byte :: "char \<Rightarrow> char" where
  "lower_byte c = (if in_range 65 90 c then char_of (byte c + 32) else c)"

definition upper_byte :: "char \<Rightarrow> char" where
  "upper_byte c = (if in_range 97 122 c then char_of (byte c - 32) else c)"

definition to_lower :: "string \<Rightarrow> string" where
  "to_lower s = map lower_byte s"

definition to_upper :: "string \<Rightarrow> string" where
  "to_upper s = map upper_byte s"

definition equal_fold :: "string \<Rightarrow> string \<Rightarrow> bool" where
  "equal_fold s t \<longleftrightarrow> to_lower s = to_lower t"

lemma byte_less_256 [simp]: "byte c < 256"
proof -
  have "byte c = byte c mod 256" by (metis of_char_of char_of_char)
  then show ?thesis by (metis mod_less_divisor zero_less_numeral)
qed

lemma lower_byte_idem [simp]: "lower_byte (lower_byte c) = lower_byte c"
  by (auto simp: lower_byte_def in_range_def of_char_of)

lemma to_lower_idem [simp, go_strings]: "to_lower (to_lower s) = to_lower s"
  by (simp add: to_lower_def)

lemma to_lower_Nil [simp, go_strings]: "to_lower [] = []"
  by (simp add: to_lower_def)

lemma to_lower_eq_Nil [simp, go_strings]: "to_lower s = [] \<longleftrightarrow> s = []"
  by (simp add: to_lower_def)

lemma length_to_lower [simp, go_strings]: "length (to_lower s) = length s"
  by (simp add: to_lower_def)

lemma to_lower_append [go_strings]: "to_lower (s @ t) = to_lower s @ to_lower t"
  by (simp add: to_lower_def)

section \<open>Prefixes, suffixes, occurrences\<close>

fun has_prefix :: "string \<Rightarrow> string \<Rightarrow> bool" where
  "has_prefix s [] = True"
| "has_prefix [] (p # ps) = False"
| "has_prefix (c # s) (p # ps) = (c = p \<and> has_prefix s ps)"

definition has_suffix :: "string \<Rightarrow> string \<Rightarrow> bool" where
  "has_suffix s p = has_prefix (rev s) (rev p)"

fun contains :: "string \<Rightarrow> string \<Rightarrow> bool" where
  "contains [] p = (p = [])"
| "contains (c # s) p = (has_prefix (c # s) p \<or> contains s p)"

definition trim_prefix :: "string \<Rightarrow> string \<Rightarrow> string" where
  "trim_prefix s p = (if has_prefix s p then drop (length p) s else s)"

definition trim_suffix :: "string \<Rightarrow> string \<Rightarrow> string" where
  "trim_suffix s p = (if has_suffix s p then take (length s - length p) s else s)"

lemma has_prefix_iff [go_strings]: "has_prefix s p \<longleftrightarrow> (\<exists>t. s = p @ t)"
  by (induction s p rule: has_prefix.induct) auto

lemma has_prefix_append [simp]: "has_prefix (p @ t) p"
  by (auto simp: has_prefix_iff)

lemma has_suffix_iff [go_strings]: "has_suffix s p \<longleftrightarrow> (\<exists>t. s = t @ p)"
proof
  assume "has_suffix s p"
  then obtain t where "rev s = rev p @ t" by (auto simp: has_suffix_def has_prefix_iff)
  then have "s = rev t @ p" by (metis rev_append rev_rev_ident)
  then show "\<exists>t. s = t @ p" by blast
qed (auto simp: has_suffix_def)

lemma contains_iff [go_strings]: "contains s p \<longleftrightarrow> (\<exists>a b. s = a @ p @ b)"
proof (induction s)
  case Nil
  then show ?case by auto
next
  case (Cons c s)
  have "(\<exists>a b. c # s = a @ p @ b) \<longleftrightarrow> has_prefix (c # s) p \<or> (\<exists>a b. s = a @ p @ b)"
    by (auto simp: has_prefix_iff Cons_eq_append_conv)
  with Cons show ?case by simp
qed

lemma trim_prefix_append [simp]: "trim_prefix (p @ t) p = t"
  by (simp add: trim_prefix_def)

section \<open>White space\<close>

text \<open>The UTF-8 encodings of the runes \<open>unicode.IsSpace\<close> accepts.\<close>

definition space_seqs :: "string list" where
  "space_seqs =
     [[CHR 0x09], [CHR 0x0A], [CHR 0x0B], [CHR 0x0C], [CHR 0x0D], [CHR 0x20],
      [CHR 0xC2, CHR 0x85], [CHR 0xC2, CHR 0xA0], [CHR 0xE1, CHR 0x9A, CHR 0x80],
      [CHR 0xE2, CHR 0x80, CHR 0x80], [CHR 0xE2, CHR 0x80, CHR 0x81], [CHR 0xE2, CHR 0x80, CHR 0x82],
      [CHR 0xE2, CHR 0x80, CHR 0x83], [CHR 0xE2, CHR 0x80, CHR 0x84], [CHR 0xE2, CHR 0x80, CHR 0x85],
      [CHR 0xE2, CHR 0x80, CHR 0x86], [CHR 0xE2, CHR 0x80, CHR 0x87], [CHR 0xE2, CHR 0x80, CHR 0x88],
      [CHR 0xE2, CHR 0x80, CHR 0x89], [CHR 0xE2, CHR 0x80, CHR 0x8A], [CHR 0xE2, CHR 0x80, CHR 0xA8],
      [CHR 0xE2, CHR 0x80, CHR 0xA9], [CHR 0xE2, CHR 0x80, CHR 0xAF], [CHR 0xE2, CHR 0x81, CHR 0x9F],
      [CHR 0xE3, CHR 0x80, CHR 0x80]]"

text \<open>\<open>lead ws s\<close> is the length of the first member of \<open>ws\<close> that \<open>s\<close> starts with, or 0.\<close>

fun lead :: "string list \<Rightarrow> string \<Rightarrow> nat" where
  "lead [] s = 0"
| "lead (w # ws) s = (if has_prefix s w then length w else lead ws s)"

function strip :: "string list \<Rightarrow> string \<Rightarrow> string" where
  "strip ws s = (if lead ws s = 0 \<or> s = [] then s else strip ws (drop (lead ws s) s))"
  by pat_completeness auto
termination
  by (relation "measure (\<lambda>(ws, s). length s)") auto

declare strip.simps [simp del]

definition trim_left_space :: "string \<Rightarrow> string" where
  "trim_left_space s = strip space_seqs s"

definition trim_right_space :: "string \<Rightarrow> string" where
  "trim_right_space s = rev (strip (map rev space_seqs) (rev s))"

text \<open>\<open>strings.TrimSpace\<close>.\<close>

definition trim_space :: "string \<Rightarrow> string" where
  "trim_space s = trim_right_space (trim_left_space s)"

lemma strip_suffix: "\<exists>p. s = p @ strip ws s"
proof (induction ws s rule: strip.induct)
  case (1 ws s)
  show ?case
  proof (cases "lead ws s = 0 \<or> s = []")
    case True
    then show ?thesis by (subst strip.simps) auto
  next
    case False
    with "1.IH" obtain p where p: "drop (lead ws s) s = p @ strip ws (drop (lead ws s) s)" by blast
    have "strip ws s = strip ws (drop (lead ws s) s)"
      using False by (simp add: strip.simps [of ws s])
    with p have "s = (take (lead ws s) s @ p) @ strip ws s"
      by (metis append.assoc append_take_drop_id)
    then show ?thesis by blast
  qed
qed

lemma lead_strip: "lead ws (strip ws s) = 0 \<or> strip ws s = []"
proof (induction ws s rule: strip.induct)
  case (1 ws s)
  then show ?case
    by (cases "lead ws s = 0 \<or> s = []") (auto simp: strip.simps [of ws s])
qed

lemma strip_fixed: "lead ws s = 0 \<Longrightarrow> strip ws s = s"
  by (subst strip.simps) simp

lemma strip_Nil [simp]: "strip ws [] = []"
  by (subst strip.simps) simp

lemma lead_0_iff: "[] \<notin> set ws \<Longrightarrow> lead ws s = 0 \<longleftrightarrow> (\<forall>w\<in>set ws. \<not> has_prefix s w)"
  by (induction ws) auto

lemma lead_prefix: "[] \<notin> set ws \<Longrightarrow> lead ws (s @ t) = 0 \<Longrightarrow> lead ws s = 0"
  by (auto simp: lead_0_iff has_prefix_iff)

lemma Nil_notin_space_seqs [simp]: "[] \<notin> set space_seqs" "[] \<notin> rev ` set space_seqs"
  by (simp_all add: space_seqs_def)

lemma trim_right_prefix: "\<exists>t. s = trim_right_space s @ t"
proof -
  obtain p where "rev s = p @ strip (map rev space_seqs) (rev s)" using strip_suffix by blast
  then have "s = trim_right_space s @ rev p"
    by (metis rev_append rev_rev_ident trim_right_space_def)
  then show ?thesis by blast
qed

lemma trim_left_of_trimmed: "trim_left_space (trim_space s) = trim_space s"
proof -
  let ?l = "trim_left_space s"
  obtain t where t: "?l = trim_space s @ t"
    using trim_right_prefix [of ?l] by (auto simp: trim_space_def)
  have "lead space_seqs ?l = 0 \<or> ?l = []"
    using lead_strip by (auto simp: trim_left_space_def)
  then have "lead space_seqs (trim_space s) = 0 \<or> trim_space s = []"
    using t lead_prefix [of space_seqs "trim_space s" t] by auto
  then show ?thesis by (auto simp: trim_left_space_def strip_fixed)
qed

lemma trim_right_idem: "trim_right_space (trim_right_space s) = trim_right_space s"
proof -
  let ?ws = "map rev space_seqs"
  have "lead ?ws (strip ?ws (rev s)) = 0 \<or> strip ?ws (rev s) = []" by (rule lead_strip)
  then show ?thesis by (auto simp: trim_right_space_def strip_fixed)
qed

lemma trim_space_idem [simp, go_strings]: "trim_space (trim_space s) = trim_space s"
  by (metis trim_left_of_trimmed trim_right_idem trim_space_def)

lemma trim_space_Nil [simp, go_strings]: "trim_space [] = []"
  by (simp add: trim_space_def trim_left_space_def trim_right_space_def)

lemma length_trim_space: "length (trim_space s) \<le> length s"
proof -
  have "length (trim_left_space s) \<le> length s"
    by (metis le_add2 length_append strip_suffix trim_left_space_def)
  moreover have "length (trim_right_space t) \<le> length t" for t
    by (metis le_add1 length_append trim_right_prefix)
  ultimately show ?thesis unfolding trim_space_def by (meson le_trans)
qed

section \<open>Lower case commutes with trimming\<close>

lemma lower_byte_space: "(w :: string) \<in> set space_seqs \<Longrightarrow> c \<in> set w \<Longrightarrow> lower_byte d = c \<longleftrightarrow> d = c"
proof -
  assume "w \<in> set space_seqs" "c \<in> set w"
  then have c: "\<not> in_range 65 90 c" "\<not> in_range 97 122 c"
    by (auto simp: space_seqs_def in_range_def)
  have "in_range 65 90 d \<Longrightarrow> in_range 97 122 (lower_byte d)"
    by (auto simp: lower_byte_def in_range_def of_char_of)
  with c show ?thesis by (auto simp: lower_byte_def)
qed

lemma has_prefix_lower:
  "(\<And>c d. c \<in> set w \<Longrightarrow> lower_byte d = c \<longleftrightarrow> d = c) \<Longrightarrow> has_prefix (to_lower s) w = has_prefix s w"
  by (induction s w rule: has_prefix.induct) (auto simp: to_lower_def)

lemma lead_lower:
  "(\<And>w c d. w \<in> set ws \<Longrightarrow> c \<in> set w \<Longrightarrow> lower_byte d = c \<longleftrightarrow> d = c) \<Longrightarrow>
   lead ws (to_lower s) = lead ws s"
proof (induction ws)
  case (Cons w ws)
  have "has_prefix (to_lower s) w = has_prefix s w"
    by (rule has_prefix_lower) (use Cons.prems [of w] in auto)
  moreover have "lead ws (to_lower s) = lead ws s"
    by (rule Cons.IH) (use Cons.prems in auto)
  ultimately show ?case by simp
qed simp

lemma strip_lower:
  assumes "\<And>w c d. w \<in> set ws \<Longrightarrow> c \<in> set w \<Longrightarrow> lower_byte d = c \<longleftrightarrow> d = c"
  shows "strip ws (to_lower s) = to_lower (strip ws s)"
  using assms
proof (induction ws s rule: strip.induct)
  case (1 ws s)
  have l: "lead ws (to_lower s) = lead ws s" by (rule lead_lower) (use "1.prems" in auto)
  show ?case
  proof (cases "lead ws s = 0 \<or> s = []")
    case True
    then show ?thesis using l by (auto simp: strip.simps [of ws s] strip.simps [of ws "to_lower s"])
  next
    case False
    then have "strip ws (drop (lead ws s) (to_lower s)) = to_lower (strip ws (drop (lead ws s) s))"
      using "1.IH" "1.prems" by (simp add: to_lower_def drop_map)
    then show ?thesis
      using False l by (simp add: strip.simps [of ws s] strip.simps [of ws "to_lower s"])
  qed
qed

lemma trim_space_lower [go_strings]: "trim_space (to_lower s) = to_lower (trim_space s)"
proof -
  have 1: "trim_left_space (to_lower s) = to_lower (trim_left_space s)" for s
    unfolding trim_left_space_def by (rule strip_lower) (use lower_byte_space in blast)
  have "strip (map rev space_seqs) (to_lower s) = to_lower (strip (map rev space_seqs) s)" for s
    by (rule strip_lower) (use lower_byte_space in force)
  then have 2: "trim_right_space (to_lower s) = to_lower (trim_right_space s)" for s
    by (simp add: trim_right_space_def to_lower_def rev_map)
  show ?thesis by (simp add: trim_space_def 1 2)
qed

section \<open>Splitting\<close>

text \<open>\<open>strings.Split\<close> and \<open>strings.Cut\<close> for a separator of one byte.\<close>

fun split_on :: "char \<Rightarrow> string \<Rightarrow> string list" where
  "split_on d [] = [[]]"
| "split_on d (c # s) =
     (if c = d then [] # split_on d s
      else (case split_on d s of [] \<Rightarrow> [[c]] | w # ws \<Rightarrow> (c # w) # ws))"

definition cut :: "char \<Rightarrow> string \<Rightarrow> string \<times> string \<times> bool" where
  "cut d s = (if d \<in> set s then (takeWhile (\<lambda>c. c \<noteq> d) s, tl (dropWhile (\<lambda>c. c \<noteq> d) s), True)
              else (s, [], False))"

fun join :: "string \<Rightarrow> string list \<Rightarrow> string" where
  "join d [] = []"
| "join d [w] = w"
| "join d (w # ws) = w @ d @ join d ws"

text \<open>\<open>strings.Fields\<close> (separators: white space) and \<open>strings.FieldsFunc\<close> on ASCII separators.\<close>

function fields_from :: "string \<Rightarrow> string \<Rightarrow> string list" where
  "fields_from acc [] = (if acc = [] then [] else [rev acc])"
| "fields_from acc (c # s) =
     (if lead space_seqs (c # s) = 0 then fields_from (c # acc) s
      else (if acc = [] then [] else [rev acc]) @ fields_from [] (drop (lead space_seqs (c # s)) (c # s)))"
  by pat_completeness auto
termination
  by (relation "measure (\<lambda>(acc, s). length s)") auto

definition fields :: "string \<Rightarrow> string list" where
  "fields s = fields_from [] s"

fun fields_func_from :: "(char \<Rightarrow> bool) \<Rightarrow> string \<Rightarrow> string \<Rightarrow> string list" where
  "fields_func_from P acc [] = (if acc = [] then [] else [rev acc])"
| "fields_func_from P acc (c # s) =
     (if P c then (if acc = [] then [] else [rev acc]) @ fields_func_from P [] s
      else fields_func_from P (c # acc) s)"

definition fields_func :: "(char \<Rightarrow> bool) \<Rightarrow> string \<Rightarrow> string list" where
  "fields_func P s = fields_func_from P [] s"

text \<open>\<open>strings.TrimLeft\<close>, \<open>TrimRight\<close> and \<open>Trim\<close> with a cutset of ASCII characters.\<close>

definition trim_left :: "string \<Rightarrow> string \<Rightarrow> string" where
  "trim_left s cs = dropWhile (\<lambda>c. c \<in> set cs) s"

definition trim_right :: "string \<Rightarrow> string \<Rightarrow> string" where
  "trim_right s cs = rev (dropWhile (\<lambda>c. c \<in> set cs) (rev s))"

definition trim_cutset :: "string \<Rightarrow> string \<Rightarrow> string" where
  "trim_cutset s cs = trim_right (trim_left s cs) cs"

definition replace_byte :: "char \<Rightarrow> char \<Rightarrow> string \<Rightarrow> string" where
  "replace_byte a b s = map (\<lambda>c. if c = a then b else c) s"

lemma split_on_not_Nil [simp, go_strings]: "split_on d s \<noteq> []"
  by (cases s) (auto split: list.splits)

lemma split_on_sep_free [go_strings]: "w \<in> set (split_on d s) \<Longrightarrow> d \<notin> set w"
proof (induction s arbitrary: w)
  case (Cons c s)
  then show ?case by (cases "split_on d s") (auto split: if_splits)
qed simp

lemma join_split_on [go_strings]: "join [d] (split_on d s) = s"
proof (induction s)
  case (Cons c s)
  then obtain w ws where "split_on d s = w # ws" by (cases "split_on d s") auto
  with Cons show ?case by (cases ws) auto
qed simp

lemma split_on_no_sep [go_strings]: "d \<notin> set s \<Longrightarrow> split_on d s = [s]"
  by (induction s) auto

lemma split_on_append: "d \<notin> set s \<Longrightarrow> split_on d (s @ d # t) = s # split_on d t"
  by (induction s) auto

lemma length_split_on [go_strings]: "length (split_on d s) = Suc (count_list s d)"
proof (induction s)
  case (Cons c s)
  then show ?case by (cases "split_on d s") auto
qed simp

lemma cut_append [go_strings]: "d \<notin> set s \<Longrightarrow> cut d (s @ d # t) = (s, t, True)"
  by (induction s) (auto simp: cut_def)

lemma cut_True [go_strings]: "cut d s = (a, b, True) \<longleftrightarrow> s = a @ d # b \<and> d \<notin> set a"
proof
  assume *: "cut d s = (a, b, True)"
  then have d: "d \<in> set s" by (auto simp: cut_def split: if_splits)
  then obtain a' b' where s: "s = a' @ d # b'" "d \<notin> set a'" by (meson split_list_first)
  with * show "s = a @ d # b \<and> d \<notin> set a" by (simp add: cut_append)
qed (simp add: cut_append)

text \<open>A graphic text consists of printable ASCII without white space: nothing of it is trimmed or split.\<close>

definition graphic :: "string \<Rightarrow> bool" where
  "graphic s \<longleftrightarrow> list_all (\<lambda>c. 32 < byte c \<and> byte c < 128) s"

lemma space_bytes: "w \<in> set space_seqs \<Longrightarrow> c \<in> set w \<Longrightarrow> byte c \<le> 32 \<or> 128 \<le> byte c"
  by (auto simp: space_seqs_def)

lemma lead_0_no_space_byte:
  "[] \<notin> set ws \<Longrightarrow> \<forall>w \<in> set ws. \<forall>c \<in> set s. c \<notin> set w \<Longrightarrow> lead ws s = 0"
proof -
  assume ws: "[] \<notin> set ws" "\<forall>w \<in> set ws. \<forall>c \<in> set s. c \<notin> set w"
  have "\<not> has_prefix s w" if "w \<in> set ws" for w
  proof
    assume "has_prefix s w"
    then obtain t where "s = w @ t" by (auto simp: has_prefix_iff)
    moreover have "w \<noteq> []" using that ws(1) by auto
    ultimately show False using that ws(2) by (cases w) auto
  qed
  with ws(1) show ?thesis by (simp add: lead_0_iff)
qed

lemma trim_space_graphic: "\<forall>c \<in> set s. 32 < byte c \<and> byte c < 128 \<Longrightarrow> trim_space s = s"
proof -
  assume s: "\<forall>c \<in> set s. 32 < byte c \<and> byte c < (128 :: nat)"
  have "c \<notin> set w" if "w \<in> set space_seqs" "c \<in> set s" for w c
    using space_bytes [OF that(1), of c] s that(2) by fastforce
  then have "lead space_seqs s = 0" "lead (map rev space_seqs) (rev s) = 0"
    by (auto intro!: lead_0_no_space_byte)
  then show ?thesis
    by (simp add: trim_space_def trim_left_space_def trim_right_space_def strip_fixed)
qed

lemma lead_graphic: "32 < byte c \<and> byte c < (128 :: nat) \<Longrightarrow> lead space_seqs (c # s) = 0"
proof -
  assume c: "32 < byte c \<and> byte c < (128 :: nat)"
  have "\<not> has_prefix (c # s) w" if "w \<in> set space_seqs" for w
  proof
    assume p: "has_prefix (c # s) w"
    have "w \<noteq> []" using that Nil_notin_space_seqs(1) by blast
    with p have "c \<in> set w" by (cases w) auto
    with space_bytes [OF that] c show False by fastforce
  qed
  then show ?thesis using Nil_notin_space_seqs(1) by (simp add: lead_0_iff)
qed

lemma lead_space: "lead space_seqs (CHR '' '' # s) = 1"
  by (simp add: space_seqs_def)

lemma fields_from_graphic:
  "graphic w \<Longrightarrow> fields_from acc (w @ s) = fields_from (rev w @ acc) s"
  by (induction w arbitrary: acc) (simp_all add: graphic_def lead_graphic)

lemma fields_from_space: "fields_from acc (CHR '' '' # s) = (if acc = [] then [] else [rev acc]) @ fields_from [] s"
  by (simp add: lead_space)

lemma fields_from_spaces: "fields_from [] (replicate n CHR '' '' @ s) = fields_from [] s"
  by (induction n) (simp_all add: lead_space del: fields_from.simps(2) add: fields_from_space)

lemma fields_join [go_strings]:
  "list_all (\<lambda>w. w \<noteq> [] \<and> graphic w) ws \<Longrightarrow> fields (join '' '' ws) = ws"
proof (induction ws rule: induct_list012)
  case (3 w w' ws)
  then show ?case
    unfolding fields_def by (simp add: fields_from_graphic fields_from_space del: fields_from.simps(2))
qed (auto simp: fields_def dest: fields_from_graphic [where s = "[]" and acc = "[]"])

section \<open>Runes\<close>

text \<open>\<open>rune_size s\<close> is the width \<open>utf8.DecodeRuneInString\<close> reports for a non-empty \<open>s\<close>: the
  length of a valid UTF-8 sequence at the front, and 1 for a byte that starts none.\<close>

definition cont :: "char \<Rightarrow> bool" where
  "cont c \<longleftrightarrow> in_range 0x80 0xBF c"

fun rune_size :: "string \<Rightarrow> nat" where
  "rune_size [] = 0"
| "rune_size (a # s) =
     (if byte a < 0xC2 then 1
      else if byte a < 0xE0 then (case s of b # _ \<Rightarrow> if cont b then 2 else 1 | _ \<Rightarrow> 1)
      else if byte a < 0xF0 then
        (case s of b # c # _ \<Rightarrow>
           if (if byte a = 0xE0 then in_range 0xA0 0xBF b
               else if byte a = 0xED then in_range 0x80 0x9F b else cont b) \<and> cont c then 3 else 1
         | _ \<Rightarrow> 1)
      else if byte a < 0xF5 then
        (case s of b # c # d # _ \<Rightarrow>
           if (if byte a = 0xF0 then in_range 0x90 0xBF b
               else if byte a = 0xF4 then in_range 0x80 0x8F b else cont b) \<and> cont c \<and> cont d then 4 else 1
         | _ \<Rightarrow> 1)
      else 1)"

lemma rune_size_pos [simp]: "s \<noteq> [] \<Longrightarrow> 0 < rune_size s"
  by (cases s) (auto split: list.splits)

function rune_count :: "string \<Rightarrow> nat" where
  "rune_count s = (if s = [] then 0 else Suc (rune_count (drop (rune_size s) s)))"
  by pat_completeness auto
termination
  by (relation "measure length") auto

declare rune_count.simps [simp del]

text \<open>\<open>string([]rune(s)[0])\<close>: a byte that starts no rune reads as U+FFFD.\<close>

definition first_rune :: "string \<Rightarrow> string" where
  "first_rune s =
     (if rune_size s = 1 \<and> (\<exists>c \<in> set (take 1 s). 0x80 \<le> byte c) then [CHR 0xEF, CHR 0xBF, CHR 0xBD]
      else take (rune_size s) s)"

section \<open>Numbers\<close>

text \<open>
  \<open>strconv.ParseUint\<close>, \<open>ParseInt\<close> and \<open>Atoi\<close>: the value and whether the error is nil. As in
  Go, the value is 0 after a syntax error and the nearest bound after a range error, and
  the scan reports whichever error it meets first.
\<close>

definition digit_val :: "char \<Rightarrow> int" where
  "digit_val c = (if in_range 48 57 c then of_char c - 48
                  else if in_range 97 122 c then of_char c - 87
                  else if in_range 65 90 c then of_char c - 55 else 99)"

fun parse_uint_from :: "int \<Rightarrow> int \<Rightarrow> int \<Rightarrow> string \<Rightarrow> int \<times> bool \<times> bool" where
  \<comment> \<open>value, error is nil, error is a range error\<close>
  "parse_uint_from base mx n [] = (n, True, False)"
| "parse_uint_from base mx n (c # s) =
     (if base \<le> digit_val c then (0, False, False)
      else if mx < n * base + digit_val c then (mx, False, True)
      else parse_uint_from base mx (n * base + digit_val c) s)"

definition parse_uint :: "int \<Rightarrow> nat \<Rightarrow> string \<Rightarrow> int \<times> bool \<times> bool" where
  "parse_uint base bits s = (if s = [] then (0, False, False) else parse_uint_from base (2 ^ bits - 1) 0 s)"

definition parse_uint64 :: "string \<Rightarrow> int" where
  "parse_uint64 s = fst (parse_uint 10 64 s)"

definition parse_int :: "int \<Rightarrow> nat \<Rightarrow> string \<Rightarrow> int \<times> bool" where
  "parse_int base bits s =
     (if s = [] then (0, False)
      else
        let neg = (hd s = CHR ''-'');
            r = parse_uint base bits (if hd s = CHR ''+'' \<or> hd s = CHR ''-'' then tl s else s);
            un = fst r; lim = 2 ^ (bits - 1)
        in if \<not> fst (snd r) \<and> \<not> snd (snd r) then (0, False)
           else if \<not> neg \<and> lim \<le> un then (lim - 1, False)
           else if neg \<and> lim < un then (- lim, False)
           else (if neg then - un else un, True))"

definition atoi :: "string \<Rightarrow> int \<times> bool" where
  "atoi s = parse_int 10 64 s"

text \<open>\<open>fmt.Sscanf(s, "%d", &v)\<close> into a variable that holds 0.\<close>

definition sscanf_d :: "string \<Rightarrow> int" where
  "sscanf_d s =
     (let t = trim_left_space s;
          sg = (t \<noteq> [] \<and> (hd t = CHR ''+'' \<or> hd t = CHR ''-''));
          ds = takeWhile is_digit_byte (if sg then tl t else t);
          r = parse_int 10 64 (if sg then hd t # ds else ds)
      in if ds = [] \<or> CHR 0x0A \<in> set (take (length s - length t) s) then 0
         else if snd r then fst r else 0)"

text \<open>Decimal printing (\<open>strconv.Itoa\<close>, \<open>FormatUint\<close>).\<close>

function nat_to_dec :: "nat \<Rightarrow> string" where
  "nat_to_dec n = (if n < 10 then [char_of (48 + n)] else nat_to_dec (n div 10) @ [char_of (48 + n mod 10)])"
  by pat_completeness auto
termination
  by (relation "measure id") auto

declare nat_to_dec.simps [simp del]

definition itoa :: "int \<Rightarrow> string" where
  "itoa i = (if i < 0 then CHR ''-'' # nat_to_dec (nat (- i)) else nat_to_dec (nat i))"

lemma digit_val_nonneg [simp]: "0 \<le> digit_val c"
proof -
  have "in_range lo hi c \<Longrightarrow> int lo \<le> of_char c" for lo hi
    unfolding in_range_def by (metis of_nat_le_iff of_nat_of_char)
  from this [of 48 57] this [of 97 122] this [of 65 90] show ?thesis by (auto simp: digit_val_def)
qed

lemma parse_uint_from_bounds:
  "0 \<le> base \<Longrightarrow> 0 \<le> n \<Longrightarrow> n \<le> mx \<Longrightarrow>
     0 \<le> fst (parse_uint_from base mx n s) \<and> fst (parse_uint_from base mx n s) \<le> mx"
  by (induction base mx n s rule: parse_uint_from.induct) auto

lemma parse_uint_bounds [go_numbers]:
  "0 \<le> base \<Longrightarrow> 0 \<le> fst (parse_uint base bits s) \<and> fst (parse_uint base bits s) \<le> 2 ^ bits - 1"
  using parse_uint_from_bounds [of base 0 "2 ^ bits - 1" s] by (simp add: parse_uint_def)

lemma parse_uint64_bounds [go_numbers]: "0 \<le> parse_uint64 s \<and> parse_uint64 s < 2 ^ 64"
  using parse_uint_bounds [of 10 64 s] by (simp add: parse_uint64_def)

lemma atoi_bounds [go_numbers]: "- (2 ^ 63) \<le> fst (atoi s) \<and> fst (atoi s) < 2 ^ 63"
proof -
  have b: "0 \<le> fst (parse_uint 10 64 t)" for t using parse_uint_bounds [of 10 64 t] by simp
  show ?thesis
    using b [of s] b [of "tl s"]
    by (cases "s = []"; cases "hd s = CHR ''-''"; cases "hd s = CHR ''+''")
       (auto simp: atoi_def parse_int_def Let_def)
qed

lemma digit_val_dec: "d < 10 \<Longrightarrow> digit_val (char_of (48 + d)) = int d"
proof -
  assume d: "d < 10"
  have "(of_char (char_of (48 + d)) :: int) = int (of_char (char_of (48 + d)))"
    by (simp only: of_nat_of_char)
  also have "\<dots> = int (48 + d)"
    using d by (simp only: of_char_of) simp
  finally have "(of_char (char_of (48 + d)) :: int) = int (48 + d)" .
  with d show ?thesis by (simp add: digit_val_def in_range_def of_char_of)
qed

lemma parse_uint_from_append:
  "parse_uint_from b mx n (s @ t) =
     (case parse_uint_from b mx n s of (v, True, _) \<Rightarrow> parse_uint_from b mx v t | r \<Rightarrow> r)"
  by (induction b mx n s rule: parse_uint_from.induct) auto

lemma nat_to_dec_parse: "int n \<le> mx \<Longrightarrow> parse_uint_from 10 mx 0 (nat_to_dec n) = (int n, True, False)"
proof (induction n rule: nat_to_dec.induct)
  case (1 n)
  show ?case
  proof (cases "n < 10")
    case True
    with "1.prems" show ?thesis by (simp add: nat_to_dec.simps [of n] digit_val_dec)
  next
    case False
    have "int (n div 10) \<le> mx" using "1.prems" by linarith
    with False have "parse_uint_from 10 mx 0 (nat_to_dec (n div 10)) = (int (n div 10), True, False)"
      using "1.IH" by simp
    moreover have "int (n div 10) * 10 + int (n mod 10) = int n"
      by (metis div_mult_mod_eq of_nat_add of_nat_mult of_nat_numeral)
    ultimately show ?thesis
      using False "1.prems" by (simp add: nat_to_dec.simps [of n] parse_uint_from_append digit_val_dec)
  qed
qed

lemma nat_to_dec_not_Nil [simp]: "nat_to_dec n \<noteq> []"
  by (simp add: nat_to_dec.simps [of n])

lemma parse_uint64_nat_to_dec [go_numbers]: "n < 2 ^ 64 \<Longrightarrow> parse_uint64 (nat_to_dec n) = int n"
  by (simp add: parse_uint64_def parse_uint_def nat_to_dec_parse)

lemma nat_to_dec_digits: "list_all is_digit_byte (nat_to_dec n)"
proof (induction n rule: nat_to_dec.induct)
  case (1 n)
  have "is_digit_byte (char_of (48 + d :: nat))" if "d < 10" for d
    using that by (simp add: is_digit_byte_def in_range_def of_char_of)
  with 1 show ?case by (simp add: nat_to_dec.simps [of n])
qed

lemma graphic_digits: "list_all is_digit_byte s \<Longrightarrow> graphic s"
  by (auto simp: graphic_def list_all_iff is_digit_byte_def in_range_def)

lemma graphic_nat_to_dec [simp]: "graphic (nat_to_dec n)"
  by (rule graphic_digits [OF nat_to_dec_digits])

lemma atoi_nat_to_dec [go_numbers]: "n < 2 ^ 63 \<Longrightarrow> atoi (nat_to_dec n) = (int n, True)"
proof -
  assume n: "n < 2 ^ 63"
  obtain c s where s: "nat_to_dec n = c # s" by (cases "nat_to_dec n") auto
  then have "is_digit_byte c" using nat_to_dec_digits [of n] by simp
  then have c: "c \<noteq> CHR ''-''" "c \<noteq> CHR ''+''" by (auto simp: is_digit_byte_def in_range_def)
  have "parse_uint 10 64 (nat_to_dec n) = (int n, True, False)"
    using n by (simp add: parse_uint_def nat_to_dec_parse)
  with n s c show ?thesis by (simp add: atoi_def parse_int_def Let_def)
qed

lemma split_on_join [go_strings]:
  "ws \<noteq> [] \<Longrightarrow> list_all (\<lambda>w. d \<notin> set w) ws \<Longrightarrow> split_on d (join [d] ws) = ws"
  by (induction ws rule: induct_list012) (simp_all add: split_on_no_sep split_on_append)

lemma set_join: "set (join d ws) \<subseteq> set d \<union> \<Union> (set ` set ws)"
  by (induction ws rule: induct_list012) auto

section \<open>Filtering maps\<close>

lemma map_filter_mem: "y \<in> set (List.map_filter f xs) \<longleftrightarrow> (\<exists>x \<in> set xs. f x = Some y)"
  by (force simp: map_filter_def)

end
