(* ===== verification/Http.thy ===== *)
theory Http
  imports GoPrelude "HOL-Library.AList"
begin

text \<open>
  The part of \<open>net/http\<close>, \<open>net\<close> and \<open>encoding/json\<close> the handlers use: requests, responses,
  cookies, and the decoding of a JSON body into a Go struct. A request body is given as the
  sequence of JSON values that the decoder reads from the bytes within the size limit, and
  whether the input ends cleanly after them: turning bytes into values is the library's part.
\<close>

section \<open>JSON values and struct decoding\<close>

datatype json =
    JNull
  | JBool bool
  | JNum int
  | JLit string      \<comment> \<open>a number that is not an integer, by its digits\<close>
  | JStr string
  | JArr "json list"
  | JObj "(string \<times> json) list"

record body =
  docs :: "json list"
  clean_end :: bool

datatype kind = KStr | KBool | KObj "(string \<times> kind) list"

type_synonym schema = "(string \<times> kind) list"

text \<open>The values a struct received, by the path of the field.\<close>

type_synonym decoded = "string list \<Rightarrow> json option"

text \<open>A member name selects a field exactly or, failing that, up to case.\<close>

definition find_field :: "schema \<Rightarrow> string \<Rightarrow> (string \<times> kind) option" where
  "find_field sch k =
     (case map_of sch k of
        Some kd \<Rightarrow> Some (k, kd)
      | None \<Rightarrow> List.find (\<lambda>(n, _). equal_fold n k) sch)"

fun decode_members ::
  "bool \<Rightarrow> string list \<Rightarrow> schema \<Rightarrow> (string \<times> json) list \<Rightarrow> decoded \<Rightarrow> decoded option" where
  "decode_members strict path sch [] d = Some d"
| "decode_members strict path sch ((k, v) # ms) d =
     (case find_field sch k of
        None \<Rightarrow> if strict then None else decode_members strict path sch ms d
      | Some (name, kd) \<Rightarrow>
          (case v of
             JNull \<Rightarrow> decode_members strict path sch ms d
           | JStr s \<Rightarrow> (case kd of KStr \<Rightarrow> decode_members strict path sch ms (d(path @ [name] \<mapsto> v)) | _ \<Rightarrow> None)
           | JBool b \<Rightarrow> (case kd of KBool \<Rightarrow> decode_members strict path sch ms (d(path @ [name] \<mapsto> v)) | _ \<Rightarrow> None)
           | JObj ms' \<Rightarrow>
               (case kd of
                  KObj sub \<Rightarrow>
                    (case decode_members strict (path @ [name]) sub ms' d of
                       None \<Rightarrow> None | Some d' \<Rightarrow> decode_members strict path sch ms d')
                | _ \<Rightarrow> None)
           | _ \<Rightarrow> None))"

fun decode_struct :: "bool \<Rightarrow> schema \<Rightarrow> json \<Rightarrow> decoded option" where
  "decode_struct strict sch JNull = Some Map.empty"
| "decode_struct strict sch (JObj ms) = decode_members strict [] sch ms Map.empty"
| "decode_struct strict sch _ = None"

text \<open>\<open>decodeJSON\<close> of \<open>auth/handlers.go\<close>: one document, no unknown field, nothing after it.\<close>

definition decodeJSON :: "schema \<Rightarrow> body \<Rightarrow> decoded option" where
  "decodeJSON sch b =
     (case docs b of
        [d] \<Rightarrow> if clean_end b then decode_struct True sch d else None
      | d # _ \<Rightarrow> None
      | [] \<Rightarrow> None)"

text \<open>\<open>json.NewDecoder(body).Decode(&v)\<close>: the first document only, unknown fields ignored.\<close>

definition decode_first :: "schema \<Rightarrow> body \<Rightarrow> decoded option" where
  "decode_first sch b = (case docs b of [] \<Rightarrow> None | d # _ \<Rightarrow> decode_struct False sch d)"

definition str_field :: "decoded \<Rightarrow> string list \<Rightarrow> string" where
  "str_field d p = (case d p of Some (JStr s) \<Rightarrow> s | _ \<Rightarrow> [])"

definition bool_field :: "decoded \<Rightarrow> string list \<Rightarrow> bool" where
  "bool_field d p = (case d p of Some (JBool b) \<Rightarrow> b | _ \<Rightarrow> False)"

section \<open>Requests\<close>

text \<open>The context values are the ones the middleware of the backend sets.\<close>

record request =
  req_method :: string
  path :: string
  host :: string
  headers :: "(string \<times> string) list"
  cookies :: "(string \<times> string) list"
  query :: "(string \<times> string) list"
  tls :: bool
  remote :: string
  body_of :: body
  ctx_user :: "string option"
  ctx_role :: "string option"
  ctx_csrf_skip :: bool

definition header :: "request \<Rightarrow> string \<Rightarrow> string" where
  "header r name = (case map_of (headers r) name of None \<Rightarrow> [] | Some v \<Rightarrow> v)"

definition cookie :: "request \<Rightarrow> string \<Rightarrow> string option" where
  "cookie r name = map_of (cookies r) name"

definition query_get :: "request \<Rightarrow> string \<Rightarrow> string" where
  "query_get r name = (case map_of (query r) name of None \<Rightarrow> [] | Some v \<Rightarrow> v)"

definition empty_body :: body where
  "empty_body = \<lparr>docs = [], clean_end = True\<rparr>"

definition base_request :: "string \<Rightarrow> string \<Rightarrow> request" where
  "base_request m p =
     \<lparr>req_method = m, path = p, host = ''unyport.test'', headers = [], cookies = [], query = [], tls = False,
      remote = ''10.0.0.9:4711'', body_of = empty_body, ctx_user = None, ctx_role = None,
      ctx_csrf_skip = False\<rparr>"

definition json_body :: "(string \<times> json) list \<Rightarrow> body" where
  "json_body ms = \<lparr>docs = [JObj ms], clean_end = True\<rparr>"

text \<open>
  \<open>net.SplitHostPort\<close>: the host, or \<open>None\<close> for an error. The last colon separates the port; a
  host with a colon of its own must be bracketed.
\<close>

definition split_host_port :: "string \<Rightarrow> string option" where
  "split_host_port hp =
     (if CHR '':'' \<notin> set hp then None
      else
        let port = rev (takeWhile (\<lambda>c. c \<noteq> CHR '':'') (rev hp));
            h = take (length hp - length port - 1) hp
        in if hp \<noteq> [] \<and> hd hp = CHR ''['' then
             (if CHR '']'' \<notin> set hp then None
              else
                let addr = takeWhile (\<lambda>c. c \<noteq> CHR '']'') (tl hp)
                in if length addr + 2 = length h \<and> CHR ''['' \<notin> set addr \<and>
                      CHR ''['' \<notin> set port \<and> CHR '']'' \<notin> set port then Some addr else None)
           else if CHR '':'' \<in> set h \<or> CHR ''['' \<in> set hp \<or> CHR '']'' \<in> set hp then None
           else Some h)"

section \<open>Responses\<close>

record set_cookie =
  ck_name :: string
  ck_value :: string
  ck_path :: string
  ck_max_age :: int
  ck_expires :: "int option"
  ck_http_only :: bool
  ck_secure :: bool
  ck_same_site_lax :: bool

datatype content = NoContent | Plain string | Json json | Static string

record response =
  status :: nat
  resp_headers :: "(string \<times> string) list"
  set_cookies :: "set_cookie list"
  content :: content

definition respond :: "nat \<Rightarrow> content \<Rightarrow> response" where
  "respond code c = \<lparr>status = code, resp_headers = [], set_cookies = [], content = c\<rparr>"

definition with_header :: "string \<Rightarrow> string \<Rightarrow> response \<Rightarrow> response" where
  "with_header k v rs = rs\<lparr>resp_headers := AList.update k v (resp_headers rs)\<rparr>"

definition with_cookie :: "set_cookie \<Rightarrow> response \<Rightarrow> response" where
  "with_cookie c rs = rs\<lparr>set_cookies := c # set_cookies rs\<rparr>"

definition resp_header :: "response \<Rightarrow> string \<Rightarrow> string option" where
  "resp_header rs k = map_of (resp_headers rs) k"

lemma resp_header_with [simp]: "resp_header (with_header k v rs) k' = (if k' = k then Some v else resp_header rs k')"
  by (simp add: resp_header_def with_header_def update_conv)

lemma resp_header_simps [simp]:
  "resp_header (respond code c) k = None" "resp_header (with_cookie ck rs) k = resp_header rs k"
  by (simp_all add: resp_header_def respond_def with_cookie_def)

definition json_type :: string where
  "json_type = ''application/json; charset=utf-8''"

definition json_response :: "nat \<Rightarrow> json \<Rightarrow> response" where
  "json_response code j = with_header ''Content-Type'' json_type (respond code (Json j))"

definition http_error :: "string \<Rightarrow> nat \<Rightarrow> response" where
  "http_error msg code =
     with_header ''X-Content-Type-Options'' ''nosniff''
       (with_header ''Content-Type'' ''text/plain; charset=utf-8'' (respond code (Plain msg)))"

definition redirect :: "string \<Rightarrow> nat \<Rightarrow> response" where
  "redirect url code = with_header ''Location'' url (respond code NoContent)"

text \<open>\<open>jsonOK\<close> and \<open>jsonError\<close>, the same in \<open>auth\<close> and \<open>xenctl\<close>.\<close>

definition jsonOK :: response where
  "jsonOK = json_response 200 (JObj [(''ok'', JBool True)])"

definition jsonError :: "string \<Rightarrow> nat \<Rightarrow> response" where
  "jsonError msg code = json_response code (JObj [(''error'', JStr msg)])"

definition method_not_allowed :: response where
  "method_not_allowed = http_error ''method not allowed'' 405"

text \<open>A handler maps a request and the state of the server to a response and the new state.\<close>

type_synonym 'w handler = "request \<Rightarrow> 'w \<Rightarrow> response \<times> 'w"
type_synonym 'w middleware = "'w handler \<Rightarrow> 'w handler"

named_theorems http_simps \<open>evaluation of requests and responses\<close>

lemma status_simps [simp, http_simps]:
  "status (respond code c) = code" "status (with_header k v rs) = status rs"
  "status (with_cookie ck rs) = status rs" "status (json_response code j) = code"
  "status (http_error msg code) = code" "status (redirect url code) = code"
  "status jsonOK = 200" "status (jsonError msg code) = code" "status method_not_allowed = 405"
  by (simp_all add: respond_def with_header_def with_cookie_def json_response_def http_error_def
      redirect_def jsonOK_def jsonError_def method_not_allowed_def)

lemma set_cookies_simps [simp, http_simps]:
  "set_cookies (respond code c) = []" "set_cookies (with_header k v rs) = set_cookies rs"
  "set_cookies (with_cookie ck rs) = ck # set_cookies rs" "set_cookies (json_response code j) = []"
  "set_cookies (http_error msg code) = []" "set_cookies (redirect url code) = []"
  "set_cookies jsonOK = []" "set_cookies (jsonError msg code) = []" "set_cookies method_not_allowed = []"
  by (simp_all add: respond_def with_header_def with_cookie_def json_response_def http_error_def
      redirect_def jsonOK_def jsonError_def method_not_allowed_def)

lemma content_simps [simp, http_simps]:
  "content (respond code c) = c" "content (with_header k v rs) = content rs"
  "content (with_cookie ck rs) = content rs" "content (json_response code j) = Json j"
  "content (http_error msg code) = Plain msg" "content (redirect url code) = NoContent"
  "content (jsonError msg code) = Json (JObj [(''error'', JStr msg)])"
  "content jsonOK = Json (JObj [(''ok'', JBool True)])"
  by (simp_all add: respond_def with_header_def with_cookie_def json_response_def http_error_def
      redirect_def jsonOK_def jsonError_def)

lemma decode_members_nodup_str:
  "str_field (d(p \<mapsto> JStr s)) p = s"
  by (simp add: str_field_def)

end
