(* ===== verification/Base64.thy ===== *)
theory Base64
  imports GoPrelude
begin

text \<open>
  The codecs of Go's \<open>encoding/base64\<close> that the backend uses: \<open>RawURLEncoding\<close> for the CSRF
  token and its signature, \<open>StdEncoding\<close> and \<open>RawStdEncoding\<close> for secrets and logos. As in Go,
  decoding skips carriage returns and newlines and does not insist on zero trailing bits.
\<close>

datatype alphabet = StdAlphabet | UrlAlphabet

definition b64_char :: "alphabet \<Rightarrow> nat \<Rightarrow> char" where
  "b64_char al i =
     (if i < 26 then char_of (65 + i) else if i < 52 then char_of (71 + i)
      else if i < 62 then char_of (i - 4)
      else if i = 62 then (case al of StdAlphabet \<Rightarrow> CHR ''+'' | UrlAlphabet \<Rightarrow> CHR ''-'')
      else (case al of StdAlphabet \<Rightarrow> CHR ''/'' | UrlAlphabet \<Rightarrow> CHR ''_''))"

definition b64_val :: "alphabet \<Rightarrow> char \<Rightarrow> nat option" where
  "b64_val al c =
     (if in_range 65 90 c then Some (byte c - 65) else if in_range 97 122 c then Some (byte c - 71)
      else if in_range 48 57 c then Some (byte c + 4)
      else if c = (case al of StdAlphabet \<Rightarrow> CHR ''+'' | UrlAlphabet \<Rightarrow> CHR ''-'') then Some 62
      else if c = (case al of StdAlphabet \<Rightarrow> CHR ''/'' | UrlAlphabet \<Rightarrow> CHR ''_'') then Some 63
      else None)"

text \<open>\<open>b64_encode al pad\<close>: \<open>pad\<close> holds for the encodings with padding.\<close>

fun b64_encode :: "alphabet \<Rightarrow> bool \<Rightarrow> string \<Rightarrow> string" where
  "b64_encode al pad [] = []"
| "b64_encode al pad [x] =
     [b64_char al (byte x div 4), b64_char al ((byte x mod 4) * 16)] @ (if pad then ''=='' else [])"
| "b64_encode al pad [x, y] =
     [b64_char al (byte x div 4), b64_char al ((byte x mod 4) * 16 + byte y div 16),
      b64_char al ((byte y mod 16) * 4)] @ (if pad then ''='' else [])"
| "b64_encode al pad (x # y # z # s) =
     [b64_char al (byte x div 4), b64_char al ((byte x mod 4) * 16 + byte y div 16),
      b64_char al ((byte y mod 16) * 4 + byte z div 64), b64_char al (byte z mod 64)] @ b64_encode al pad s"

definition b64_bytes :: "nat \<Rightarrow> nat \<Rightarrow> nat \<Rightarrow> nat \<Rightarrow> string" where
  "b64_bytes a b c d =
     [char_of (a * 4 + b div 16), char_of ((b mod 16) * 16 + c div 4), char_of ((c mod 4) * 64 + d)]"

fun b64_quanta :: "alphabet \<Rightarrow> bool \<Rightarrow> string \<Rightarrow> string option" where
  "b64_quanta al pad [] = Some []"
| "b64_quanta al pad [a] = None"
| "b64_quanta al pad [a, b] =
     (if pad then None
      else case (b64_val al a, b64_val al b) of
             (Some i, Some j) \<Rightarrow> Some (take 1 (b64_bytes i j 0 0)) | _ \<Rightarrow> None)"
| "b64_quanta al pad [a, b, c] =
     (if pad then None
      else case (b64_val al a, b64_val al b, b64_val al c) of
             (Some i, Some j, Some k) \<Rightarrow> Some (take 2 (b64_bytes i j k 0)) | _ \<Rightarrow> None)"
| "b64_quanta al pad (a # b # c # d # s) =
     (case (b64_val al a, b64_val al b) of
        (Some i, Some j) \<Rightarrow>
          if pad \<and> c = CHR ''='' then (if d = CHR ''='' \<and> s = [] then Some (take 1 (b64_bytes i j 0 0)) else None)
          else (case b64_val al c of
                  None \<Rightarrow> None
                | Some k \<Rightarrow>
                    if pad \<and> d = CHR ''='' then (if s = [] then Some (take 2 (b64_bytes i j k 0)) else None)
                    else (case (b64_val al d, b64_quanta al pad s) of
                            (Some l, Some r) \<Rightarrow> Some (b64_bytes i j k l @ r) | _ \<Rightarrow> None))
      | _ \<Rightarrow> None)"

definition b64_decode :: "alphabet \<Rightarrow> bool \<Rightarrow> string \<Rightarrow> string option" where
  "b64_decode al pad s = b64_quanta al pad (filter (\<lambda>c. c \<noteq> CHR 0x0A \<and> c \<noteq> CHR 0x0D) s)"

lemma char_eq_byte: "c = d \<longleftrightarrow> byte c = byte d"
  by simp

lemma byte_b64_char:
  "i < 64 \<Longrightarrow> byte (b64_char al i) =
     (if i < 26 then 65 + i else if i < 52 then 71 + i else if i < 62 then i - 4
      else if i = 62 then (case al of StdAlphabet \<Rightarrow> 43 | UrlAlphabet \<Rightarrow> 45)
      else (case al of StdAlphabet \<Rightarrow> 47 | UrlAlphabet \<Rightarrow> 95))"
  by (auto simp: b64_char_def of_char_of split: alphabet.splits)

lemma b64_char_facts:
  assumes "i < 64"
  shows "b64_val al (b64_char al i) = Some i" "b64_char al i \<noteq> CHR 0x0A" "b64_char al i \<noteq> CHR 0x0D"
    "b64_char al i \<noteq> CHR ''=''" "b64_char al i \<noteq> CHR ''.''"
  using assms
  by (cases al; auto simp: b64_val_def in_range_def byte_b64_char char_eq_byte simp del: of_char_eq_iff)+

lemma byte_bounds [simp]:
  "byte c div 4 < 64" "(byte c mod 4) * 16 + byte d div 16 < 64" "(byte c mod 4) * 16 < 64"
  "(byte c mod 16) * 4 + byte d div 64 < 64" "(byte c mod 16) * 4 < 64" "byte c mod 64 < 64"
proof -
  have "byte c div 4 < 64" "byte d div 16 < 16" "byte d div 64 < 4"
    by (simp_all add: less_mult_imp_div_less)
  moreover have "byte c mod 4 < 4" "byte c mod 16 < 16" "byte c mod 64 < 64" by simp_all
  ultimately show "byte c div 4 < 64" "(byte c mod 4) * 16 + byte d div 16 < 64" "(byte c mod 4) * 16 < 64"
    "(byte c mod 16) * 4 + byte d div 64 < 64" "(byte c mod 16) * 4 < 64" "byte c mod 64 < 64"
    by linarith+
qed

lemma b64_encode_chars: "c \<in> set (b64_encode al False s) \<Longrightarrow> \<exists>i < 64. c = b64_char al i"
  by (induction al False s rule: b64_encode.induct) (auto intro: byte_bounds)

lemma b64_encode_clean:
  "filter (\<lambda>c. c \<noteq> CHR 0x0A \<and> c \<noteq> CHR 0x0D) (b64_encode al False s) = b64_encode al False s"
  by (auto simp: filter_id_conv dest!: b64_encode_chars simp: b64_char_facts)

lemma regroup:
  "char_of (byte x div 4 * 4 + ((byte x mod 4) * 16 + byte y div 16) div 16) = x"
  "char_of ((((byte x mod 4) * 16 + byte y div 16) mod 16) * 16 + ((byte y mod 16) * 4 + byte z div 64) div 4) = y"
  "char_of ((((byte y mod 16) * 4 + byte z div 64) mod 4) * 64 + byte z mod 64) = z"
proof -
  have d: "byte y div 16 < 16" "byte z div 64 < 4" using byte_less_256 [of y] byte_less_256 [of z] by linarith+
  have 1: "byte x div 4 * 4 + ((byte x mod 4) * 16 + byte y div 16) div 16 = byte x"
    using d by simp
  have 2: "(((byte x mod 4) * 16 + byte y div 16) mod 16) * 16 + ((byte y mod 16) * 4 + byte z div 64) div 4 = byte y"
    using d by simp
  have 3: "(((byte y mod 16) * 4 + byte z div 64) mod 4) * 64 + byte z mod 64 = byte z"
    using d by simp
  show "char_of (byte x div 4 * 4 + ((byte x mod 4) * 16 + byte y div 16) div 16) = x" unfolding 1 by simp
  show "char_of ((((byte x mod 4) * 16 + byte y div 16) mod 16) * 16 + ((byte y mod 16) * 4 + byte z div 64) div 4) = y"
    unfolding 2 by simp
  show "char_of ((((byte y mod 16) * 4 + byte z div 64) mod 4) * 64 + byte z mod 64) = z" unfolding 3 by simp
qed

lemma b64_quanta_encode: "b64_quanta al False (b64_encode al False s) = Some s"
proof (induction al False s rule: b64_encode.induct)
  case (2 al x)
  then show ?case using regroup(1) [of x "CHR 0x00"] by (simp add: b64_char_facts b64_bytes_def)
next
  case (3 al x y)
  then show ?case using regroup(1) [of x y] regroup(2) [of x y "CHR 0x00"]
    by (simp add: b64_char_facts b64_bytes_def)
next
  case (4 al x y z s)
  then show ?case using regroup(1) [of x y] regroup(2) [of x y z] regroup(3) [of y z]
    by (simp add: b64_char_facts b64_bytes_def)
qed simp

lemma b64_decode_encode [simp]: "b64_decode al False (b64_encode al False s) = Some s"
  by (simp add: b64_decode_def b64_encode_clean b64_quanta_encode)

lemma b64_encode_Nil [simp]: "b64_encode al False s = [] \<longleftrightarrow> s = []"
  by (induction al False s rule: b64_encode.induct) auto

lemma b64_encode_no_dot: "CHR ''.'' \<notin> set (b64_encode al False s)"
  using b64_char_facts(5) by (metis b64_encode_chars)

lemma b64_char_graphic: "i < 64 \<Longrightarrow> 32 < byte (b64_char al i) \<and> byte (b64_char al i) < (128 :: nat)"
  by (auto simp: byte_b64_char split: alphabet.splits)

lemma b64_val_graphic: "b64_val al c = Some i \<Longrightarrow> 32 < byte c \<and> byte c < (128 :: nat)"
  by (auto simp: b64_val_def in_range_def split: if_splits alphabet.splits)

lemma b64_quanta_graphic:
  "b64_quanta al False s = Some x \<Longrightarrow> c \<in> set s \<Longrightarrow> 32 < byte c \<and> byte c < (128 :: nat)"
proof (induction al "False" s arbitrary: x rule: b64_quanta.induct)
  case (5 al a b c' d s)
  then obtain i j k l r where "b64_val al a = Some i" "b64_val al b = Some j" "b64_val al c' = Some k"
      "b64_val al d = Some l" "b64_quanta al False s = Some r"
    by (auto split: option.splits)
  with 5 show ?case using b64_val_graphic by auto
qed (auto split: option.splits dest: b64_val_graphic)

lemma b64_decode_graphic:
  assumes "b64_decode al False s = Some x" and "CHR 0x0A \<notin> set s" and "CHR 0x0D \<notin> set s"
  shows "\<forall>c \<in> set s. 32 < byte c \<and> byte c < (128 :: nat)"
proof -
  have "filter (\<lambda>c. c \<noteq> CHR 0x0A \<and> c \<noteq> CHR 0x0D) s = s"
    using assms(2,3) by (auto simp: filter_id_conv)
  with assms(1) show ?thesis by (auto simp only: b64_decode_def dest: b64_quanta_graphic)
qed

lemma trim_space_encode [simp]: "trim_space (b64_encode al False s) = b64_encode al False s"
  by (rule trim_space_graphic) (auto dest!: b64_encode_chars simp: b64_char_graphic)

end
