(* ===== verification/Users.thy ===== *)
theory Users
  imports GoPrelude
begin

text \<open>
  The user store, \<open>backend/auth/users.go\<close>: the \<open>User\<close> record and its accessors, and the
  operations of \<open>UserStore\<close> over the in-memory map and the file behind it. The store is
  guarded by one mutex, so an operation is one atomic step. Password hashing
  (\<open>golang.org/x/crypto/bcrypt\<close>) is a pair of parameters \<open>gen\<close> and \<open>cmp\<close>; the outcome of the
  file operations of \<open>saveLocked\<close> is an input of every writing operation.
\<close>

section \<open>Users and roles\<close>

definition ValidRoles :: "string \<Rightarrow> bool" where
  "ValidRoles r \<longleftrightarrow> r \<in> {''admin'', ''operator'', ''viewer''}"

definition DefaultAdminEmail :: string where
  "DefaultAdminEmail = ''demo@unyport.app''"

definition defaultAdminPassword :: string where
  "defaultAdminPassword = ''aUniC0rnForUnyPort!''"

record user =
  ID :: string
  Email :: string
  Password :: string
  Roles :: "string list"
  DisplayName :: string
  Avatar :: string
  PhotoURL :: string
  SSHKey :: string
  TwoFA :: bool
  CreatedAt :: int

definition normalizeEmail :: "string \<Rightarrow> string" where
  "normalizeEmail email = to_lower (trim_space email)"

definition looksLikeEmail :: "string \<Rightarrow> bool" where
  "looksLikeEmail email \<longleftrightarrow>
     count_list email CHR ''@'' = 1 \<and>
     (let parts = split_on CHR ''@'' email in parts ! 0 \<noteq> [] \<and> contains (parts ! 1) ''.'')"

definition UsesDefaultCredentials :: "(string \<Rightarrow> string \<Rightarrow> bool) \<Rightarrow> user \<Rightarrow> bool" where
  "UsesDefaultCredentials cmp u =
     (if normalizeEmail (Email u) \<noteq> DefaultAdminEmail then False
      else cmp (Password u) defaultAdminPassword)"

definition Role :: "user \<Rightarrow> string" where
  "Role u =
     (case Roles u of
        [] \<Rightarrow> ''viewer''
      | r # _ \<Rightarrow> let role = to_lower (trim_space r) in if ValidRoles role then role else ''viewer'')"

definition HasRole :: "user \<Rightarrow> string \<Rightarrow> bool" where
  "HasRole u role \<longleftrightarrow> role \<in> set (Roles u)"

definition IsAdmin :: "user \<Rightarrow> bool" where
  "IsAdmin u \<longleftrightarrow> HasRole u ''admin''"

definition IsAtLeastOperator :: "user \<Rightarrow> bool" where
  "IsAtLeastOperator u \<longleftrightarrow> HasRole u ''admin'' \<or> HasRole u ''operator''"

definition EffectiveDisplayName :: "user \<Rightarrow> string" where
  "EffectiveDisplayName u =
     (if DisplayName u \<noteq> [] then DisplayName u
      else takeWhile (\<lambda>c. c \<noteq> CHR ''@'') (Email u))"

definition EffectiveAvatar :: "user \<Rightarrow> string" where
  "EffectiveAvatar u =
     (if Avatar u \<noteq> [] then Avatar u
      else let name = trim_space (EffectiveDisplayName u)
           in if name = [] then ''?'' else to_upper (first_rune name))"

section \<open>The interface the session middleware relies on\<close>

text \<open>
  What a client of the user directory may rely on: looking a user up by email, removing one and
  assigning a role, with the effect of each change on every later lookup. The laws hold whether
  or not the change also reached the disk.
\<close>

locale user_directory =
  fixes find :: "'s \<Rightarrow> string \<Rightarrow> user option"
    and remove :: "string \<Rightarrow> 's \<Rightarrow> 's"
    and assign :: "string \<Rightarrow> string \<Rightarrow> 's \<Rightarrow> 's"
  assumes find_remove:
      "find (remove e s) k = (if normalizeEmail k = normalizeEmail e then None else find s k)"
    and find_assign:
      "ValidRoles r \<Longrightarrow>
       find (assign e r s) k =
         (if normalizeEmail k = normalizeEmail e then map_option (\<lambda>u. u\<lparr>Roles := [r]\<rparr>) (find s k) else find s k)"
    and find_spelling: "find s (normalizeEmail k) = find s k"

section \<open>The store\<close>

datatype store_error =
    UserNotFound | EmailRequired | UserExists | PasswordTooShort | HashError
  | EmailInvalid | EmailExists | AvatarTooLong | PhotoTooLarge | PhotoScheme
  | WrongPassword | InvalidRole | SaveFailed | FileUnreadable | BadJSON | NilPanic

text \<open>
  The users file: absent, unreadable, not JSON, the document \<open>null\<close>, or an object. A member
  of the object may be \<open>null\<close>, which decodes to a nil pointer.
\<close>

datatype users_file =
    Missing | Unreadable | Garbled | NullDoc | Entries "string \<Rightarrow> user option option"

record user_store =
  users :: "string \<Rightarrow> user option"
  disk :: users_file

text \<open>
  The outcome of the system calls in \<open>saveLocked\<close>. \<open>CloseLost f\<close> is an error of \<open>f.Close()\<close>,
  which the code ignores: the rename then publishes the content \<open>f\<close>.
\<close>

datatype save_io = SaveOk | MkdirErr | CreateErr | EncodeErr | RenameErr | CloseLost users_file

type_synonym 'a store_result = "user_store \<times> (store_error + 'a)"

text \<open>What a decoder reads of the file of a map; \<open>UsersJson\<close> shows that it is what the encoder wrote.\<close>

definition file_of :: "(string \<Rightarrow> user option) \<Rightarrow> users_file" where
  "file_of m = Entries (\<lambda>k. map_option Some (m k))"

fun saveLocked :: "save_io \<Rightarrow> user_store \<Rightarrow> unit store_result" where
  "saveLocked MkdirErr s = (s, Inl SaveFailed)"
| "saveLocked CreateErr s = (s, Inl SaveFailed)"
| "saveLocked EncodeErr s = (s, Inl SaveFailed)"
| "saveLocked RenameErr s = (s, Inl SaveFailed)"
| "saveLocked SaveOk s = (s\<lparr>disk := file_of (users s)\<rparr>, Inr ())"
| "saveLocked (CloseLost f) s = (s\<lparr>disk := f\<rparr>, Inr ())"

text \<open>\<open>seedAdmin\<close>; \<open>nil_map\<close> tells whether \<open>s.users\<close> is the nil map, where the assignment panics.\<close>

definition seedAdmin ::
  "(string \<Rightarrow> string option) \<Rightarrow> save_io \<Rightarrow> string \<Rightarrow> int \<Rightarrow> bool \<Rightarrow> user_store \<Rightarrow> unit store_result" where
  "seedAdmin gen io env now nil_map s =
     (let password = (if env = [] then defaultAdminPassword else env)
      in case gen password of
           None \<Rightarrow> (s, Inl HashError)
         | Some hash \<Rightarrow>
             if nil_map then (s, Inl NilPanic)
             else
               let admin = \<lparr>ID = DefaultAdminEmail, Email = DefaultAdminEmail, Password = hash,
                     Roles = [''admin''], DisplayName = ''UnyPort Admin'', Avatar = [], PhotoURL = [],
                     SSHKey = [], TwoFA = False, CreatedAt = now\<rparr>
               in saveLocked io (s\<lparr>users := (users s)(Email admin \<mapsto> admin)\<rparr>))"

text \<open>The body of the loop of \<open>load\<close> for one entry of the decoded map.\<close>

definition load_user :: "string \<Rightarrow> user \<Rightarrow> user" where
  "load_user email u =
     (let n0 = normalizeEmail (Email u);
          n = (if n0 = [] then normalizeEmail email else n0);
          u1 = u\<lparr>Email := n\<rparr>;
          u2 = (if ID u1 = [] then u1\<lparr>ID := n\<rparr> else u1)
      in if Roles u2 = [] \<or> \<not> ValidRoles (Role u2) then u2\<lparr>Roles := [''viewer'']\<rparr> else u2)"

definition load_step :: "string \<Rightarrow> (string \<Rightarrow> user option) \<Rightarrow> string \<Rightarrow> user option" where
  "load_step email m =
     (case m email of
        None \<Rightarrow> m
      | Some u \<Rightarrow>
          let u' = load_user email u
          in if Email u' \<noteq> email then (m(email := None))(Email u' \<mapsto> u') else m(email \<mapsto> u'))"

text \<open>
  \<open>load\<close>. Go ranges over the map in an order of its own: \<open>order\<close> lists the keys of the decoded
  object in that order.
\<close>

definition load ::
  "(string \<Rightarrow> string option) \<Rightarrow> save_io \<Rightarrow> string \<Rightarrow> int \<Rightarrow> string list \<Rightarrow> user_store \<Rightarrow> unit store_result" where
  "load gen io env now order s =
     (case disk s of
        Missing \<Rightarrow> seedAdmin gen io env now False s
      | Unreadable \<Rightarrow> (s, Inl FileUnreadable)
      | Garbled \<Rightarrow> (s, Inl BadJSON)
      | NullDoc \<Rightarrow> seedAdmin gen io env now True s
      | Entries m \<Rightarrow>
          if order = [] then seedAdmin gen io env now False s
          else if \<exists>k \<in> set order. m k = Some None then (s, Inl NilPanic)
          else (s\<lparr>users := fold load_step order (\<lambda>k. Option.bind (m k) id)\<rparr>, Inr ()))"

definition Find :: "user_store \<Rightarrow> string \<Rightarrow> store_error + user" where
  "Find s email =
     (case users s (normalizeEmail email) of None \<Rightarrow> Inl UserNotFound | Some u \<Rightarrow> Inr u)"

text \<open>\<open>List\<close>, in the order of the range over the map.\<close>

definition ListUsers :: "string list \<Rightarrow> user_store \<Rightarrow> user list" where
  "ListUsers order s = List.map_filter (users s) order"

definition Add :: "(string \<Rightarrow> string option) \<Rightarrow> save_io \<Rightarrow> user \<Rightarrow> user_store \<Rightarrow> unit store_result" where
  "Add gen io u0 s =
     (let u = u0\<lparr>Email := normalizeEmail (Email u0)\<rparr>
      in if Email u = [] then (s, Inl EmailRequired)
         else
           let u = (if ID u = [] then u\<lparr>ID := Email u\<rparr> else u)
           in if users s (Email u) \<noteq> None then (s, Inl UserExists)
              else if Password u \<noteq> [] \<and> length (Password u) < 8 then (s, Inl PasswordTooShort)
              else case (if Password u \<noteq> [] then gen (Password u) else Some []) of
                     None \<Rightarrow> (s, Inl HashError)
                   | Some hash \<Rightarrow>
                       let u = (if Password u \<noteq> [] then u\<lparr>Password := hash\<rparr> else u);
                           u = (if \<not> ValidRoles (Role u) then u\<lparr>Roles := [''viewer'']\<rparr> else u)
                       in saveLocked io (s\<lparr>users := (users s)(Email u \<mapsto> u)\<rparr>))"

definition Delete :: "save_io \<Rightarrow> string \<Rightarrow> user_store \<Rightarrow> unit store_result" where
  "Delete io email s =
     (let email = normalizeEmail email
      in if users s email = None then (s, Inl UserNotFound)
         else saveLocked io (s\<lparr>users := (users s)(email := None)\<rparr>))"

definition maxPhotoBytes :: nat where
  "maxPhotoBytes = 2 * 1024 * 1024"

text \<open>
  \<open>UpdateProfile\<close>. The user is a pointer into the map, and \<open>DisplayName\<close> is assigned before
  the avatar and the photo are checked: the assignment stays when a check then fails.
\<close>

definition UpdateProfile ::
  "save_io \<Rightarrow> string \<Rightarrow> string \<Rightarrow> string \<Rightarrow> string \<Rightarrow> string \<Rightarrow> string \<Rightarrow> user_store \<Rightarrow> (user \<times> bool) store_result" where
  "UpdateProfile io email0 newEmail0 displayName avatar photoURL sshKey s =
     (let email = normalizeEmail email0;
          newEmail = (if normalizeEmail newEmail0 = [] then email else normalizeEmail newEmail0);
          emailChanged = (newEmail \<noteq> email)
      in if \<not> looksLikeEmail newEmail then (s, Inl EmailInvalid)
         else case users s email of
           None \<Rightarrow> (s, Inl UserNotFound)
         | Some u0 \<Rightarrow>
             if emailChanged \<and> users s newEmail \<noteq> None then (s, Inl EmailExists)
             else
               let u = u0\<lparr>DisplayName := displayName\<rparr>;
                   s1 = s\<lparr>users := (users s)(email \<mapsto> u)\<rparr>
               in if 2 < rune_count avatar then (s1, Inl AvatarTooLong)
                  else if photoURL \<noteq> [] \<and> maxPhotoBytes < length photoURL then (s1, Inl PhotoTooLarge)
                  else if photoURL \<noteq> [] \<and> \<not> has_prefix photoURL ''https://'' \<and>
                          \<not> has_prefix photoURL ''data:image/'' then (s1, Inl PhotoScheme)
                  else
                    let u = (if emailChanged then u\<lparr>Email := newEmail, ID := newEmail\<rparr> else u)
                            \<lparr>Avatar := avatar, PhotoURL := photoURL, SSHKey := sshKey\<rparr>;
                        m = (if emailChanged then (users s1)(email := None) else users s1);
                        s2 = s1\<lparr>users := m(newEmail \<mapsto> u)\<rparr>
                    in case saveLocked io s2 of
                         (s3, Inl e) \<Rightarrow> (s3, Inl e)
                       | (s3, Inr _) \<Rightarrow> (s3, Inr (u, emailChanged)))"

definition UpdatePassword ::
  "(string \<Rightarrow> string option) \<Rightarrow> (string \<Rightarrow> string \<Rightarrow> bool) \<Rightarrow> save_io \<Rightarrow> string \<Rightarrow> string \<Rightarrow> string \<Rightarrow>
     user_store \<Rightarrow> unit store_result" where
  "UpdatePassword gen cmp io email0 oldPwd newPwd s =
     (if length newPwd < 8 then (s, Inl PasswordTooShort)
      else
        let email = normalizeEmail email0
        in case users s email of
             None \<Rightarrow> (s, Inl UserNotFound)
           | Some u \<Rightarrow>
               if \<not> cmp (Password u) oldPwd then (s, Inl WrongPassword)
               else case gen newPwd of
                      None \<Rightarrow> (s, Inl HashError)
                    | Some hash \<Rightarrow>
                        saveLocked io (s\<lparr>users := (users s)(email \<mapsto> u\<lparr>Password := hash\<rparr>)\<rparr>))"

definition SetRole :: "save_io \<Rightarrow> string \<Rightarrow> string \<Rightarrow> user_store \<Rightarrow> unit store_result" where
  "SetRole io email0 role0 s =
     (let role = to_lower (trim_space role0)
      in if \<not> ValidRoles role then (s, Inl InvalidRole)
         else
           let email = normalizeEmail email0
           in case users s email of
                None \<Rightarrow> (s, Inl UserNotFound)
              | Some u \<Rightarrow> saveLocked io (s\<lparr>users := (users s)(email \<mapsto> u\<lparr>Roles := [role]\<rparr>)\<rparr>))"

section \<open>Roles, emails\<close>

named_theorems store_defs \<open>the operations of the user store\<close>

lemmas [store_defs] = Add_def Delete_def UpdateProfile_def UpdatePassword_def SetRole_def Let_def

lemma normalizeEmail_idem [simp]: "normalizeEmail (normalizeEmail e) = normalizeEmail e"
  by (simp add: normalizeEmail_def trim_space_lower)

lemma normalizeEmail_Nil [simp]: "normalizeEmail [] = []"
  by (simp add: normalizeEmail_def)

lemma trim_lower_eq_normalizeEmail: "trim_space (to_lower e) = normalizeEmail e"
  by (simp add: normalizeEmail_def trim_space_lower)

lemma ValidRoles_Role [simp]: "ValidRoles (Role u)"
  by (auto simp: Role_def ValidRoles_def Let_def split: list.splits)

lemma ValidRoles_fixed: "ValidRoles r \<Longrightarrow> to_lower (trim_space r) = r"
  by (auto simp: ValidRoles_def) code_simp+

lemma Role_single: "ValidRoles r \<Longrightarrow> Role (u\<lparr>Roles := [r]\<rparr>) = r"
  by (simp add: Role_def ValidRoles_fixed)

lemma Role_update [simp]:
  "Role (u\<lparr>Email := e\<rparr>) = Role u" "Role (u\<lparr>ID := e\<rparr>) = Role u" "Role (u\<lparr>Password := e\<rparr>) = Role u"
  "Role (u\<lparr>DisplayName := e\<rparr>) = Role u" "Role (u\<lparr>Avatar := e\<rparr>) = Role u"
  "Role (u\<lparr>PhotoURL := e\<rparr>) = Role u" "Role (u\<lparr>SSHKey := e\<rparr>) = Role u"
  by (simp_all add: Role_def)

section \<open>Saving\<close>

lemma users_saveLocked [simp]: "users (fst (saveLocked io s)) = users s"
  by (cases io) auto

lemma saveLocked_ok: "saveLocked io s = (s', Inr x) \<Longrightarrow> \<exists>f. s' = s\<lparr>disk := f\<rparr>"
  by (cases io) auto

section \<open>What each operation does to the map\<close>

lemma users_Delete:
  "users (fst (Delete io e s)) = (users s)(normalizeEmail e := None)"
  by (auto simp: Delete_def Let_def)

lemma users_SetRole:
  "users (fst (SetRole io e r s)) =
     (if ValidRoles (to_lower (trim_space r)) then
        (users s)(normalizeEmail e :=
           map_option (\<lambda>u. u\<lparr>Roles := [to_lower (trim_space r)]\<rparr>) (users s (normalizeEmail e)))
      else users s)"
  by (auto simp: SetRole_def Let_def split: option.splits)

lemma users_UpdatePassword:
  "users (fst (UpdatePassword gen cmp io e old new s)) =
     (case users s (normalizeEmail e) of
        None \<Rightarrow> users s
      | Some u \<Rightarrow>
          if 8 \<le> length new \<and> cmp (Password u) old then
            (case gen new of None \<Rightarrow> users s
             | Some h \<Rightarrow> (users s)(normalizeEmail e \<mapsto> u\<lparr>Password := h\<rparr>))
          else users s)"
  by (auto simp: UpdatePassword_def Let_def split: option.splits)

text \<open>The record \<open>Add\<close> stores for an argument \<open>u\<close>, given the hash of its password.\<close>

definition added_user :: "user \<Rightarrow> string \<Rightarrow> user" where
  "added_user u h =
     u\<lparr>Email := normalizeEmail (Email u), ID := (if ID u = [] then normalizeEmail (Email u) else ID u),
       Password := h\<rparr>"

lemma users_Add:
  "users (fst (Add gen io u s)) =
     (let e = normalizeEmail (Email u)
      in if e = [] \<or> users s e \<noteq> None \<or> (Password u \<noteq> [] \<and> length (Password u) < 8) then users s
         else case (if Password u \<noteq> [] then gen (Password u) else Some []) of
                None \<Rightarrow> users s
              | Some h \<Rightarrow> (users s)(e \<mapsto> added_user u h))"
  by (auto simp: Add_def Let_def added_user_def split: option.splits)

text \<open>The record a successful \<open>UpdateProfile\<close> stores, and the checks that precede it.\<close>

definition new_email :: "string \<Rightarrow> string \<Rightarrow> string" where
  "new_email email newEmail =
     (if normalizeEmail newEmail = [] then normalizeEmail email else normalizeEmail newEmail)"

definition profile_user :: "string \<Rightarrow> string \<Rightarrow> string \<Rightarrow> string \<Rightarrow> string \<Rightarrow> string \<Rightarrow> user \<Rightarrow> user" where
  "profile_user email newEmail name avatar photo ssh u =
     (let u1 = u\<lparr>DisplayName := name\<rparr>
      in (if new_email email newEmail \<noteq> normalizeEmail email
          then u1\<lparr>Email := new_email email newEmail, ID := new_email email newEmail\<rparr> else u1)
         \<lparr>Avatar := avatar, PhotoURL := photo, SSHKey := ssh\<rparr>)"

definition profile_bad :: "string \<Rightarrow> string \<Rightarrow> bool" where
  "profile_bad avatar photo \<longleftrightarrow>
     2 < rune_count avatar \<or>
     (photo \<noteq> [] \<and> (maxPhotoBytes < length photo \<or>
        (\<not> has_prefix photo ''https://'' \<and> \<not> has_prefix photo ''data:image/'')))"

lemma UpdateProfile_cases:
  "UpdateProfile io email newEmail name avatar photo ssh s =
     (let e = normalizeEmail email; n = new_email email newEmail
      in if \<not> looksLikeEmail n then (s, Inl EmailInvalid)
         else case users s e of
           None \<Rightarrow> (s, Inl UserNotFound)
         | Some u \<Rightarrow>
             if n \<noteq> e \<and> users s n \<noteq> None then (s, Inl EmailExists)
             else if profile_bad avatar photo then
               (s\<lparr>users := (users s)(e \<mapsto> u\<lparr>DisplayName := name\<rparr>)\<rparr>,
                Inl (if 2 < rune_count avatar then AvatarTooLong
                     else if maxPhotoBytes < length photo then PhotoTooLarge else PhotoScheme))
             else
               let u' = profile_user email newEmail name avatar photo ssh u;
                   r = saveLocked io (s\<lparr>users := ((users s)(e := None))(n \<mapsto> u')\<rparr>)
               in (fst r, case snd r of Inl x \<Rightarrow> Inl x | Inr _ \<Rightarrow> Inr (u', n \<noteq> e)))"
proof (cases "users s (normalizeEmail email)")
  case None
  then show ?thesis by (simp add: UpdateProfile_def new_email_def Let_def)
next
  case (Some u)
  have *: "(case r of (s3, Inl e) \<Rightarrow> (s3, Inl e) | (s3, Inr _) \<Rightarrow> (s3, Inr v)) =
      (fst r, case snd r of Inl x \<Rightarrow> Inl x | Inr _ \<Rightarrow> Inr v)"
    for r :: "user_store \<times> (store_error + unit)" and v :: "user \<times> bool"
    by (auto split: prod.splits sum.splits)
  show ?thesis
    unfolding UpdateProfile_def Let_def new_email_def [symmetric] *
    using Some by (simp add: profile_user_def profile_bad_def Let_def cong: sum.case_cong)
qed

lemma UpdateProfile_ok:
  assumes "UpdateProfile io e n name av ph ssh s = (s', Inr (u', ch))"
  obtains u where "users s (normalizeEmail e) = Some u" "looksLikeEmail (new_email e n)"
    "ch \<longleftrightarrow> new_email e n \<noteq> normalizeEmail e" "ch \<Longrightarrow> users s (new_email e n) = None"
    "\<not> profile_bad av ph" "u' = profile_user e n name av ph ssh u"
    "users s' = ((users s)(normalizeEmail e := None))(new_email e n \<mapsto> u')"
proof (cases "users s (normalizeEmail e)")
  case None
  with assms show ?thesis by (simp add: UpdateProfile_cases Let_def split: if_splits)
next
  case (Some u)
  let ?u = "profile_user e n name av ph ssh u"
  let ?S = "s\<lparr>users := ((users s)(normalizeEmail e := None))(new_email e n \<mapsto> ?u)\<rparr>"
  have g: "looksLikeEmail (new_email e n)" "\<not> profile_bad av ph"
      "\<not> (new_email e n \<noteq> normalizeEmail e \<and> users s (new_email e n) \<noteq> None)"
      "fst (saveLocked io ?S) = s'"
      "(case snd (saveLocked io ?S) of Inl x \<Rightarrow> Inl x | Inr _ \<Rightarrow> Inr (?u, new_email e n \<noteq> normalizeEmail e)) = Inr (u', ch)"
    using assms Some unfolding UpdateProfile_cases Let_def by (simp_all split: if_splits)
  have "users s' = users ?S" using g(4) users_saveLocked [of io ?S] by simp
  moreover have "?u = u'" "ch = (new_email e n \<noteq> normalizeEmail e)"
    using g(5) by (auto split: sum.splits)
  ultimately show ?thesis using that [of u] Some g(1-3) by auto
qed

lemma saveLocked_err: "saveLocked io s = (s', Inl x) \<Longrightarrow> s' = s \<and> x = SaveFailed"
  by (cases io) auto

lemma UpdateProfile_rejected:
  assumes "UpdateProfile io e n name av ph ssh s = (s', Inl x)"
    and "x \<in> {AvatarTooLong, PhotoTooLarge, PhotoScheme}"
  obtains u where "users s (normalizeEmail e) = Some u" "profile_bad av ph"
    "s' = s\<lparr>users := (users s)(normalizeEmail e \<mapsto> u\<lparr>DisplayName := name\<rparr>)\<rparr>"
proof (cases "users s (normalizeEmail e)")
  case None
  with assms show ?thesis by (auto simp: UpdateProfile_cases Let_def split: if_splits)
next
  case (Some u)
  let ?S = "s\<lparr>users := ((users s)(normalizeEmail e := None))(new_email e n \<mapsto> profile_user e n name av ph ssh u)\<rparr>"
  have "snd (saveLocked io ?S) = Inl y \<Longrightarrow> y = SaveFailed" for y
    by (metis prod.collapse saveLocked_err)
  then have "profile_bad av ph"
    using assms Some unfolding UpdateProfile_cases Let_def by (auto split: if_splits sum.splits)
  then show ?thesis
    using that [of u] assms Some unfolding UpdateProfile_cases Let_def by (auto split: if_splits)
qed

section \<open>The store invariant\<close>

text \<open>
  Every user is filed under its own email, and that key is normalised: a lookup by any
  spelling of an email finds the user iff it exists.
\<close>

definition map_inv :: "(string \<Rightarrow> user option) \<Rightarrow> bool" where
  "map_inv m \<longleftrightarrow> (\<forall>k u. m k = Some u \<longrightarrow> Email u = k \<and> normalizeEmail k = k)"

definition store_inv :: "user_store \<Rightarrow> bool" where
  "store_inv s \<longleftrightarrow> map_inv (users s)"

lemma map_inv_empty [simp]: "map_inv Map.empty"
  by (simp add: map_inv_def)

lemma map_inv_upd [intro]:
  "map_inv m \<Longrightarrow> Email u = k \<Longrightarrow> normalizeEmail k = k \<Longrightarrow> map_inv (m(k \<mapsto> u))"
  by (auto simp: map_inv_def)

lemma map_inv_del [intro]: "map_inv m \<Longrightarrow> map_inv (m(k := None))"
  by (auto simp: map_inv_def)

lemma map_inv_Some: "map_inv m \<Longrightarrow> m k = Some u \<Longrightarrow> Email u = k \<and> normalizeEmail k = k"
  by (auto simp: map_inv_def)

lemma normalize_default [simp]: "normalizeEmail DefaultAdminEmail = DefaultAdminEmail"
  by code_simp

lemma normalize_new_email [simp]: "normalizeEmail (new_email e n) = new_email e n"
  by (simp add: new_email_def)

lemma store_inv_saveLocked: "store_inv (fst (saveLocked io s)) \<longleftrightarrow> store_inv s"
  by (simp add: store_inv_def)

lemma store_inv_seedAdmin: "store_inv s \<Longrightarrow> store_inv (fst (seedAdmin gen io env now nil s))"
  by (auto simp: seedAdmin_def Let_def store_inv_def split: option.splits)

lemma store_inv_Delete: "store_inv s \<Longrightarrow> store_inv (fst (Delete io e s))"
  by (auto simp: store_inv_def users_Delete)

lemma store_inv_SetRole: "store_inv s \<Longrightarrow> store_inv (fst (SetRole io e r s))"
  by (auto simp: store_inv_def users_SetRole map_inv_def)

lemma store_inv_UpdatePassword: "store_inv s \<Longrightarrow> store_inv (fst (UpdatePassword gen cmp io e old new s))"
  by (auto simp: store_inv_def users_UpdatePassword map_inv_def split: option.splits)

lemma store_inv_Add: "store_inv s \<Longrightarrow> store_inv (fst (Add gen io u s))"
  by (auto simp: store_inv_def users_Add map_inv_def added_user_def Let_def split: option.splits)

lemma Email_profile_user:
  "Email u = normalizeEmail email \<Longrightarrow>
     Email (profile_user email newEmail name avatar photo ssh u) = new_email email newEmail"
  by (simp add: profile_user_def Let_def)

lemma store_inv_UpdateProfile:
  assumes "store_inv s"
  shows "store_inv (fst (UpdateProfile io email newEmail name avatar photo ssh s))"
proof (cases "users s (normalizeEmail email)")
  case None
  with assms show ?thesis by (simp add: UpdateProfile_cases Let_def)
next
  case (Some u)
  then have "Email u = normalizeEmail email" using assms by (auto simp: store_inv_def map_inv_def)
  with assms Some show ?thesis
    by (auto simp: UpdateProfile_cases Let_def store_inv_def Email_profile_user)
qed

text \<open>Loading establishes it, whatever the order of the range.\<close>

lemma load_user_Email: "Email (load_user email u) =
   (if normalizeEmail (Email u) = [] then normalizeEmail email else normalizeEmail (Email u))"
  by (simp add: load_user_def Let_def)

definition entry_ok :: "(string \<Rightarrow> user option) \<Rightarrow> string \<Rightarrow> bool" where
  "entry_ok m k \<longleftrightarrow> (\<forall>u. m k = Some u \<longrightarrow> Email u = k \<and> normalizeEmail k = k)"

lemma entry_ok_upd:
  "entry_ok m k \<Longrightarrow> normalizeEmail (Email u) = Email u \<Longrightarrow> entry_ok (m(Email u \<mapsto> u)) k"
  by (simp add: entry_ok_def)

lemma entry_ok_del: "entry_ok m k \<Longrightarrow> entry_ok (m(x := None)) k"
  by (simp add: entry_ok_def)

lemma load_user_normalized [simp]: "normalizeEmail (Email (load_user email u)) = Email (load_user email u)"
  by (simp add: load_user_Email)

lemma load_step_eq:
  "load_step email m =
     (case m email of None \<Rightarrow> m
      | Some u \<Rightarrow> (m(email := None))(Email (load_user email u) \<mapsto> load_user email u))"
  by (simp add: load_step_def Let_def split: option.splits)

lemma load_step_entry_ok: "entry_ok (load_step email m) email"
proof (cases "m email")
  case (Some u)
  have "entry_ok (m(email := None)) email" by (simp add: entry_ok_def)
  then show ?thesis using Some by (simp add: load_step_eq entry_ok_upd)
qed (simp add: load_step_eq entry_ok_def)

lemma load_step_keeps: "entry_ok m k \<Longrightarrow> entry_ok (load_step email m) k"
  by (cases "m email") (simp_all add: load_step_eq entry_ok_upd entry_ok_del)

lemma fold_load_keeps: "entry_ok m k \<Longrightarrow> entry_ok (fold load_step order m) k"
  by (induction order arbitrary: m) (auto simp: load_step_keeps)

lemma fold_load_visited: "k \<in> set order \<Longrightarrow> entry_ok (fold load_step order m) k"
proof (induction order arbitrary: m)
  case (Cons x xs)
  then show ?case by (cases "k = x") (auto simp: fold_load_keeps load_step_entry_ok)
qed simp

lemma fold_load_inv:
  assumes "dom m \<subseteq> set order"
  shows "map_inv (fold load_step order m)"
proof -
  have "entry_ok (fold load_step order m) k" for k
  proof (cases "k \<in> set order")
    case True
    then show ?thesis by (rule fold_load_visited)
  next
    case False
    with assms have "entry_ok m k" by (auto simp: entry_ok_def)
    then show ?thesis by (rule fold_load_keeps)
  qed
  then show ?thesis by (auto simp: map_inv_def entry_ok_def)
qed

lemma store_inv_load:
  assumes "load gen io env now order s = (s', Inr ())"
    and "store_inv s"
    and "\<And>m. disk s = Entries m \<Longrightarrow> set order = dom m"
  shows "store_inv s'"
proof (cases "(\<exists>m. disk s = Entries m) \<and> order \<noteq> []")
  case True
  then obtain m where m: "disk s = Entries m" by blast
  have s': "s' = s\<lparr>users := fold load_step order (\<lambda>k. Option.bind (m k) id)\<rparr>"
    using assms(1) m True by (auto simp: load_def split: if_splits)
  have "dom (\<lambda>k. Option.bind (m k) id) \<subseteq> set order"
    using assms(3) [OF m] by (auto simp: dom_def Option.bind_eq_Some_conv)
  then show ?thesis using fold_load_inv s' by (simp add: store_inv_def)
next
  case False
  then have "\<exists>b. s' = fst (seedAdmin gen io env now b s)"
    using assms(1) by (auto simp: load_def split: users_file.splits if_splits) (metis fst_conv)+
  with assms(2) show ?thesis by (auto intro: store_inv_seedAdmin)
qed

section \<open>Runs of the store\<close>

definition NewUserStore ::
  "(string \<Rightarrow> string option) \<Rightarrow> save_io \<Rightarrow> string \<Rightarrow> int \<Rightarrow> string list \<Rightarrow> users_file \<Rightarrow> unit store_result" where
  "NewUserStore gen io env now order f = load gen io env now order \<lparr>users = Map.empty, disk = f\<rparr>"

datatype store_op =
    AddOp user
  | DeleteOp string
  | SetRoleOp string string
  | ProfileOp string string string string string string
  | PasswordOp string string string

fun run_op :: "(string \<Rightarrow> string option) \<Rightarrow> (string \<Rightarrow> string \<Rightarrow> bool) \<Rightarrow> save_io \<times> store_op \<Rightarrow>
    user_store \<Rightarrow> user_store" where
  "run_op gen cmp (io, AddOp u) s = fst (Add gen io u s)"
| "run_op gen cmp (io, DeleteOp e) s = fst (Delete io e s)"
| "run_op gen cmp (io, SetRoleOp e r) s = fst (SetRole io e r s)"
| "run_op gen cmp (io, ProfileOp e n name av ph ssh) s = fst (UpdateProfile io e n name av ph ssh s)"
| "run_op gen cmp (io, PasswordOp e old new) s = fst (UpdatePassword gen cmp io e old new s)"

lemma store_inv_run_op: "store_inv s \<Longrightarrow> store_inv (run_op gen cmp x s)"
  by (cases "(gen, cmp, x, s)" rule: run_op.cases)
     (simp_all add: store_inv_Add store_inv_Delete store_inv_SetRole store_inv_UpdateProfile
        store_inv_UpdatePassword)

lemma store_inv_run: "store_inv s \<Longrightarrow> store_inv (fold (run_op gen cmp) ops s)"
  by (induction ops arbitrary: s) (simp_all add: store_inv_run_op)

lemma store_inv_new:
  "NewUserStore gen io env now order f = (s, Inr ()) \<Longrightarrow>
   (\<And>m. f = Entries m \<Longrightarrow> set order = dom m) \<Longrightarrow> store_inv s"
  unfolding NewUserStore_def by (rule store_inv_load) (auto simp: store_inv_def)

lemma Find_iff:
  "store_inv s \<Longrightarrow> Find s e = Inr u \<longleftrightarrow> u \<in> ran (users s) \<and> Email u = normalizeEmail e"
  by (auto simp: Find_def store_inv_def map_inv_def ran_def split: option.splits)

text \<open>Instances of the parameters for the witnesses: a reversible \<open>hash\<close> with its comparison.\<close>

definition toy_gen :: "string \<Rightarrow> string option" where
  "toy_gen p = (if 72 < length p then None else Some (''$2a$'' @ p))"

definition toy_cmp :: "string \<Rightarrow> string \<Rightarrow> bool" where
  "toy_cmp h p \<longleftrightarrow> h = ''$2a$'' @ p"

text \<open>The documented contract of bcrypt that the code relies on: a hash accepts its password.\<close>

definition bcrypt_accepts :: "(string \<Rightarrow> string option) \<Rightarrow> (string \<Rightarrow> string \<Rightarrow> bool) \<Rightarrow> bool" where
  "bcrypt_accepts gen cmp \<longleftrightarrow> (\<forall>p h. gen p = Some h \<longrightarrow> cmp h p)"

lemma toy_accepts: "bcrypt_accepts toy_gen toy_cmp"
  by (auto simp: bcrypt_accepts_def toy_gen_def toy_cmp_def split: if_splits)

definition mk_user :: "string \<Rightarrow> string \<Rightarrow> string list \<Rightarrow> user" where
  "mk_user email pwd roles =
     \<lparr>ID = email, Email = email, Password = pwd, Roles = roles, DisplayName = [], Avatar = [],
      PhotoURL = [], SSHKey = [], TwoFA = False, CreatedAt = 0\<rparr>"

definition ann :: user where
  "ann = mk_user ''ann@x.io'' ''$2a$annpassword'' [''admin'']"

definition bob :: user where
  "bob = mk_user ''bob@x.io'' ''$2a$bobpassword'' [''viewer'']"

definition demo_store :: user_store where
  "demo_store =
     \<lparr>users = [''ann@x.io'' \<mapsto> ann, ''bob@x.io'' \<mapsto> bob],
      disk = file_of [''ann@x.io'' \<mapsto> ann, ''bob@x.io'' \<mapsto> bob]\<rparr>"

lemma normalize_demo [simp]:
  "normalizeEmail ''ann@x.io'' = ''ann@x.io''" "normalizeEmail ''bob@x.io'' = ''bob@x.io''"
  "normalizeEmail '' Ann@X.io'' = ''ann@x.io''" "normalizeEmail ''eve@x.io'' = ''eve@x.io''"
  by code_simp+

lemma demo_simps [simp]:
  "Email ann = ''ann@x.io''" "Email bob = ''bob@x.io''" "Roles ann = [''admin'']" "Roles bob = [''viewer'']"
  "Password ann = ''$2a$annpassword''" "Password bob = ''$2a$bobpassword''"
  "ID ann = ''ann@x.io''" "ID bob = ''bob@x.io''"
  by (simp_all add: ann_def bob_def mk_user_def)

lemma demo_inv: "store_inv demo_store"
  by (auto simp: store_inv_def map_inv_def demo_store_def split: if_splits)

section \<open>The store provides the interface\<close>

definition lookup :: "user_store \<Rightarrow> string \<Rightarrow> user option" where
  "lookup s e = (case Find s e of Inl _ \<Rightarrow> None | Inr u \<Rightarrow> Some u)"

lemma lookup_eq: "lookup s e = users s (normalizeEmail e)"
  by (simp add: lookup_def Find_def split: option.splits)

lemma Find_lookup: "Find s e = (case lookup s e of None \<Rightarrow> Inl UserNotFound | Some u \<Rightarrow> Inr u)"
  by (simp add: lookup_eq Find_def)

interpretation store: user_directory lookup "\<lambda>e s. fst (Delete io e s)" "\<lambda>e r s. fst (SetRole io e r s)"
  for io
  by unfold_locales (auto simp: lookup_eq users_Delete users_SetRole ValidRoles_fixed)

section \<open>Properties\<close>

text \<open>
  From a start on any users file, whatever operations run and whatever the file system
  answers, an email in any spelling finds a user iff a stored user has that normalised email:
  users are unique by email and no stored user is unreachable.
\<close>

theorem find_complete:
  assumes "NewUserStore gen io env now order f = (s0, Inr ())"
    and "\<And>m. f = Entries m \<Longrightarrow> set order = dom m"
  shows "Find (fold (run_op gen cmp) ops s0) e = Inr u \<longleftrightarrow>
    u \<in> ran (users (fold (run_op gen cmp) ops s0)) \<and> Email u = normalizeEmail e"
  by (rule Find_iff, rule store_inv_run, rule store_inv_new [OF assms])

theorem find_complete_witness:
  "\<exists>s0. NewUserStore toy_gen SaveOk [] 0 [] Missing = (s0, Inr ()) \<and>
     (\<forall>u. Find (fold (run_op toy_gen toy_cmp) [(RenameErr, DeleteOp ''bob@x.io'')] s0) '' Ann@X.io'' = Inr u \<longleftrightarrow>
        u \<in> ran (users (fold (run_op toy_gen toy_cmp) [(RenameErr, DeleteOp ''bob@x.io'')] s0)) \<and>
        Email u = ''ann@x.io'')"
proof -
  obtain s0 where s0: "NewUserStore toy_gen SaveOk [] 0 [] Missing = (s0, Inr ())"
    by (auto simp: NewUserStore_def load_def seedAdmin_def toy_gen_def defaultAdminPassword_def Let_def)
  have "\<forall>u. Find (fold (run_op toy_gen toy_cmp) [(RenameErr, DeleteOp ''bob@x.io'')] s0) '' Ann@X.io'' = Inr u \<longleftrightarrow>
        u \<in> ran (users (fold (run_op toy_gen toy_cmp) [(RenameErr, DeleteOp ''bob@x.io'')] s0)) \<and>
        Email u = normalizeEmail '' Ann@X.io''"
    using find_complete [OF s0] by blast
  with s0 show ?thesis by (intro exI [of _ s0]) simp
qed

text \<open>
  A successful profile update with a new email is a rename: the user is found under the new
  address and no longer under the old one, its password hash, roles and creation date are the
  ones it had, its identifier follows the email, and every other user is untouched.
\<close>

theorem profile_rename:
  assumes "UpdateProfile io e n name av ph ssh s = (s', Inr (u', True))"
  shows "\<exists>u. Find s e = Inr u \<and> Find s' n = Inr u' \<and> Find s' e = Inl UserNotFound \<and>
     Find s n = Inl UserNotFound \<and> Email u' = normalizeEmail n \<and> ID u' = normalizeEmail n \<and>
     Password u' = Password u \<and> Roles u' = Roles u \<and> CreatedAt u' = CreatedAt u \<and>
     (\<forall>k. normalizeEmail k \<noteq> normalizeEmail e \<and> normalizeEmail k \<noteq> normalizeEmail n \<longrightarrow> Find s' k = Find s k)"
proof -
  obtain u where u: "users s (normalizeEmail e) = Some u" "new_email e n \<noteq> normalizeEmail e"
    "users s (new_email e n) = None" "u' = profile_user e n name av ph ssh u"
    "users s' = ((users s)(normalizeEmail e := None))(new_email e n \<mapsto> u')"
    using UpdateProfile_ok [OF assms] by metis
  have "new_email e n = normalizeEmail n" using u(2) by (auto simp: new_email_def split: if_splits)
  with u show ?thesis by (auto simp: Find_def profile_user_def Let_def)
qed

theorem profile_rename_witness:
  "\<exists>s' u'. UpdateProfile SaveOk ''bob@x.io'' ''eve@x.io'' ''Eve'' [] [] [] demo_store = (s', Inr (u', True)) \<and>
     Find s' ''eve@x.io'' = Inr u' \<and> Find s' ''bob@x.io'' = Inl UserNotFound"
proof -
  have l: "looksLikeEmail ''eve@x.io''" by code_simp
  have c: "rune_count [] = 0" by (simp add: rune_count.simps)
  obtain s' u' where r: "UpdateProfile SaveOk ''bob@x.io'' ''eve@x.io'' ''Eve'' [] [] [] demo_store = (s', Inr (u', True))"
    by (simp add: UpdateProfile_cases Let_def new_email_def l c demo_store_def profile_bad_def)
  from profile_rename [OF r] r show ?thesis by (auto simp: demo_store_def)
qed

text \<open>
  An update that is refused because of the avatar or the photo is not without effect: the
  display name sent with it stays in the store, and the file does not have it.
\<close>

theorem rejected_profile_changes_name:
  assumes "UpdateProfile io e n name av ph ssh s = (s', Inl x)"
    and "x \<in> {AvatarTooLong, PhotoTooLarge, PhotoScheme}"
  shows "\<exists>u. Find s e = Inr u \<and> users s' = (users s)(normalizeEmail e \<mapsto> u\<lparr>DisplayName := name\<rparr>) \<and> disk s' = disk s"
proof -
  show ?thesis
    by (rule UpdateProfile_rejected [OF assms]) (auto simp: Find_def)
qed

theorem rejected_profile_changes_name_witness:
  "\<exists>s' u. UpdateProfile SaveOk ''bob@x.io'' [] ''Eve'' ''abc'' [] [] demo_store = (s', Inl AvatarTooLong) \<and>
     users s' ''bob@x.io'' = Some (u\<lparr>DisplayName := ''Eve''\<rparr>) \<and> disk s' = disk demo_store"
proof -
  have l: "looksLikeEmail ''bob@x.io''" by code_simp
  have c: "2 < rune_count ''abc''" by code_simp
  obtain s' where r: "UpdateProfile SaveOk ''bob@x.io'' [] ''Eve'' ''abc'' [] [] demo_store = (s', Inl AvatarTooLong)"
    using c by (simp add: UpdateProfile_cases Let_def new_email_def l demo_store_def profile_bad_def)
  from rejected_profile_changes_name [OF r] r show ?thesis by auto
qed

definition hashed :: "(string \<Rightarrow> string option) \<Rightarrow> user_store \<Rightarrow> bool" where
  "hashed gen s \<longleftrightarrow>
     (\<forall>u \<in> ran (users s). Password u = [] \<or> (\<exists>p. 8 \<le> length p \<and> gen p = Some (Password u)))"

lemma hashed_upd:
  "hashed gen s \<Longrightarrow> users s' = (users s)(k \<mapsto> u) \<Longrightarrow>
     Password u = [] \<or> (\<exists>p. 8 \<le> length p \<and> gen p = Some (Password u)) \<Longrightarrow> hashed gen s'"
  by (auto simp: hashed_def ran_def)

lemma hashed_same: "hashed gen s \<Longrightarrow> users s' = users s \<Longrightarrow> hashed gen s'"
  by (simp add: hashed_def)

lemma hashed_del: "hashed gen s \<Longrightarrow> users s' = (users s)(k := None) \<Longrightarrow> hashed gen s'"
  by (auto simp: hashed_def ran_def)

lemma hashed_at: "hashed gen s \<Longrightarrow> users s k = Some u \<Longrightarrow>
    Password u = [] \<or> (\<exists>p. 8 \<le> length p \<and> gen p = Some (Password u))"
  by (auto simp: hashed_def ran_def)

lemma hashed_Add: "hashed gen s \<Longrightarrow> hashed gen (fst (Add gen io u s))"
proof (cases "users (fst (Add gen io u s)) = users s")
  case False
  assume "hashed gen s"
  from False obtain h where h: "(if Password u \<noteq> [] then gen (Password u) else Some []) = Some h"
      "users (fst (Add gen io u s)) = (users s)(normalizeEmail (Email u) \<mapsto> added_user u h)"
      "\<not> (Password u \<noteq> [] \<and> length (Password u) < 8)"
    unfolding users_Add Let_def by (auto split: if_splits option.splits)
  then have "Password (added_user u h) = [] \<or> (\<exists>p. 8 \<le> length p \<and> gen p = Some (Password (added_user u h)))"
    by (auto simp: added_user_def split: if_splits intro!: exI [of _ "Password u"])
  with \<open>hashed gen s\<close> h(2) show ?thesis by (rule hashed_upd)
qed (rule hashed_same)

lemma hashed_UpdateProfile:
  assumes "hashed gen s"
  shows "hashed gen (fst (UpdateProfile io e n name av ph ssh s))"
proof (cases "users s (normalizeEmail e)")
  case None
  with assms show ?thesis by (auto simp: UpdateProfile_cases Let_def)
next
  case (Some u)
  have p: "Password (profile_user e n name av ph ssh u) = Password u"
    by (simp add: profile_user_def Let_def)
  note h = hashed_at [OF assms Some]
  have "hashed gen (s\<lparr>users := ((users s)(normalizeEmail e := None))
      (new_email e n \<mapsto> profile_user e n name av ph ssh u)\<rparr>)" (is "hashed gen ?S")
    by (rule hashed_upd [OF hashed_del [OF assms, of "s\<lparr>users := (users s)(normalizeEmail e := None)\<rparr>"],
          where k = "new_email e n" and u = "profile_user e n name av ph ssh u"])
       (use h p in auto)
  then have 1: "hashed gen (fst (saveLocked io ?S))" by (rule hashed_same) simp
  have 2: "hashed gen (s\<lparr>users := (users s)(normalizeEmail e \<mapsto> u\<lparr>DisplayName := name\<rparr>)\<rparr>)"
    by (rule hashed_upd [OF assms, where k = "normalizeEmail e" and u = "u\<lparr>DisplayName := name\<rparr>"])
       (use h in auto)
  show ?thesis
    using Some 1 2 assms by (cases "new_email e n = normalizeEmail e") (simp_all add: UpdateProfile_cases Let_def)
qed

lemma hashed_SetRole:
  assumes "hashed gen s"
  shows "hashed gen (fst (SetRole io e r s))"
proof (cases "ValidRoles (to_lower (trim_space r)) \<and> users s (normalizeEmail e) \<noteq> None")
  case True
  then obtain u where u: "users s (normalizeEmail e) = Some u" by blast
  show ?thesis
    by (rule hashed_upd [OF assms, where k = "normalizeEmail e" and u = "u\<lparr>Roles := [to_lower (trim_space r)]\<rparr>"])
       (use True u hashed_at [OF assms u] in \<open>auto simp: users_SetRole\<close>)
next
  case False
  then show ?thesis by (intro hashed_same [OF assms]) (auto simp: users_SetRole fun_upd_idem)
qed

lemma hashed_UpdatePassword:
  assumes "hashed gen s"
  shows "hashed gen (fst (UpdatePassword gen cmp io e old new s))"
proof (cases "users (fst (UpdatePassword gen cmp io e old new s)) = users s")
  case False
  then obtain u h where u: "8 \<le> length new" "gen new = Some h"
      "users (fst (UpdatePassword gen cmp io e old new s)) = (users s)(normalizeEmail e \<mapsto> u\<lparr>Password := h\<rparr>)"
    unfolding users_UpdatePassword by (auto split: option.splits if_splits)
  show ?thesis by (rule hashed_upd [OF assms u(3)]) (use u in auto)
qed (rule hashed_same [OF assms])

lemma hashed_run_op: "hashed gen s \<Longrightarrow> hashed gen (run_op gen cmp x s)"
  by (cases "(gen, cmp, x, s)" rule: run_op.cases)
     (auto simp: hashed_Add hashed_UpdateProfile hashed_SetRole hashed_UpdatePassword users_Delete
        intro: hashed_del)

text \<open>
  No clear-text password reaches the map: if every stored password is empty or the hash of
  a password of at least eight bytes, it stays so under any run of operations.
\<close>

theorem passwords_hashed:
  assumes "hashed gen s"
  shows "hashed gen (fold (run_op gen cmp) ops s)"
  using assms by (induction ops arbitrary: s) (simp_all add: hashed_run_op)

theorem passwords_hashed_witness:
  "hashed toy_gen (fold (run_op toy_gen toy_cmp)
     [(SaveOk, PasswordOp ''bob@x.io'' ''bobpassword'' ''new-secret''),
      (MkdirErr, AddOp (mk_user ''eve@x.io'' ''clear text'' []))] demo_store)"
proof -
  have "hashed toy_gen demo_store"
    by (auto simp: hashed_def demo_store_def ran_def toy_gen_def split: if_splits
        intro: exI [of _ "''annpassword''"] exI [of _ "''bobpassword''"])
  then show ?thesis by (rule passwords_hashed)
qed

lemma run_op_saves:
  "disk (run_op gen cmp (io, op) s) = disk s \<or> (\<exists>m. run_op gen cmp (io, op) s = fst (saveLocked io (s\<lparr>users := m\<rparr>)))"
proof (cases op)
  case (ProfileOp e n name av ph ssh)
  then show ?thesis
    by (cases "users s (normalizeEmail e)") (auto simp: UpdateProfile_cases Let_def)
qed (auto simp: Add_def Delete_def SetRole_def UpdatePassword_def Let_def split: option.splits)

text \<open>
  C18. An operation leaves one of three files on disk: the one that was there, exactly the map it leaves in memory, or, when
  the end of the new file is lost as it is closed, what was written of it, because the error of \<open>Close\<close> is
  not looked at before the rename. Every other failure of the file system leaves the old file.
\<close>

theorem file_atomic:
  "disk (run_op gen cmp (io, op) s) \<in>
     (case io of
        SaveOk \<Rightarrow> {disk s, file_of (users (run_op gen cmp (io, op) s))}
      | CloseLost f \<Rightarrow> {disk s, f}
      | _ \<Rightarrow> {disk s})"
  using run_op_saves [of gen cmp io op s] by (cases io) auto

text \<open>A save whose end is lost is reported as a success, and the file no longer loads.\<close>

theorem lost_close_unnoticed:
  "snd (Delete (CloseLost Garbled) ''bob@x.io'' demo_store) = Inr () \<and>
   snd (NewUserStore gen io env now order (disk (fst (Delete (CloseLost Garbled) ''bob@x.io'' demo_store)))) = Inl BadJSON"
proof -
  have "normalizeEmail ''bob@x.io'' = ''bob@x.io''" by code_simp
  then show ?thesis by (simp add: Delete_def demo_store_def NewUserStore_def load_def Let_def)
qed

lemma load_user_fixed:
  "Email u = k \<Longrightarrow> normalizeEmail k = k \<Longrightarrow> ID u \<noteq> [] \<Longrightarrow> Roles u \<noteq> [] \<Longrightarrow> load_user k u = u"
  by (auto simp: load_user_def Let_def)

lemma fold_load_fixed:
  "map_inv m \<Longrightarrow> \<forall>u \<in> ran m. ID u \<noteq> [] \<and> Roles u \<noteq> [] \<Longrightarrow> fold load_step order m = m"
proof (induction order)
  case (Cons k order)
  have "load_step k m = m"
    using Cons.prems by (auto simp: load_step_def map_inv_def load_user_fixed Let_def ranI split: option.splits)
  with Cons show ?case by simp
qed simp

text \<open>
  The file a save writes loads back as the very store that was saved, in
  whatever order the entries are ranged over.
\<close>

lemma save_load_roundtrip:
  assumes "store_inv s" and "\<forall>u \<in> ran (users s). ID u \<noteq> [] \<and> Roles u \<noteq> []"
    and "set order = dom (users s)" and "order \<noteq> []"
  shows "NewUserStore gen io env now order (disk (fst (saveLocked SaveOk s))) =
    (s\<lparr>disk := file_of (users s)\<rparr>, Inr ())"
proof -
  have "(\<lambda>k. Option.bind (map_option Some (users s k)) id) = users s"
    by (auto simp: fun_eq_iff split: option.splits) (metis bind.bind_lunit bind_eq_None_conv not_None_eq option.map(1,2) id_apply)
  then show ?thesis
    using assms fold_load_fixed [of "users s" order]
    by (simp add: NewUserStore_def load_def file_of_def store_inv_def)
qed

text \<open>
  A password change that succeeds was authorised by the current password, and the new
  password is the one the store accepts from then on.
\<close>

theorem password_change_effective:
  assumes "bcrypt_accepts gen cmp" and "UpdatePassword gen cmp io e old new s = (s', Inr ())"
  shows "\<exists>u u'. Find s e = Inr u \<and> cmp (Password u) old \<and> 8 \<le> length new \<and>
    Find s' e = Inr u' \<and> cmp (Password u') new \<and> u' = u\<lparr>Password := Password u'\<rparr>"
proof -
  obtain u h where u: "users s (normalizeEmail e) = Some u" "cmp (Password u) old" "8 \<le> length new" "gen new = Some h"
    using assms(2) by (auto simp: UpdatePassword_def Let_def split: if_splits option.splits)
  have "users s' = (users s)(normalizeEmail e \<mapsto> u\<lparr>Password := h\<rparr>)"
    using users_UpdatePassword [of gen cmp io e old new s] u assms(2) by simp
  with u assms(1) show ?thesis by (auto simp: Find_def bcrypt_accepts_def)
qed

theorem password_change_effective_witness:
  "\<exists>s' u'. UpdatePassword toy_gen toy_cmp SaveOk ''bob@x.io'' ''bobpassword'' ''new-secret'' demo_store = (s', Inr ()) \<and>
     Find s' ''bob@x.io'' = Inr u' \<and> toy_cmp (Password u') ''new-secret''"
proof -
  obtain s' where r: "UpdatePassword toy_gen toy_cmp SaveOk ''bob@x.io'' ''bobpassword'' ''new-secret'' demo_store = (s', Inr ())"
    by (simp add: UpdatePassword_def demo_store_def toy_cmp_def toy_gen_def Let_def)
  from password_change_effective [OF toy_accepts r] r show ?thesis by blast
qed

end
