(* ===== verification/Jwt.thy ===== *)
theory Jwt
  imports Http Base64 Users
begin

text \<open>
  The session tokens, \<open>backend/auth/jwt.go\<close>. The token format, its signature and the check of
  the registered claims are \<open>github.com/golang-jwt/jwt/v5\<close>: a pair of parameters \<open>lib_sign\<close> and
  \<open>lib_parse\<close>, with the library's contract in \<open>jwt_lib_ok\<close>. Times are nanoseconds; a
  \<open>NumericDate\<close> is in whole seconds.
\<close>

definition cookieName :: string where "cookieName = ''unyport_auth''"
definition jwtIssuer :: string where "jwtIssuer = ''unyport''"

definition second :: int where "second = 1000000000"
definition minute :: int where "minute = 60 * second"
definition hour :: int where "hour = 60 * minute"

record claims =
  UserID :: string
  claim_role :: string
  ExpiresAt :: int
  IssuedAt :: int
  NotBefore :: int
  Issuer :: string
  Subject :: string

record jwt_service =
  key :: string
  ttl :: int
  secureCookie :: bool

record jwt_lib =
  lib_sign :: "string \<Rightarrow> claims \<Rightarrow> string option"
    \<comment> \<open>\<open>NewWithClaims(HS256, claims).SignedString(key)\<close>\<close>
  lib_parse :: "int \<Rightarrow> string \<Rightarrow> string \<Rightarrow> string \<Rightarrow> claims option"
    \<comment> \<open>time, key, issuer, token: \<open>ParseWithClaims\<close> with the valid methods \<open>[HS256]\<close>\<close>

definition NumericDate :: "int \<Rightarrow> int" where
  "NumericDate t = t div second"

definition claims_live :: "int \<Rightarrow> claims \<Rightarrow> bool" where
  "claims_live now c \<longleftrightarrow> now < ExpiresAt c * second \<and> NotBefore c * second \<le> now"

text \<open>
  The library's contract: a token it signed parses with the same key exactly when its issuer is
  the required one and the time is within the claimed window, and yields the signed claims.
\<close>

definition jwt_lib_ok :: "jwt_lib \<Rightarrow> bool" where
  "jwt_lib_ok L \<longleftrightarrow>
     (\<forall>k c raw now iss. lib_sign L k c = Some raw \<longrightarrow>
        lib_parse L now k iss raw = (if Issuer c = iss \<and> claims_live now c then Some c else None))"

datatype jwt_error =
    MissingSecret | InvalidBase64 | SecretTooShort | TokenInvalid | CookieAbsent | SignFailed

definition NewJWTServiceWithOpts :: "string \<Rightarrow> int \<Rightarrow> bool \<Rightarrow> jwt_error + jwt_service" where
  "NewJWTServiceWithOpts b64secret d secure =
     (if b64secret = [] then Inl MissingSecret
      else case b64_decode StdAlphabet True b64secret of
             None \<Rightarrow> Inl InvalidBase64
           | Some k \<Rightarrow>
               if length k < 32 then Inl SecretTooShort
               else Inr \<lparr>key = k, ttl = (if d \<le> 0 then hour else d), secureCookie = secure\<rparr>)"

definition NewJWTService :: "string \<Rightarrow> jwt_error + jwt_service" where
  "NewJWTService b64secret = NewJWTServiceWithOpts b64secret hour False"

definition issue_claims :: "jwt_service \<Rightarrow> int \<Rightarrow> string \<Rightarrow> string \<Rightarrow> claims" where
  "issue_claims j now userID role =
     \<lparr>UserID = userID, claim_role = role, ExpiresAt = NumericDate (now + ttl j),
      IssuedAt = NumericDate now, NotBefore = NumericDate (now - 5 * second),
      Issuer = jwtIssuer, Subject = userID\<rparr>"

definition Issue :: "jwt_lib \<Rightarrow> jwt_service \<Rightarrow> int \<Rightarrow> string \<Rightarrow> string \<Rightarrow> jwt_error + (string \<times> int)" where
  "Issue L j now userID role =
     (case lib_sign L (key j) (issue_claims j now userID role) of
        None \<Rightarrow> Inl SignFailed
      | Some tok \<Rightarrow> Inr (tok, now + ttl j))"

definition Parse :: "jwt_lib \<Rightarrow> jwt_service \<Rightarrow> int \<Rightarrow> string \<Rightarrow> jwt_error + claims" where
  "Parse L j now raw =
     (case lib_parse L now (key j) jwtIssuer raw of
        None \<Rightarrow> Inl TokenInvalid
      | Some c \<Rightarrow> if UserID c = [] then Inl TokenInvalid else Inr c)"

definition auth_cookie :: "jwt_service \<Rightarrow> string \<Rightarrow> int \<Rightarrow> set_cookie" where
  "auth_cookie j tok exp =
     \<lparr>ck_name = cookieName, ck_value = tok, ck_path = ''/'', ck_max_age = 0, ck_expires = Some exp,
      ck_http_only = True, ck_secure = secureCookie j, ck_same_site_lax = True\<rparr>"

definition SetCookie :: "jwt_lib \<Rightarrow> jwt_service \<Rightarrow> int \<Rightarrow> string \<Rightarrow> string \<Rightarrow> jwt_error + set_cookie" where
  "SetCookie L j now userID role =
     (case Issue L j now userID role of
        Inl e \<Rightarrow> Inl e
      | Inr (tok, exp) \<Rightarrow> Inr (auth_cookie j tok exp))"

definition ClearCookie :: "jwt_service \<Rightarrow> set_cookie" where
  "ClearCookie j =
     \<lparr>ck_name = cookieName, ck_value = [], ck_path = ''/'', ck_max_age = -1, ck_expires = Some 0,
      ck_http_only = True, ck_secure = secureCookie j, ck_same_site_lax = True\<rparr>"

definition FromRequest :: "jwt_lib \<Rightarrow> jwt_service \<Rightarrow> int \<Rightarrow> request \<Rightarrow> jwt_error + claims" where
  "FromRequest L j now r =
     (case cookie r cookieName of None \<Rightarrow> Inl CookieAbsent | Some v \<Rightarrow> Parse L j now v)"

section \<open>Facts\<close>

lemma second_pos [simp]: "0 < second" "second \<noteq> 0"
  by (simp_all add: second_def)

lemma NumericDate_floor: "NumericDate t * second \<le> t" "t < NumericDate t * second + second"
proof -
  have "t = (t div second) * second + t mod second" by simp
  moreover have "0 \<le> t mod second" "t mod second < second" by simp_all
  ultimately show "NumericDate t * second \<le> t" "t < NumericDate t * second + second"
    unfolding NumericDate_def by linarith+
qed

lemma new_service_ttl: "NewJWTServiceWithOpts s d b = Inr j \<Longrightarrow> 0 < ttl j"
  by (auto simp: NewJWTServiceWithOpts_def hour_def minute_def second_def split: if_splits option.splits)

lemma new_service_key: "NewJWTServiceWithOpts s d b = Inr j \<Longrightarrow> 32 \<le> length (key j)"
  by (auto simp: NewJWTServiceWithOpts_def split: if_splits option.splits)

text \<open>An instance of the library for the witnesses: it knows one token.\<close>

definition toy_lib :: "claims \<Rightarrow> jwt_lib" where
  "toy_lib c0 =
     \<lparr>lib_sign = (\<lambda>k c. if c = c0 then Some ''tok'' else None),
      lib_parse = (\<lambda>now k iss raw. if raw = ''tok'' \<and> Issuer c0 = iss \<and> claims_live now c0 then Some c0 else None)\<rparr>"

lemma toy_lib_ok: "jwt_lib_ok (toy_lib c0)"
  by (auto simp: jwt_lib_ok_def toy_lib_def split: if_splits)

definition toy_service :: jwt_service where
  "toy_service = \<lparr>key = replicate 32 CHR ''k'', ttl = hour, secureCookie = True\<rparr>"

lemma parse_issued:
  assumes "jwt_lib_ok L" and "Issue L j t0 uid role = Inr (tok, exp)"
  shows "Parse L j now tok =
     (if uid \<noteq> [] \<and> claims_live now (issue_claims j t0 uid role) then Inr (issue_claims j t0 uid role)
      else Inl TokenInvalid)"
proof -
  have s: "lib_sign L (key j) (issue_claims j t0 uid role) = Some tok"
    using assms(2) by (auto simp: Issue_def split: option.splits)
  have "lib_parse L now (key j) jwtIssuer tok =
      (if claims_live now (issue_claims j t0 uid role) then Some (issue_claims j t0 uid role) else None)"
    using assms(1) s by (auto simp: jwt_lib_ok_def issue_claims_def)
  then show ?thesis by (simp add: Parse_def issue_claims_def)
qed

section \<open>Properties\<close>

text \<open>
  A session lasts its time to live, to the second, and no longer: the issued token parses
  back to the user and role it was issued for from the moment of issue until one second before
  the cookie's expiry at the earliest, and is refused from the expiry on.
\<close>

theorem session_lifetime:
  assumes "jwt_lib_ok L" and "Issue L j t0 uid role = Inr (tok, exp)" and "uid \<noteq> []"
  shows "exp = t0 + ttl j \<and>
    (\<forall>now. t0 \<le> now \<and> now \<le> exp - second \<longrightarrow>
       (\<exists>c. Parse L j now tok = Inr c \<and> UserID c = uid \<and> claim_role c = role)) \<and>
    (\<forall>now. exp \<le> now \<longrightarrow> Parse L j now tok = Inl TokenInvalid)"
proof (intro conjI allI impI)
  show e: "exp = t0 + ttl j" using assms(2) by (auto simp: Issue_def split: option.splits)
  note p = parse_issued [OF assms(1,2)]
  fix now
  show "Parse L j now tok = Inl TokenInvalid" if "exp \<le> now"
    using NumericDate_floor(1) [of "t0 + ttl j"] that e p by (simp add: claims_live_def issue_claims_def)
  show "\<exists>c. Parse L j now tok = Inr c \<and> UserID c = uid \<and> claim_role c = role"
    if "t0 \<le> now \<and> now \<le> exp - second"
  proof -
    have "now < NumericDate (t0 + ttl j) * second" using NumericDate_floor(2) [of "t0 + ttl j"] that e by linarith
    moreover have "NumericDate (t0 - 5 * second) * second \<le> now"
      using NumericDate_floor(1) [of "t0 - 5 * second"] that second_pos(1) by linarith
    ultimately show ?thesis using p assms(3) by (simp add: claims_live_def issue_claims_def)
  qed
qed

theorem session_lifetime_witness:
  "\<exists>tok c. Issue (toy_lib (issue_claims toy_service 0 ''ann@x.io'' ''admin'')) toy_service 0 ''ann@x.io'' ''admin'' = Inr (tok, hour) \<and>
     Parse (toy_lib (issue_claims toy_service 0 ''ann@x.io'' ''admin'')) toy_service (hour - second) tok = Inr c \<and>
     UserID c = ''ann@x.io'' \<and>
     Parse (toy_lib (issue_claims toy_service 0 ''ann@x.io'' ''admin'')) toy_service hour tok = Inl TokenInvalid"
proof -
  let ?L = "toy_lib (issue_claims toy_service 0 ''ann@x.io'' ''admin'')"
  have i: "Issue ?L toy_service 0 ''ann@x.io'' ''admin'' = Inr (''tok'', hour)"
    by (simp add: Issue_def toy_lib_def toy_service_def)
  have "''ann@x.io'' \<noteq> ([] :: string)" by simp
  note p = session_lifetime [OF toy_lib_ok i this]
  have "(0::int) \<le> hour - second \<and> hour - second \<le> hour - second"
    by (simp add: hour_def minute_def second_def)
  then obtain c where "Parse ?L toy_service (hour - second) ''tok'' = Inr c" "UserID c = ''ann@x.io''"
    using p [THEN conjunct2, THEN conjunct1, rule_format, of "hour - second"] by blast
  moreover have "Parse ?L toy_service hour ''tok'' = Inl TokenInvalid"
    using p [THEN conjunct2, THEN conjunct2, rule_format, of hour] by simp
  ultimately show ?thesis using i by blast
qed

end
