(* ===== verification/Branding.thy ===== *)
theory Branding
  imports Base64
begin

text \<open>
  The visual identity store, \<open>backend/config/branding.go\<close>: validation, defaults and the
  \<open>BrandingStore\<close>. The YAML encoding (\<open>gopkg.in/yaml.v3\<close>) is not modelled: the file holds the
  record itself, and the outcome of the write is an input of \<open>Update\<close>.
\<close>

record branding_colors =
  Dom0 :: string
  DomU :: string
  Container :: string
  Alpine :: string

record branding =
  LogoBase64 :: string
  LogoURL :: string
  Colors :: branding_colors

definition EffectiveLogoSrc :: "branding \<Rightarrow> string" where
  "EffectiveLogoSrc b =
     (if LogoBase64 b \<noteq> [] then LogoBase64 b else if LogoURL b \<noteq> [] then LogoURL b else [])"

definition HasCustomLogo :: "branding \<Rightarrow> bool" where
  "HasCustomLogo b \<longleftrightarrow> LogoBase64 b \<noteq> [] \<or> LogoURL b \<noteq> []"

definition or_default :: "string \<Rightarrow> string \<Rightarrow> string" where
  "or_default v d = (if v = [] then d else v)"

definition defaults :: "branding \<Rightarrow> branding" where
  "defaults b =
     b\<lparr>Colors :=
         \<lparr>Dom0 = or_default (Dom0 (Colors b)) ''#3e3aab'', DomU = or_default (DomU (Colors b)) ''#a0284a'',
          Container = or_default (Container (Colors b)) ''#b05a1a'',
          Alpine = or_default (Alpine (Colors b)) ''#28587c''\<rparr>\<rparr>"

text \<open>
  \<open>isHexColor\<close>. The range over \<open>rest\<close> visits runes; a byte outside ASCII belongs to a rune that is
  no hex digit, so testing bytes is the same.
\<close>

definition isHexColor :: "string \<Rightarrow> bool" where
  "isHexColor s \<longleftrightarrow>
     s \<noteq> [] \<and> hd s = CHR ''#'' \<and>
     (let rest = tl s in (length rest = 3 \<or> length rest = 6) \<and> list_all is_hex_byte rest)"

datatype branding_error =
    LogoTooLarge | LogoNotImage | LogoMalformed | LogoBadBase64 | LogoBadURL | BadColor string
  | BrandingIO

definition maxLogoBytes :: nat where
  "maxLogoBytes = 2 * 1024 * 1024"

text \<open>
  \<open>validateBranding\<close>. The colours are ranged over as a Go map, so which bad colour an error
  names depends on the order: \<open>order\<close> is that order of the four names.
\<close>

definition named_colors :: "branding \<Rightarrow> string \<Rightarrow> string" where
  "named_colors b n =
     (if n = ''dom0'' then Dom0 (Colors b) else if n = ''domu'' then DomU (Colors b)
      else if n = ''container'' then Container (Colors b) else Alpine (Colors b))"

definition color_names :: "string list" where
  "color_names = [''dom0'', ''domu'', ''container'', ''alpine'']"

definition validate_logo :: "branding \<Rightarrow> branding_error option" where
  "validate_logo b =
     (if LogoBase64 b \<noteq> [] then
        (if maxLogoBytes < length (LogoBase64 b) then Some LogoTooLarge
         else if \<not> has_prefix (LogoBase64 b) ''data:image/'' then Some LogoNotImage
         else
           let p = cut CHR '','' (LogoBase64 b)
           in if \<not> snd (snd p) then Some LogoMalformed
              else if b64_decode StdAlphabet True (fst (snd p)) = None \<and>
                      b64_decode StdAlphabet False (fst (snd p)) = None then Some LogoBadBase64
              else None)
      else None)"

definition validateBranding :: "string list \<Rightarrow> branding \<Rightarrow> branding_error option" where
  "validateBranding order b =
     (case validate_logo b of
        Some e \<Rightarrow> Some e
      | None \<Rightarrow>
          if LogoURL b \<noteq> [] \<and> \<not> has_prefix (LogoURL b) ''http://'' \<and> \<not> has_prefix (LogoURL b) ''https://''
          then Some LogoBadURL
          else (case List.find (\<lambda>n. named_colors b n \<noteq> [] \<and> \<not> isHexColor (named_colors b n)) order of
                  None \<Rightarrow> None | Some n \<Rightarrow> Some (BadColor n)))"

datatype branding_file = NoBrandingFile | BrandingUnreadable | BrandingBadYAML | BrandingYAML branding

record branding_store =
  current :: branding
  branding_file :: branding_file

definition zero_branding :: branding where
  "zero_branding =
     \<lparr>LogoBase64 = [], LogoURL = [],
      Colors = \<lparr>Dom0 = [], DomU = [], Container = [], Alpine = []\<rparr>\<rparr>"

definition NewBrandingStore :: "branding_file \<Rightarrow> branding_store \<times> (branding_error + unit)" where
  "NewBrandingStore f =
     (case f of
        NoBrandingFile \<Rightarrow> (\<lparr>current = defaults zero_branding, branding_file = f\<rparr>, Inr ())
      | BrandingUnreadable \<Rightarrow> (\<lparr>current = zero_branding, branding_file = f\<rparr>, Inl BrandingIO)
      | BrandingBadYAML \<Rightarrow> (\<lparr>current = zero_branding, branding_file = f\<rparr>, Inl BrandingIO)
      | BrandingYAML b \<Rightarrow> (\<lparr>current = defaults b, branding_file = f\<rparr>, Inr ()))"

text \<open>
  \<open>Update\<close>. The in-memory branding is assigned before the file is written, and stays when a step
  of the write fails (\<open>write_ok\<close> is false).
\<close>

definition Update :: "bool \<Rightarrow> string list \<Rightarrow> branding \<Rightarrow> branding_store \<Rightarrow> branding_store \<times> (branding_error + unit)" where
  "Update write_ok order b s =
     (case validateBranding order b of
        Some e \<Rightarrow> (s, Inl e)
      | None \<Rightarrow>
          let b' = defaults b; s' = s\<lparr>current := b'\<rparr>
          in if write_ok then (s'\<lparr>branding_file := BrandingYAML b'\<rparr>, Inr ()) else (s', Inl BrandingIO))"

section \<open>Facts\<close>

definition colors_ok :: "branding \<Rightarrow> bool" where
  "colors_ok b \<longleftrightarrow>
     isHexColor (Dom0 (Colors b)) \<and> isHexColor (DomU (Colors b)) \<and> isHexColor (Container (Colors b)) \<and>
     isHexColor (Alpine (Colors b))"

definition logo_ok :: "branding \<Rightarrow> bool" where
  "logo_ok b \<longleftrightarrow>
     (LogoBase64 b = [] \<or> (has_prefix (LogoBase64 b) ''data:image/'' \<and> length (LogoBase64 b) \<le> maxLogoBytes)) \<and>
     (LogoURL b = [] \<or> has_prefix (LogoURL b) ''http://'' \<or> has_prefix (LogoURL b) ''https://'')"

lemma defaults_idem [simp]: "defaults (defaults b) = defaults b"
  by (simp add: defaults_def or_default_def)

lemma default_colors: "isHexColor ''#3e3aab''" "isHexColor ''#a0284a''" "isHexColor ''#b05a1a''" "isHexColor ''#28587c''"
  by code_simp+

lemma validate_ok:
  assumes "validateBranding order b = None" and "set order = set color_names"
  shows "colors_ok (defaults b)" and "logo_ok (defaults b)"
proof -
  have f: "List.find (\<lambda>n. named_colors b n \<noteq> [] \<and> \<not> isHexColor (named_colors b n)) order = None"
    and l: "validate_logo b = None"
    and u: "\<not> (LogoURL b \<noteq> [] \<and> \<not> has_prefix (LogoURL b) ''http://'' \<and> \<not> has_prefix (LogoURL b) ''https://'')"
    using assms(1) by (auto simp: validateBranding_def split: option.splits if_splits)
  have "named_colors b n = [] \<or> isHexColor (named_colors b n)" if "n \<in> set color_names" for n
    using f that assms(2) by (auto simp: find_None_iff)
  from this [of "''dom0''"] this [of "''domu''"] this [of "''container''"] this [of "''alpine''"]
  show "colors_ok (defaults b)"
    using default_colors by (auto simp: colors_ok_def defaults_def or_default_def named_colors_def color_names_def)
  show "logo_ok (defaults b)"
    using l u by (auto simp: logo_ok_def defaults_def validate_logo_def Let_def split: if_splits)
qed

lemma default_branding_ok: "colors_ok (defaults zero_branding)" "logo_ok (defaults zero_branding)"
  using default_colors by (auto simp: colors_ok_def logo_ok_def defaults_def or_default_def zero_branding_def)

section \<open>Properties\<close>

definition run_updates :: "(bool \<times> string list \<times> branding) list \<Rightarrow> branding_store \<Rightarrow> branding_store" where
  "run_updates us s = fold (\<lambda>(ok, order, b) s. fst (Update ok order b s)) us s"

lemma update_keeps:
  "set order = set color_names \<Longrightarrow> colors_ok (current s) \<and> logo_ok (current s) \<Longrightarrow>
   colors_ok (current (fst (Update ok order b s))) \<and> logo_ok (current (fst (Update ok order b s)))"
  using validate_ok [of order b] by (auto simp: Update_def Let_def split: option.splits)

text \<open>
  What the public branding endpoint serves is always safe to inject: starting without a
  file, after any sequence of updates (accepted, refused, or failing to reach the disk) the four
  colours are hex colours and the logo is empty, an image data URI of at most 2 MB, or an
  http/https URL.
\<close>

theorem branding_always_valid:
  assumes "\<forall>(ok, order, b) \<in> set us. set order = set color_names"
  shows "colors_ok (current (run_updates us (fst (NewBrandingStore NoBrandingFile)))) \<and>
     logo_ok (current (run_updates us (fst (NewBrandingStore NoBrandingFile))))"
proof -
  have "colors_ok (current s) \<and> logo_ok (current s) \<Longrightarrow>
      colors_ok (current (run_updates us s)) \<and> logo_ok (current (run_updates us s))" for s
    using assms by (induction us arbitrary: s) (auto simp: run_updates_def update_keeps)
  then show ?thesis using default_branding_ok by (simp add: NewBrandingStore_def)
qed

theorem branding_always_valid_witness:
  "colors_ok (current (run_updates [(True, color_names, zero_branding\<lparr>LogoURL := ''javascript:1''\<rparr>),
       (False, color_names, zero_branding\<lparr>LogoURL := ''https://x.io/l.png''\<rparr>)] (fst (NewBrandingStore NoBrandingFile)))) \<and>
   logo_ok (current (run_updates [(True, color_names, zero_branding\<lparr>LogoURL := ''javascript:1''\<rparr>),
       (False, color_names, zero_branding\<lparr>LogoURL := ''https://x.io/l.png''\<rparr>)] (fst (NewBrandingStore NoBrandingFile))))"
  by (rule branding_always_valid) simp

end
