(* ===== verification/RateLimit.thy ===== *)
theory RateLimit
  imports Http Jwt
begin

text \<open>
  The login rate limiter, \<open>backend/middleware/ratelimit.go\<close>: the buckets per client address, the
  middleware and the janitor. A request takes the mutex once, so counting is one atomic step;
  the janitor's purge is another. \<open>net.ParseIP\<close> followed by \<open>String\<close> is the parameter
  \<open>canon_ip\<close>: \<open>None\<close> for no address, otherwise its canonical text.
\<close>

record bucket =
  attempts :: nat
  resetAt :: int

record rate_limiter =
  buckets :: "string \<Rightarrow> bucket option"
  maxAttempts :: int
  window :: int

definition NewLoginRateLimiter :: "int \<Rightarrow> rate_limiter" where
  "NewLoginRateLimiter n = \<lparr>buckets = Map.empty, maxAttempts = n, window = minute\<rparr>"

definition extractIP :: "(string \<Rightarrow> string option) \<Rightarrow> request \<Rightarrow> string" where
  "extractIP canon_ip r =
     (let xff = header r ''X-Forwarded-For'';
          seg = takeWhile (\<lambda>c. c \<noteq> CHR '','') xff;
          direct = (case split_host_port (remote r) of None \<Rightarrow> remote r | Some h \<Rightarrow> h)
      in if xff \<noteq> [] then (case canon_ip (trim_space seg) of Some ip \<Rightarrow> ip | None \<Rightarrow> direct)
         else direct)"

text \<open>The critical section: the bucket of \<open>ip\<close> is opened or reused, and counts the attempt.\<close>

definition count_attempt :: "int \<Rightarrow> string \<Rightarrow> rate_limiter \<Rightarrow> nat \<times> rate_limiter" where
  "count_attempt now ip rl =
     (let b = (case buckets rl ip of
                 None \<Rightarrow> \<lparr>attempts = 0, resetAt = now + window rl\<rparr>
               | Some b \<Rightarrow> if resetAt b < now then \<lparr>attempts = 0, resetAt = now + window rl\<rparr> else b);
          b = b\<lparr>attempts := Suc (attempts b)\<rparr>
      in (attempts b, rl\<lparr>buckets := (buckets rl)(ip \<mapsto> b)\<rparr>))"

definition rate_limited :: response where
  "rate_limited =
     with_header ''Retry-After'' ''60''
       (json_response 429 (JObj [(''error'', JStr ''rate_limit''), (''retry_after'', JNum 60)]))"

text \<open>
  The middleware over any server state \<open>'w\<close> that holds a limiter: \<open>get\<close> and \<open>put\<close> read and
  write it.
\<close>

definition limit ::
  "('w \<Rightarrow> rate_limiter) \<Rightarrow> (rate_limiter \<Rightarrow> 'w \<Rightarrow> 'w) \<Rightarrow> (string \<Rightarrow> string option) \<Rightarrow> int \<Rightarrow> 'w middleware" where
  "limit get put canon_ip now next_h r w =
     (if req_method r \<noteq> ''POST'' then next_h r w
      else
        let c = count_attempt now (extractIP canon_ip r) (get w); w' = put (snd c) w
        in if maxAttempts (get w) < int (fst c) then (rate_limited, w') else next_h r w')"

definition janitor :: "int \<Rightarrow> rate_limiter \<Rightarrow> rate_limiter" where
  "janitor now rl =
     rl\<lparr>buckets := (\<lambda>ip. case buckets rl ip of
                          None \<Rightarrow> None
                        | Some b \<Rightarrow> if resetAt b < now then None else Some b)\<rparr>"

section \<open>Runs of attempts\<close>

text \<open>
  A request through the middleware: whether it reached the handler behind, and the limiter after it. The handler notes that it was reached.
\<close>

definition pass_mark :: "(rate_limiter \<times> bool) handler" where
  "pass_mark r w = (respond 200 NoContent, (fst w, True))"

definition through :: "(string \<Rightarrow> string option) \<Rightarrow> int \<Rightarrow> request \<Rightarrow> rate_limiter \<Rightarrow> bool \<times> rate_limiter" where
  "through canon_ip now r rl =
     (let w = snd (limit fst (\<lambda>l w. (l, snd w)) canon_ip now pass_mark r (rl, False)) in (snd w, fst w))"

lemma through_POST:
  "req_method r = ''POST'' \<Longrightarrow>
     through canon_ip now r rl =
       (let c = count_attempt now (extractIP canon_ip r) rl in (int (fst c) \<le> maxAttempts rl, snd c))"
  by (simp add: through_def limit_def pass_mark_def Let_def)

lemma through_other: "req_method r \<noteq> ''POST'' \<Longrightarrow> through canon_ip now r rl = (True, rl)"
  by (simp add: through_def limit_def pass_mark_def)

text \<open>An event is a request or a purge; a run yields for every request whether it got through.\<close>

datatype rl_event = Attempt int request | Purge int

fun event_time :: "rl_event \<Rightarrow> int" where
  "event_time (Attempt t r) = t"
| "event_time (Purge t) = t"

fun rl_run :: "(string \<Rightarrow> string option) \<Rightarrow> rl_event list \<Rightarrow> rate_limiter \<Rightarrow> (int \<times> request \<times> bool) list" where
  "rl_run canon_ip [] rl = []"
| "rl_run canon_ip (Attempt t r # es) rl =
     (case through canon_ip t r rl of (ok, rl') \<Rightarrow> (t, r, ok) # rl_run canon_ip es rl')"
| "rl_run canon_ip (Purge t # es) rl = rl_run canon_ip es (janitor t rl)"

text \<open>Two limiters agree when they differ in buckets that are expired at \<open>now\<close> only.\<close>

definition live_bucket :: "int \<Rightarrow> rate_limiter \<Rightarrow> string \<Rightarrow> bucket option" where
  "live_bucket now rl ip =
     (case buckets rl ip of None \<Rightarrow> None | Some b \<Rightarrow> if resetAt b < now then None else Some b)"

definition agree :: "int \<Rightarrow> rate_limiter \<Rightarrow> rate_limiter \<Rightarrow> bool" where
  "agree now a b \<longleftrightarrow>
     maxAttempts a = maxAttempts b \<and> window a = window b \<and> (\<forall>ip. live_bucket now a ip = live_bucket now b ip)"

lemma live_bucket_mono:
  "now \<le> t \<Longrightarrow> live_bucket now a ip = live_bucket now b ip \<Longrightarrow> live_bucket t a ip = live_bucket t b ip"
  by (auto simp: live_bucket_def split: option.splits if_splits)

lemma agree_mono: "now \<le> t \<Longrightarrow> agree now a b \<Longrightarrow> agree t a b"
  by (auto simp: agree_def intro: live_bucket_mono)

lemma agree_refl [simp]: "agree now a a"
  by (simp add: agree_def)

lemma live_janitor: "live_bucket now (janitor now rl) ip = live_bucket now rl ip"
  by (auto simp: live_bucket_def janitor_def split: option.splits)

lemma agree_janitor: "agree now a b \<Longrightarrow> agree now (janitor now a) b"
  by (simp add: agree_def live_janitor) (simp add: janitor_def)

definition next_bucket :: "int \<Rightarrow> int \<Rightarrow> bucket option \<Rightarrow> bucket" where
  "next_bucket now w ob =
     (case ob of None \<Rightarrow> \<lparr>attempts = 1, resetAt = now + w\<rparr> | Some b \<Rightarrow> b\<lparr>attempts := Suc (attempts b)\<rparr>)"

lemma count_attempt_live:
  "count_attempt now ip rl =
     (let b = next_bucket now (window rl) (live_bucket now rl ip)
      in (attempts b, rl\<lparr>buckets := (buckets rl)(ip \<mapsto> b)\<rparr>))"
  by (auto simp: count_attempt_def live_bucket_def next_bucket_def Let_def split: option.splits)

lemma live_bucket_upd:
  "live_bucket now (rl\<lparr>buckets := (buckets rl)(ip \<mapsto> b)\<rparr>) x =
     (if x = ip then (if resetAt b < now then None else Some b) else live_bucket now rl x)"
  by (simp add: live_bucket_def)

lemma agree_count:
  assumes "agree now a b"
  shows "fst (count_attempt now ip a) = fst (count_attempt now ip b)"
    and "agree now (snd (count_attempt now ip a)) (snd (count_attempt now ip b))"
proof -
  have l: "live_bucket now a x = live_bucket now b x" for x using assms by (simp add: agree_def)
  have w: "window a = window b" using assms by (simp add: agree_def)
  show "fst (count_attempt now ip a) = fst (count_attempt now ip b)"
    by (simp add: count_attempt_live l w Let_def)
  have "live_bucket now (snd (count_attempt now ip a)) x = live_bucket now (snd (count_attempt now ip b)) x" for x
    using l [of x] by (simp add: count_attempt_live l w live_bucket_upd Let_def)
  then show "agree now (snd (count_attempt now ip a)) (snd (count_attempt now ip b))"
    using assms by (simp add: agree_def count_attempt_live Let_def)
qed

fun ordered_from :: "int \<Rightarrow> rl_event list \<Rightarrow> bool" where
  "ordered_from t [] = True"
| "ordered_from t (e # es) = (t \<le> event_time e \<and> ordered_from (event_time e) es)"

definition is_attempt :: "rl_event \<Rightarrow> bool" where
  "is_attempt e \<longleftrightarrow> (\<exists>t r. e = Attempt t r)"

lemma is_attempt_simps [simp]: "is_attempt (Attempt t r)" "\<not> is_attempt (Purge t)"
  by (simp_all add: is_attempt_def)

lemma agree_through:
  assumes "agree now a b"
  shows "fst (through canon_ip now r a) = fst (through canon_ip now r b)"
    and "agree now (snd (through canon_ip now r a)) (snd (through canon_ip now r b))"
proof -
  have "maxAttempts a = maxAttempts b" using assms by (simp add: agree_def)
  then show "fst (through canon_ip now r a) = fst (through canon_ip now r b)"
    and "agree now (snd (through canon_ip now r a)) (snd (through canon_ip now r b))"
    using agree_count [OF assms] assms
    by (cases "req_method r = ''POST''", simp_all add: through_POST through_other Let_def)+
qed

lemma agree_run:
  "ordered_from now es \<Longrightarrow> agree now a b \<Longrightarrow> rl_run canon_ip es a = rl_run canon_ip (filter is_attempt es) b"
proof (induction es arbitrary: now a b)
  case (Cons e es)
  show ?case
  proof (cases e)
    case (Attempt t r)
    with Cons.prems have a: "agree t a b" and o: "ordered_from t es" by (auto intro: agree_mono)
    from Cons.IH [OF o agree_through(2) [OF a]] agree_through(1) [OF a] Attempt show ?thesis
      by (simp add: case_prod_unfold)
  next
    case (Purge t)
    with Cons.prems have "agree t a b" and o: "ordered_from t es" by (auto intro: agree_mono)
    with Cons.IH [OF o agree_janitor] Purge show ?thesis by simp
  qed
qed simp

section \<open>Properties\<close>

text \<open>
  C16. The janitor is invisible: in any run of login requests and purges in time order, every
  request gets the verdict of the middleware it would get if no purge had ever run.
\<close>

theorem janitor_invisible:
  assumes "ordered_from t0 es"
  shows "rl_run canon_ip es rl = rl_run canon_ip (filter is_attempt es) rl"
  using agree_run [OF assms agree_refl] .

text \<open>A login request from an address.\<close>

definition login_from :: "string \<Rightarrow> request" where
  "login_from ip = (base_request ''POST'' ''/api/login'')\<lparr>remote := ip\<rparr>"

theorem janitor_invisible_witness:
  "rl_run Some [Attempt 0 (login_from ''a''), Purge (2 * minute), Attempt (2 * minute) (login_from ''a'')] (NewLoginRateLimiter 1) =
   rl_run Some [Attempt 0 (login_from ''a''), Attempt (2 * minute) (login_from ''a'')] (NewLoginRateLimiter 1)"
proof -
  have "ordered_from 0 [Attempt 0 (login_from ''a''), Purge (2 * minute), Attempt (2 * minute) (login_from ''a'')]"
    by (simp add: minute_def second_def)
  from janitor_invisible [OF this] show ?thesis by simp
qed

text \<open>The attempts of an address are the POST requests that count for it.\<close>

definition attempt_of :: "(string \<Rightarrow> string option) \<Rightarrow> string \<Rightarrow> request \<Rightarrow> bool" where
  "attempt_of canon_ip ip r \<longleftrightarrow> req_method r = ''POST'' \<and> extractIP canon_ip r = ip"

definition accepted :: "(string \<Rightarrow> string option) \<Rightarrow> string \<Rightarrow> rl_event list \<Rightarrow> rate_limiter \<Rightarrow> nat" where
  "accepted canon_ip ip es rl = length (filter (\<lambda>(t, r, ok). attempt_of canon_ip ip r \<and> ok) (rl_run canon_ip es rl))"

lemma accepted_simps [simp]:
  "accepted canon_ip ip [] rl = 0"
  "accepted canon_ip ip (Purge t # es) rl = accepted canon_ip ip es (janitor t rl)"
  "accepted canon_ip ip (Attempt t r # es) rl =
     (if attempt_of canon_ip ip r \<and> int (fst (count_attempt t ip rl)) \<le> maxAttempts rl then 1 else 0) +
     accepted canon_ip ip es (snd (through canon_ip t r rl))"
  by (auto simp: accepted_def attempt_of_def through_POST Let_def case_prod_unfold)

lemma count_attempt_frame [simp]:
  "maxAttempts (snd (count_attempt t i rl)) = maxAttempts rl"
  "window (snd (count_attempt t i rl)) = window rl"
  "i \<noteq> ip \<Longrightarrow> buckets (snd (count_attempt t i rl)) ip = buckets rl ip"
  "maxAttempts (janitor t rl) = maxAttempts rl" "window (janitor t rl) = window rl"
  by (simp_all add: count_attempt_def janitor_def Let_def)

lemma count_attempt_open:
  "buckets rl ip = Some b \<Longrightarrow> t \<le> resetAt b \<Longrightarrow>
     fst (count_attempt t ip rl) = Suc (attempts b) \<and>
     buckets (snd (count_attempt t ip rl)) ip = Some (b\<lparr>attempts := Suc (attempts b)\<rparr>)"
  by (auto simp: count_attempt_def Let_def)

lemma count_attempt_fresh:
  "live_bucket t rl ip = None \<Longrightarrow>
     fst (count_attempt t ip rl) = 1 \<and>
     buckets (snd (count_attempt t ip rl)) ip = Some \<lparr>attempts = 1, resetAt = t + window rl\<rparr>"
  by (simp add: count_attempt_live next_bucket_def Let_def)

lemma through_frame [simp]:
  "maxAttempts (snd (through canon_ip t r rl)) = maxAttempts rl"
  "window (snd (through canon_ip t r rl)) = window rl"
  "\<not> attempt_of canon_ip ip r \<Longrightarrow> buckets (snd (through canon_ip t r rl)) ip = buckets rl ip"
  "attempt_of canon_ip ip r \<Longrightarrow> snd (through canon_ip t r rl) = snd (count_attempt t ip rl)"
  by (cases "req_method r = ''POST''"; simp add: through_POST through_other attempt_of_def Let_def)+

text \<open>While a bucket stays open it lets through what is left of the allowance.\<close>

lemma accepted_open:
  "\<forall>e \<in> set es. event_time e \<le> T \<Longrightarrow> buckets rl ip = Some b \<Longrightarrow> T \<le> resetAt b \<Longrightarrow>
   accepted canon_ip ip es rl \<le> nat (maxAttempts rl - int (attempts b))"
proof (induction es arbitrary: rl b)
  case (Cons e es)
  show ?case
  proof (cases e)
    case (Purge t)
    with Cons.prems have "buckets (janitor t rl) ip = Some b" by (simp add: janitor_def)
    with Cons.IH [of "janitor t rl" b] Cons.prems Purge show ?thesis by simp
  next
    case (Attempt t r)
    show ?thesis
    proof (cases "attempt_of canon_ip ip r")
      case True
      with Attempt Cons.prems have c: "fst (count_attempt t ip rl) = Suc (attempts b)"
          "buckets (snd (count_attempt t ip rl)) ip = Some (b\<lparr>attempts := Suc (attempts b)\<rparr>)"
        using count_attempt_open [of rl ip b t] by auto
      with Cons.IH [OF _ c(2)] Cons.prems Attempt True show ?thesis by auto
    next
      case False
      with Cons.IH [of "snd (through canon_ip t r rl)" b] Cons.prems Attempt show ?thesis by simp
    qed
  qed
qed simp

lemma accepted_fresh:
  assumes "attempt_of canon_ip ip r" and "\<forall>e \<in> set es. event_time e \<le> T" and "T \<le> t + window rl" and "live_bucket t rl ip = None"
  shows "accepted canon_ip ip (Attempt t r # es) rl \<le> nat (maxAttempts rl)"
proof -
  note f = count_attempt_fresh [OF assms(4)]
  have "accepted canon_ip ip es (snd (count_attempt t ip rl)) \<le> nat (maxAttempts rl - 1)"
    using accepted_open [where canon_ip = canon_ip and rl = "snd (count_attempt t ip rl)",
        OF assms(2) conjunct2 [OF f]] assms(3) by simp
  then show ?thesis using f assms(1) by auto
qed

lemma accepted_window:
  "\<forall>e \<in> set es. t1 \<le> event_time e \<and> event_time e \<le> t1 + window rl \<Longrightarrow>
   accepted canon_ip ip es rl \<le>
     (case buckets rl ip of None \<Rightarrow> 0 | Some b \<Rightarrow> nat (maxAttempts rl - int (attempts b))) + nat (maxAttempts rl)"
proof (induction es arbitrary: rl)
  case (Cons e es)
  show ?case
  proof (cases e)
    case (Purge t)
    have "accepted canon_ip ip es (janitor t rl) \<le>
      (case buckets (janitor t rl) ip of None \<Rightarrow> 0 | Some b \<Rightarrow> nat (maxAttempts rl - int (attempts b))) + nat (maxAttempts rl)"
      using Cons.IH [of "janitor t rl"] Cons.prems by (simp cong: option.case_cong)
    also have "\<dots> \<le> (case buckets rl ip of None \<Rightarrow> 0 | Some b \<Rightarrow> nat (maxAttempts rl - int (attempts b))) + nat (maxAttempts rl)"
      by (auto simp: janitor_def split: option.splits)
    finally show ?thesis using Purge by simp
  next
    case (Attempt t r)
    have t: "t1 \<le> t" "\<forall>e \<in> set es. event_time e \<le> t1 + window rl" using Cons.prems Attempt by auto
    note IH = Cons.IH [of "snd (through canon_ip t r rl)"]
    consider "\<not> attempt_of canon_ip ip r" | "attempt_of canon_ip ip r" "live_bucket t rl ip = None" | b where "attempt_of canon_ip ip r" "buckets rl ip = Some b" "t \<le> resetAt b"
      by (cases "buckets rl ip"; cases "attempt_of canon_ip ip r") (force simp: live_bucket_def)+
    then show ?thesis
    proof cases
      case 1
      with IH Cons.prems Attempt show ?thesis by (simp cong: option.case_cong)
    next
      case 2
      with accepted_fresh [OF 2(1) t(2) _ 2(2)] t(1) Attempt show ?thesis by auto
    next
      case 3
      with count_attempt_open [OF 3(2,3)] IH Cons.prems Attempt show ?thesis by auto
    qed
  qed
qed simp

text \<open>
  C15. The bound the middleware really gives: whatever the state of the limiter and whatever other clients and the
  janitor do, at most twice the configured number of POST requests that count for one address reach the login handler
  in any interval as long as the window.
\<close>

theorem attempts_bounded:
  assumes "\<forall>e \<in> set es. t1 \<le> event_time e \<and> event_time e \<le> t1 + window rl"
  shows "accepted canon_ip ip es rl \<le> 2 * nat (maxAttempts rl)"
proof -
  have "(case buckets rl ip of None \<Rightarrow> 0 | Some b \<Rightarrow> nat (maxAttempts rl - int (attempts b))) \<le> nat (maxAttempts rl)"
    by (auto split: option.splits)
  with accepted_window [OF assms, of canon_ip ip] show ?thesis by linarith
qed

definition boundary_run :: "rl_event list" where
  "boundary_run =
     map (\<lambda>t. Attempt (t * second) (login_from ''a'')) [59, 59, 59, 59, 61, 61, 61, 61, 61]"

definition opened_limiter :: rate_limiter where
  "opened_limiter = snd (count_attempt 0 ''a'' (NewLoginRateLimiter 5))"

theorem attempts_bounded_witness:
  "accepted Some ''a'' boundary_run opened_limiter \<le> 2 * nat (maxAttempts opened_limiter)"
  by (rule attempts_bounded [of _ "59 * second"])
     (simp add: boundary_run_def opened_limiter_def NewLoginRateLimiter_def minute_def second_def)

text \<open>
  The window is a fixed one, not a sliding one: with the default limit of five per minute, an
  address that opened its bucket at time 0 gets nine attempts through within two seconds.
\<close>

theorem window_not_sliding:
  "maxAttempts opened_limiter = 5 \<and> window opened_limiter = 60 * second \<and>
   list_all (\<lambda>e. 59 * second \<le> event_time e \<and> event_time e \<le> 61 * second) boundary_run \<and>
   accepted Some ''a'' boundary_run opened_limiter = 9"
proof -
  have "attempt_of Some ''a'' (login_from ''a'')" by code_simp
  then show ?thesis
    by (simp add: boundary_run_def opened_limiter_def NewLoginRateLimiter_def minute_def second_def
        count_attempt_def Let_def)
qed

definition spoofed :: "string \<Rightarrow> string \<Rightarrow> request" where
  "spoofed peer xff = (base_request ''POST'' ''/api/login'')\<lparr>remote := peer, headers := [(''X-Forwarded-For'', xff)]\<rparr>"

lemma extract_spoofed:
  "CHR '','' \<notin> set xff \<Longrightarrow> xff \<noteq> [] \<Longrightarrow> canon_ip (trim_space xff) = Some ip \<Longrightarrow>
     extractIP canon_ip (spoofed peer xff) = ip"
proof -
  assume a: "CHR '','' \<notin> set xff" "xff \<noteq> []" "canon_ip (trim_space xff) = Some ip"
  have "takeWhile (\<lambda>c. c \<noteq> CHR '','') xs = xs" if "CHR '','' \<notin> set xs" for xs
    using that by (induction xs) auto
  from this [OF a(1)] a show ?thesis by (simp add: extractIP_def spoofed_def base_request_def header_def del: takeWhile_eq_all_conv)
qed

lemma distinct_all_pass:
  "distinct (map (extractIP canon_ip) rs) \<Longrightarrow> \<forall>r \<in> set rs. req_method r = ''POST'' \<and> buckets rl (extractIP canon_ip r) = None \<Longrightarrow>
   1 \<le> maxAttempts rl \<Longrightarrow> list_all (\<lambda>(t, r, ok). ok) (rl_run canon_ip (map (Attempt now) rs) rl)"
proof (induction rs arbitrary: rl)
  case (Cons r rs)
  let ?ip = "extractIP canon_ip r"
  have "\<forall>r' \<in> set rs. buckets (snd (count_attempt now ?ip rl)) (extractIP canon_ip r') = None"
    using Cons.prems(1,2) by (auto simp: image_iff)
  with Cons.IH [of "snd (count_attempt now ?ip rl)"] Cons.prems
    count_attempt_fresh [of now rl ?ip] show ?case
    by (simp add: through_POST Let_def live_bucket_def)
qed simp

text \<open>
  The limit is per claimed address: as long as every request names a valid address of its own
  in \<open>X-Forwarded-For\<close>, a client is never limited, whatever its connection's real address is.
\<close>

theorem forged_header_evades:
  assumes "distinct (map (\<lambda>x. the (canon_ip (trim_space x))) xffs)" and "1 \<le> maxAttempts rl"
    and "\<forall>x \<in> set xffs. CHR '','' \<notin> set x \<and> x \<noteq> [] \<and> canon_ip (trim_space x) \<noteq> None \<and>
           buckets rl (the (canon_ip (trim_space x))) = None"
  shows "list_all (\<lambda>(t, r, ok). ok) (rl_run canon_ip (map (\<lambda>x. Attempt now (spoofed peer x)) xffs) rl)"
proof -
  have x: "extractIP canon_ip (spoofed peer x) = the (canon_ip (trim_space x))" if "x \<in> set xffs" for x
    using assms(3) that by (auto simp: extract_spoofed)
  then have "map (extractIP canon_ip) (map (spoofed peer) xffs) = map (\<lambda>x. the (canon_ip (trim_space x))) xffs"
    by simp
  with assms(1) have d: "distinct (map (extractIP canon_ip) (map (spoofed peer) xffs))" by (simp only:)
  have "req_method (spoofed peer y) = ''POST''" for y by (simp add: spoofed_def base_request_def)
  then have "list_all (\<lambda>(t, r, ok). ok) (rl_run canon_ip (map (Attempt now) (map (spoofed peer) xffs)) rl)"
    using assms(3) x by (intro distinct_all_pass [OF d _ assms(2)]) auto
  then show ?thesis by (simp add: comp_def)
qed

theorem forged_header_evades_witness:
  "list_all (\<lambda>(t, r, ok). ok)
    (rl_run Some (map (\<lambda>x. Attempt 0 (spoofed ''198.51.100.7:50000'' x)) [''10.0.0.1'', ''10.0.0.2''])
      (NewLoginRateLimiter 1))"
proof -
  have t: "trim_space ''10.0.0.1'' = ''10.0.0.1''" "trim_space ''10.0.0.2'' = ''10.0.0.2''"
    by code_simp+
  show ?thesis
    by (rule forged_header_evades) (simp_all add: t NewLoginRateLimiter_def)
qed

end
