(* ===== verification/Settings.thy ===== *)
theory Settings
  imports GoPrelude
begin

text \<open>
  The configuration, \<open>backend/config/settings.go\<close> and \<open>config.go\<close>: the \<open>Settings\<close> struct with its
  sections and the defaults \<open>LoadSettings\<close> fills in. Reading the file and decoding YAML
  (\<open>gopkg.in/yaml.v3\<close>) are inputs: a file is unreadable, not YAML, or the decoded struct.
\<close>

record security_section =
  CSRFSecret :: string
  JWTSecret :: string

record paths_section =
  UsersFile :: string
  LogDir :: string
  LBUOverlay :: string
  LBUCommitLog :: string

record display_section =
  show_CPU :: bool
  show_Memory :: bool
  show_Disk :: bool
  show_Network :: bool
  show_XenStatus :: bool
  show_LBUStatus :: bool

record lbu_section =
  lbu_Enabled :: bool
  CheckDir :: string
  StatusCmd :: string
  AutoDetect :: bool

record oauth_section =
  oauth_Enabled :: bool
  AllowedDomains :: "string list"
  AutoCreate :: bool

record security2_section =
  RateLimitLogin :: int
  RateLimitAPI :: int
  SessionTimeoutMins :: int
  HTTPS :: bool
  TrustedOrigins :: "string list"

record mail_section =
  mail_Enabled :: bool
  mail_Host :: string
  mail_Port :: int
  mail_Username :: string
  mail_Password :: string
  mail_From :: string
  SendmailPath :: string

record http3_section =
  http3_Enabled :: bool
  CertFile :: string
  KeyFile :: string
  http3_Port :: int
  RedirectHTTP :: bool

record settings =
  Theme :: string
  Security :: security_section
  Paths :: paths_section
  Display :: display_section
  LBU :: lbu_section
  OAuth :: oauth_section
  Security2 :: security2_section
  Mail :: mail_section
  HTTP3 :: http3_section

datatype settings_file = SettingsUnreadable | SettingsBadYAML | SettingsYAML settings

datatype settings_error = ReadError | YAMLError

definition default_string :: "string \<Rightarrow> string \<Rightarrow> string" where
  "default_string d s = (if s = [] then d else s)"

definition default_int :: "int \<Rightarrow> int \<Rightarrow> int" where
  "default_int d n = (if n \<le> 0 then d else n)"

text \<open>
  \<open>LoadSettings\<close>. A boolean that is absent from the file and one that is \<open>false\<close> decode alike:
  the last display default therefore overrides an explicit \<open>lbu_status: false\<close>.
\<close>

definition LoadSettings :: "settings_file \<Rightarrow> settings_error + settings" where
  "LoadSettings f =
     (case f of
        SettingsUnreadable \<Rightarrow> Inl ReadError
      | SettingsBadYAML \<Rightarrow> Inl YAMLError
      | SettingsYAML s \<Rightarrow>
          Inr (s\<lparr>Paths := (Paths s)\<lparr>UsersFile := default_string ''settings/users.json'' (UsersFile (Paths s)),
                                   LogDir := default_string ''logs'' (LogDir (Paths s))\<rparr>,
                 Theme := default_string ''dark'' (Theme s),
                 LBU := (LBU s)\<lparr>CheckDir := default_string ''/media/usbdisk'' (CheckDir (LBU s)),
                               StatusCmd := default_string ''lbu status'' (StatusCmd (LBU s))\<rparr>,
                 Display := (if \<not> show_LBUStatus (Display s) then (Display s)\<lparr>show_LBUStatus := True\<rparr> else Display s),
                 Security2 := (Security2 s)\<lparr>RateLimitLogin := default_int 5 (RateLimitLogin (Security2 s)),
                                           SessionTimeoutMins := default_int 60 (SessionTimeoutMins (Security2 s))\<rparr>,
                 HTTP3 := (HTTP3 s)\<lparr>http3_Port := default_int 8443 (http3_Port (HTTP3 s))\<rparr>\<rparr>))"

text \<open>\<open>config.go\<close>: the file \<open>config.yaml\<close> holds the OAuth clients by provider.\<close>

type_synonym oauth_clients = "(string \<times> (string \<times> string) list) list"

datatype config_file = ConfigUnreadable | ConfigBadYAML | ConfigYAML oauth_clients

definition LoadConfig :: "config_file \<Rightarrow> settings_error + oauth_clients" where
  "LoadConfig f =
     (case f of ConfigUnreadable \<Rightarrow> Inl ReadError | ConfigBadYAML \<Rightarrow> Inl YAMLError | ConfigYAML c \<Rightarrow> Inr c)"

definition zero_settings :: settings where
  "zero_settings =
     \<lparr>Theme = [], Security = \<lparr>CSRFSecret = [], JWTSecret = []\<rparr>,
      Paths = \<lparr>UsersFile = [], LogDir = [], LBUOverlay = [], LBUCommitLog = []\<rparr>,
      Display = \<lparr>show_CPU = False, show_Memory = False, show_Disk = False, show_Network = False,
        show_XenStatus = False, show_LBUStatus = False\<rparr>,
      LBU = \<lparr>lbu_Enabled = False, CheckDir = [], StatusCmd = [], AutoDetect = False\<rparr>,
      OAuth = \<lparr>oauth_Enabled = False, AllowedDomains = [], AutoCreate = False\<rparr>,
      Security2 = \<lparr>RateLimitLogin = 0, RateLimitAPI = 0, SessionTimeoutMins = 0, HTTPS = False, TrustedOrigins = []\<rparr>,
      Mail = \<lparr>mail_Enabled = False, mail_Host = [], mail_Port = 0, mail_Username = [], mail_Password = [],
        mail_From = [], SendmailPath = []\<rparr>,
      HTTP3 = \<lparr>http3_Enabled = False, CertFile = [], KeyFile = [], http3_Port = 0, RedirectHTTP = False\<rparr>\<rparr>"

section \<open>Facts\<close>

lemma LoadSettings_limits:
  "LoadSettings f = Inr s \<Longrightarrow>
     0 < RateLimitLogin (Security2 s) \<and> 0 < SessionTimeoutMins (Security2 s) \<and> 0 < http3_Port (HTTP3 s)"
  by (auto simp: LoadSettings_def default_int_def split: settings_file.splits)

lemma LoadSettings_lbu_status: "LoadSettings f = Inr s \<Longrightarrow> show_LBUStatus (Display s)"
  by (auto simp: LoadSettings_def split: settings_file.splits)

lemma LoadSettings_secrets: "LoadSettings (SettingsYAML s) = Inr s' \<Longrightarrow> Security s' = Security s"
  by (auto simp: LoadSettings_def)

end
