(* ===== verification/Mailer.thy ===== *)
theory Mailer
  imports Settings Users
begin

text \<open>
  The login notification, \<open>backend/auth/mailer.go\<close>. A notification is handed to
  \<open>sendmail -t -i\<close>, which takes the recipients from the headers of the message. The message is
  built here as the code builds it; running the program is an output.
\<close>

record mailer =
  mailer_enabled :: bool
  mailer_from :: string
  sendmail :: string

record notification =
  mail_to :: string
  mail_user :: string
  mail_ip :: string
  mail_ts :: int

definition NewMailer :: "settings \<Rightarrow> mailer" where
  "NewMailer st =
     (let m = Mail st;
          from = (if trim_space (mail_From m) = [] then trim_space (mail_Username m) else trim_space (mail_From m));
          sendmailPath = (if trim_space (SendmailPath m) = [] then ''/usr/sbin/sendmail'' else trim_space (SendmailPath m))
      in \<lparr>mailer_enabled = mail_Enabled m, mailer_from = from, sendmail = sendmailPath\<rparr>)"

text \<open>\<open>Enabled\<close> of a possibly nil mailer.\<close>

definition mailer_Enabled :: "mailer option \<Rightarrow> bool" where
  "mailer_Enabled om = (case om of None \<Rightarrow> False | Some m \<Rightarrow> mailer_enabled m \<and> mailer_from m \<noteq> [])"

definition SendLoginNotification ::
  "mailer option \<Rightarrow> string \<Rightarrow> string \<Rightarrow> string \<Rightarrow> int \<Rightarrow> notification list \<Rightarrow> notification list" where
  "SendLoginNotification om to username ip ts sent =
     (if \<not> mailer_Enabled om \<or> trim_space to = [] then sent
      else \<lparr>mail_to = to, mail_user = username, mail_ip = ip, mail_ts = ts\<rparr> # sent)"

definition crlf :: string where
  "crlf = [CHR 0x0D, CHR 0x0A]"

text \<open>
  The message \<open>sendLoginNotification\<close> writes. The headers are ranged over as a Go map, in the
  order \<open>order\<close>; \<open>stamp\<close> is the formatted time.
\<close>

definition mail_headers :: "mailer \<Rightarrow> string \<Rightarrow> string \<Rightarrow> string" where
  "mail_headers m to k =
     (if k = ''From'' then mailer_from m else if k = ''To'' then to
      else if k = ''Subject'' then ''UnyPort login notification''
      else if k = ''Mime-Version'' then ''1.0'' else ''text/plain; charset=utf-8'')"

definition mail_header_names :: "string list" where
  "mail_header_names = [''From'', ''To'', ''Subject'', ''Mime-Version'', ''Content-Type'']"

definition mail_body :: "string \<Rightarrow> string \<Rightarrow> string \<Rightarrow> string \<Rightarrow> string" where
  "mail_body to username ip stamp =
     join crlf
       [''UnyPort login detected.'', [], ''Username: '' @ username, ''Email: '' @ to, ''IP: '' @ ip,
        ''Timestamp: '' @ stamp, [], ''If this was not you, change your password immediately.'']"

definition mail_message :: "string list \<Rightarrow> mailer \<Rightarrow> string \<Rightarrow> string \<Rightarrow> string \<Rightarrow> string \<Rightarrow> string" where
  "mail_message order m to username ip stamp =
     concat (map (\<lambda>k. k @ '': '' @ mail_headers m to k @ crlf) order) @ crlf @
     mail_body to username ip stamp @ crlf"

text \<open>The command line: the message goes to its standard input.\<close>

definition mail_command :: "mailer \<Rightarrow> string list" where
  "mail_command m = [sendmail m, ''-t'', ''-i'']"

text \<open>\<open>mailSendError.Error\<close> of an error with the trimmed output of the program.\<close>

definition mail_send_error :: "string \<Rightarrow> string \<Rightarrow> string" where
  "mail_send_error err out = (if out = [] then err else err @ '': '' @ trim_space out)"

section \<open>Properties\<close>

lemma takeWhile_split:
  "k \<in> set order \<Longrightarrow> \<exists>rest. order = takeWhile (\<lambda>x. x \<noteq> k) order @ k # rest"
  by (induction order) auto

text \<open>
  The recipient header of a notification is not protected against line breaks: for every
  address \<open>v\<close> that the profile check accepts, the check also accepts the email that consists of a
  prefix, a line break and \<open>bcc: v\<close>, and the message sent for a login with that email has the line
  \<open>bcc: v\<close> among its headers: it follows the headers written before \<open>To\<close> and the line \<open>To: w\<close>.
\<close>

theorem recipient_injection:
  assumes "looksLikeEmail v" and "CHR ''@'' \<notin> set w" and "''To'' \<in> set order"
  shows "looksLikeEmail (w @ crlf @ ''bcc: '' @ v) \<and>
    (\<exists>post. mail_message order m (w @ crlf @ ''bcc: '' @ v) username ip stamp =
       concat (map (\<lambda>k. k @ '': '' @ mail_headers m [] k @ crlf) (takeWhile (\<lambda>k. k \<noteq> ''To'') order)) @
       ''To: '' @ w @ crlf @ ''bcc: '' @ v @ crlf @ post)"
proof
  let ?p = "w @ crlf @ ''bcc: ''"
  have n: "CHR ''@'' \<notin> set ?p" using assms(2) by (simp add: crlf_def)
  obtain a b where ab: "split_on CHR ''@'' v = a # b" by (metis list.exhaust split_on_not_Nil)
  have sp: "split_on CHR ''@'' (?p @ v) = (?p @ a) # b"
  proof -
    have "\<And>q. CHR ''@'' \<notin> set q \<Longrightarrow> split_on CHR ''@'' (q @ v) = (q @ a) # b"
      subgoal for q by (induction q) (use ab in auto)
      done
    with n show ?thesis by blast
  qed
  have len: "length (split_on CHR ''@'' v) = 2"
    using assms(1) by (simp add: looksLikeEmail_def length_split_on)
  then obtain c where "b = [c]" using ab by (cases b) auto
  then have "looksLikeEmail (?p @ v)"
    using assms(1) n sp ab by (simp add: looksLikeEmail_def Let_def count_notin)
  then show "looksLikeEmail (w @ crlf @ ''bcc: '' @ v)" by simp
  let ?to = "w @ crlf @ ''bcc: '' @ v"
  obtain rest where r: "order = takeWhile (\<lambda>x. x \<noteq> ''To'') order @ ''To'' # rest"
    using takeWhile_split [OF assms(3)] by blast
  define F where "F t = (\<lambda>k. k @ '': '' @ mail_headers m t k @ crlf)" for t
  have p: "map (F ?to) (takeWhile (\<lambda>k. k \<noteq> ''To'') order) = map (F []) (takeWhile (\<lambda>k. k \<noteq> ''To'') order)"
    by (rule map_cong [OF refl]) (auto simp: F_def mail_headers_def dest: set_takeWhileD)
  have "concat (map (F ?to) order) =
      concat (map (F []) (takeWhile (\<lambda>k. k \<noteq> ''To'') order)) @ F ?to ''To'' @ concat (map (F ?to) rest)"
    by (subst r) (simp only: map_append list.map concat_append concat.simps p)
  moreover have "F ?to ''To'' = ''To: '' @ ?to @ crlf" by (simp add: F_def mail_headers_def)
  ultimately show "\<exists>post. mail_message order m ?to username ip stamp =
       concat (map (\<lambda>k. k @ '': '' @ mail_headers m [] k @ crlf) (takeWhile (\<lambda>k. k \<noteq> ''To'') order)) @
       ''To: '' @ w @ crlf @ ''bcc: '' @ v @ crlf @ post"
    unfolding mail_message_def F_def [symmetric] by auto
qed

theorem recipient_injection_witness:
  "looksLikeEmail (''x'' @ crlf @ ''bcc: '' @ ''victim@y.org'') \<and>
    (\<exists>post. mail_message mail_header_names (NewMailer zero_settings) (''x'' @ crlf @ ''bcc: '' @ ''victim@y.org'')
        ''x'' ''10.0.0.9'' ''now'' =
       ''From: '' @ crlf @ ''To: '' @ ''x'' @ crlf @ ''bcc: '' @ ''victim@y.org'' @ crlf @ post)"
proof -
  have v: "looksLikeEmail ''victim@y.org''" by code_simp
  have w: "CHR ''@'' \<notin> set ''x''" by simp
  have o: "''To'' \<in> set mail_header_names" by (simp add: mail_header_names_def)
  show ?thesis
    using recipient_injection [OF v w o, of "NewMailer zero_settings" "''x''" "''10.0.0.9''" "''now''"]
    by (simp add: mail_header_names_def mail_headers_def NewMailer_def zero_settings_def Let_def)
qed

end
