(* ===== verification/PublicVersion.thy ===== *)
theory PublicVersion
  imports Http
begin

text \<open>
  The public version endpoint of \<open>backend/server/routes.go\<close>: the comparison of dotted versions and the
  cache in front of the release lookup. The answer of the release server is an input.
\<close>

definition Version :: string where
  "Version = ''0.62.1''"

definition part_value :: "string list \<Rightarrow> nat \<Rightarrow> int" where
  "part_value ps i = (if i < length ps then sscanf_d (ps ! i) else 0)"

fun compare_from :: "nat \<Rightarrow> nat \<Rightarrow> string list \<Rightarrow> string list \<Rightarrow> int" where
  "compare_from i 0 as bs = 0"
| "compare_from i (Suc n) as bs =
     (if part_value bs i < part_value as i then 1
      else if part_value as i < part_value bs i then -1
      else compare_from (Suc i) n as bs)"

definition compareDotVersions :: "string \<Rightarrow> string \<Rightarrow> int" where
  "compareDotVersions a b = compare_from 0 3 (split_on CHR ''.'' a) (split_on CHR ''.'' b)"

text \<open>The cache; \<open>rc_checked\<close> is \<open>None\<close> for the zero time.\<close>

record release_cache =
  rc_checked :: "int option"
  rc_latest :: string

definition empty_release_cache :: release_cache where
  "empty_release_cache = \<lparr>rc_checked = None, rc_latest = []\<rparr>"

text \<open>What the release server answers: nothing, or a status and a body.\<close>

datatype release_reply = NoReply | Reply nat body

definition release_ttl :: int where
  "release_ttl = 10 * 60 * 1000000000"

definition latestUnyPortRelease :: "int \<Rightarrow> release_reply \<Rightarrow> release_cache \<Rightarrow> string \<times> release_cache" where
  "latestUnyPortRelease now reply c =
     (if rc_latest c \<noteq> [] \<and> (case rc_checked c of None \<Rightarrow> False | Some t \<Rightarrow> now - t < release_ttl)
      then (rc_latest c, c)
      else
        let c = c\<lparr>rc_checked := Some now\<rparr>
        in case reply of
             NoReply \<Rightarrow> (rc_latest c, c)
           | Reply code b \<Rightarrow>
               if code < 200 \<or> 299 < code then (rc_latest c, c)
               else case decode_first [(''tag_name'', KStr)] b of
                 None \<Rightarrow> (rc_latest c, c)
               | Some d \<Rightarrow>
                   let tag = str_field d [''tag_name''];
                       c = (if tag \<noteq> [] then c\<lparr>rc_latest := trim_prefix tag ''v''\<rparr> else c)
                   in (rc_latest c, c))"

definition publicVersionHandler :: "int \<Rightarrow> release_reply \<Rightarrow> request \<Rightarrow> release_cache \<Rightarrow> response \<times> release_cache" where
  "publicVersionHandler now reply r c =
     (case latestUnyPortRelease now reply c of (latest, c') \<Rightarrow>
        (with_header ''Cache-Control'' ''no-store''
           (json_response 200
              (JObj [(''latest'', JStr latest),
                     (''up_to_date'', JBool (latest = [] \<or>
                        0 \<le> compareDotVersions (trim_prefix Version ''v'') (trim_prefix latest ''v''))),
                     (''version'', JStr Version)])), c'))"

text \<open>The other cache of released versions, which the broker keeps (\<open>sse/broker.go\<close>).\<close>

record versions_cache =
  versionsKernel :: string
  versionsAlpine :: string
  versionsChecked :: "int option"     \<comment> \<open>\<open>None\<close>: the zero time\<close>

definition empty_versions :: versions_cache where
  "empty_versions = \<lparr>versionsKernel = [], versionsAlpine = [], versionsChecked = None\<rparr>"

section \<open>Facts\<close>

text \<open>The order on versions, as a specification: the first three parts, lexicographically.\<close>

definition version_key :: "string \<Rightarrow> int list" where
  "version_key v = map (part_value (split_on CHR ''.'' v)) [0, 1, 2]"

fun lex_sign :: "int list \<Rightarrow> int list \<Rightarrow> int" where
  "lex_sign (x # xs) (y # ys) = (if y < x then 1 else if x < y then -1 else lex_sign xs ys)"
| "lex_sign _ _ = 0"

lemma compareDotVersions_lex: "compareDotVersions a b = lex_sign (version_key a) (version_key b)"
  by (simp add: compareDotVersions_def version_key_def numeral_3_eq_3 numeral_2_eq_2)

lemma lex_sign_antisym: "lex_sign xs ys = - lex_sign ys xs"
  by (induction xs ys rule: lex_sign.induct) auto

lemma lex_sign_range: "lex_sign xs ys \<in> {-1, 0, 1}"
  by (induction xs ys rule: lex_sign.induct) auto

lemma lex_sign_zero: "length xs = length ys \<Longrightarrow> lex_sign xs ys = 0 \<longleftrightarrow> xs = ys"
  by (induction xs ys rule: lex_sign.induct) auto

lemma lex_sign_ge: "0 \<le> lex_sign (x # xs) (y # ys) \<longleftrightarrow> y < x \<or> (x = y \<and> 0 \<le> lex_sign xs ys)"
  by auto

lemma lex_sign_trans:
  "length xs = length ys \<Longrightarrow> length ys = length zs \<Longrightarrow> 0 \<le> lex_sign xs ys \<Longrightarrow> 0 \<le> lex_sign ys zs \<Longrightarrow> 0 \<le> lex_sign xs zs"
proof (induction xs arbitrary: ys zs)
  case (Cons x xs)
  obtain y ys' where ys: "ys = y # ys'" using Cons.prems(1) by (cases ys) auto
  obtain z zs' where zs: "zs = z # zs'" using Cons.prems(2) ys by (cases zs) auto
  have "0 \<le> lex_sign xs ys' \<Longrightarrow> 0 \<le> lex_sign ys' zs' \<Longrightarrow> 0 \<le> lex_sign xs zs'"
    using Cons.IH [of ys' zs'] Cons.prems(1,2) ys zs by simp
  with Cons.prems(3,4) show ?case unfolding ys zs lex_sign_ge by fastforce
qed simp

lemma length_version_key [simp]: "length (version_key v) = 3"
  by (simp add: version_key_def)

lemma release_cache_fresh:
  "rc_latest c \<noteq> [] \<Longrightarrow> rc_checked c = Some t \<Longrightarrow> now - t < release_ttl \<Longrightarrow>
     latestUnyPortRelease now reply c = (rc_latest c, c)"
  by (simp add: latestUnyPortRelease_def)

section \<open>Properties\<close>

text \<open>
  Version comparison is a total preorder on what it looks at: its sign is antisymmetric, it
  is transitive, and it reports equality exactly for versions whose first three numeric parts agree.
\<close>

theorem version_order:
  assumes "0 \<le> compareDotVersions a b" and "0 \<le> compareDotVersions b c"
  shows "0 \<le> compareDotVersions a c \<and> compareDotVersions b a = - compareDotVersions a b \<and>
    (compareDotVersions a b = 0 \<longleftrightarrow> version_key a = version_key b)"
  using assms lex_sign_trans [of "version_key a" "version_key b" "version_key c"]
    lex_sign_antisym [of "version_key a" "version_key b"] lex_sign_zero [of "version_key a" "version_key b"]
  by (simp add: compareDotVersions_lex)

theorem version_order_witness:
  "0 \<le> compareDotVersions ''0.62.10'' ''0.62.9-rc1'' \<and> 0 \<le> compareDotVersions ''0.62.10'' ''0.62'' \<and>
     compareDotVersions ''0.62.9-rc1'' ''0.62.10'' = - compareDotVersions ''0.62.10'' ''0.62.9-rc1''"
proof -
  have "0 \<le> compareDotVersions ''0.62.10'' ''0.62.9-rc1''" "0 \<le> compareDotVersions ''0.62.9-rc1'' ''0.62''" by code_simp+
  from version_order [OF this] this(1) show ?thesis by simp
qed

end
