(* ===== verification/SessionAuth.thy ===== *)
theory SessionAuth
  imports Jwt Branding RateLimit Mailer PublicVersion
begin

text \<open>
  The session middleware, \<open>backend/middleware/auth.go\<close>, over the state of the server. It also
  holds the two records every later theory shares: \<open>world\<close>, the state handlers read and write,
  and \<open>env\<close>, what the environment decides for one request (the time, the outcome of system
  calls and of third-party code, the random bytes).
\<close>

section \<open>The state and the environment of a request\<close>

record world =
  w_store :: user_store
  w_branding :: branding_store
  w_limiter :: rate_limiter
  w_mails :: "notification list"
  w_release :: release_cache
  w_xl :: "string list list"  \<comment> \<open>the \<open>xl\<close> commands run for requests so far, latest first\<close>
  w_versions :: versions_cache
  w_warns :: "string list"    \<comment> \<open>the warnings logged by the broker's handlers, latest first\<close>

record env =
  e_now :: int
  e_gen :: "string \<Rightarrow> string option"              \<comment> \<open>\<open>bcrypt.GenerateFromPassword\<close>\<close>
  e_cmp :: "string \<Rightarrow> string \<Rightarrow> bool"            \<comment> \<open>\<open>bcrypt.CompareHashAndPassword\<close> returns nil\<close>
  e_save :: save_io
  e_err :: string                                   \<comment> \<open>the text of an error of the system or of bcrypt\<close>
  e_lib :: jwt_lib
  e_jwt :: jwt_service
  e_mailer :: "mailer option"
  e_canon_ip :: "string \<Rightarrow> string option"
  e_order :: "string list"                          \<comment> \<open>the order of a range over the user map\<close>
  e_color_order :: "string list"
  e_branding_write :: bool
  e_date :: "int \<Rightarrow> string"                       \<comment> \<open>\<open>time.Format("2006-01-02")\<close>\<close>
  e_hmac :: "string \<Rightarrow> string \<Rightarrow> string"         \<comment> \<open>HMAC-SHA256\<close>
  e_release :: release_reply                        \<comment> \<open>the answer of the release server\<close>
  e_nonce :: "string option"                        \<comment> \<open>\<open>crypto/rand.Read\<close>\<close>

section \<open>The middleware\<close>

definition isSSERequest :: "request \<Rightarrow> bool" where
  "isSSERequest r \<longleftrightarrow> has_prefix (path r) ''/sse/''"

definition isHTMLRequest :: "request \<Rightarrow> bool" where
  "isHTMLRequest r =
     (if req_method r \<noteq> ''GET'' then False
      else let accept = to_lower (header r ''Accept'')
           in contains accept ''text/html'' \<or>
              (\<not> contains accept ''application/json'' \<and>
               to_lower (header r ''X-Requested-With'') \<noteq> ''xmlhttprequest''))"

definition unauthorized :: response where
  "unauthorized = jsonError ''unauthorized'' 401"

definition refuse :: "request \<Rightarrow> response" where
  "refuse r =
     (if isSSERequest r then respond 204 NoContent
      else if isHTMLRequest r then redirect ''/'' 302
      else unauthorized)"

definition Auth :: "env \<Rightarrow> world middleware" where
  "Auth e next_h r w =
     (case FromRequest (e_lib e) (e_jwt e) (e_now e) r of
        Inl _ \<Rightarrow> (refuse r, w)
      | Inr c \<Rightarrow>
          (case Find (w_store w) (UserID c) of
             Inl _ \<Rightarrow> (with_cookie (ClearCookie (e_jwt e)) (refuse r), w)
           | Inr u \<Rightarrow> next_h (r\<lparr>ctx_user := Some (Email u), ctx_role := Some (Role u)\<rparr>) w))"

definition UserEmailFromCtx :: "request \<Rightarrow> string" where
  "UserEmailFromCtx r = (case ctx_user r of None \<Rightarrow> [] | Some v \<Rightarrow> v)"

definition UserRoleFromCtx :: "request \<Rightarrow> string" where
  "UserRoleFromCtx r = (case ctx_role r of None \<Rightarrow> [] | Some v \<Rightarrow> v)"

definition RequireRole :: "string list \<Rightarrow> world middleware" where
  "RequireRole roles next_h r w =
     (if UserRoleFromCtx r \<notin> set roles then (jsonError ''forbidden'' 403, w) else next_h r w)"

section \<open>Who a request is\<close>

text \<open>The identity the middleware puts in the context, from a lookup and the claimed user.\<close>

definition session_user :: "(string \<Rightarrow> user option) \<Rightarrow> string \<Rightarrow> (string \<times> string) option" where
  "session_user look uid = map_option (\<lambda>u. (Email u, Role u)) (look uid)"

text \<open>The identity of a request in a state: \<open>None\<close> for a request the middleware turns away.\<close>

definition identity :: "env \<Rightarrow> world \<Rightarrow> request \<Rightarrow> (string \<times> string) option" where
  "identity e w r =
     (case FromRequest (e_lib e) (e_jwt e) (e_now e) r of
        Inl _ \<Rightarrow> None | Inr c \<Rightarrow> session_user (lookup (w_store w)) (UserID c))"

definition with_identity :: "string \<times> string \<Rightarrow> request \<Rightarrow> request" where
  "with_identity i r = r\<lparr>ctx_user := Some (fst i), ctx_role := Some (snd i)\<rparr>"

lemma with_identity_simps [simp]:
  "UserEmailFromCtx (with_identity i r) = fst i" "UserRoleFromCtx (with_identity i r) = snd i"
  "req_method (with_identity i r) = req_method r" "path (with_identity i r) = path r"
  "body_of (with_identity i r) = body_of r" "query (with_identity i r) = query r"
  "headers (with_identity i r) = headers r" "remote (with_identity i r) = remote r"
  "cookies (with_identity i r) = cookies r"
  by (simp_all add: with_identity_def UserEmailFromCtx_def UserRoleFromCtx_def)

lemma Auth_identity:
  "Auth e next_h r w =
     (case identity e w r of
        Some i \<Rightarrow> next_h (with_identity i r) w
      | None \<Rightarrow>
          ((case FromRequest (e_lib e) (e_jwt e) (e_now e) r of
              Inl _ \<Rightarrow> refuse r | Inr _ \<Rightarrow> with_cookie (ClearCookie (e_jwt e)) (refuse r)), w))"
  by (auto simp: Auth_def identity_def session_user_def with_identity_def Find_lookup
      split: sum.splits option.splits)

lemma Auth_refused_state: "identity e w r = None \<Longrightarrow> snd (Auth e next_h r w) = w"
  by (simp add: Auth_identity)

lemma Auth_allowed: "identity e w r = Some i \<Longrightarrow> Auth e next_h r w = next_h (with_identity i r) w"
  by (simp add: Auth_identity)

lemma status_refuse: "status (refuse r) \<in> {204, 302, 401}"
  by (simp add: refuse_def unauthorized_def)

lemma identity_role: "identity e w r = Some (em, ro) \<Longrightarrow> ValidRoles ro"
  by (auto simp: identity_def session_user_def split: sum.splits)

lemma identity_stored:
  "identity e w r = Some (em, ro) \<Longrightarrow> store_inv (w_store w) \<Longrightarrow>
     \<exists>u. lookup (w_store w) em = Some u \<and> Email u = em \<and> Role u = ro \<and> normalizeEmail em = em"
  by (auto simp: identity_def session_user_def lookup_eq store_inv_def split: sum.splits
      dest: map_inv_Some)

text \<open>
  Clients of the directory: what a change of the directory does to the sessions of a user. The
  facts are stated over the interface, and hold for the store through its interpretation.
\<close>

context user_directory
begin

lemma removed_session:
  "normalizeEmail uid = normalizeEmail e \<Longrightarrow> session_user (find (remove e s)) uid = None"
  by (simp add: session_user_def find_remove)

lemma assigned_session:
  "ValidRoles r \<Longrightarrow> normalizeEmail uid = normalizeEmail e \<Longrightarrow>
     session_user (find (assign e r s)) uid = map_option (\<lambda>(em, _). (em, r)) (session_user (find s) uid)"
  by (auto simp: session_user_def find_assign Role_single option.map_comp comp_def)

lemma other_session:
  "normalizeEmail uid \<noteq> normalizeEmail e \<Longrightarrow>
     session_user (find (remove e s)) uid = session_user (find s) uid \<and>
     (ValidRoles r \<longrightarrow> session_user (find (assign e r s)) uid = session_user (find s) uid)"
  by (simp add: session_user_def find_remove find_assign)

lemma removed_stays_out:
  "normalizeEmail uid = normalizeEmail e \<Longrightarrow> \<forall>(e', r) \<in> set ops. ValidRoles r \<Longrightarrow>
     session_user (find (fold (\<lambda>(e', r). assign e' r) ops (remove e s))) uid = None"
proof -
  assume uid: "normalizeEmail uid = normalizeEmail e" and ops: "\<forall>(e', r) \<in> set ops. ValidRoles r"
  have "find s' uid = None \<Longrightarrow> find (fold (\<lambda>(e', r). assign e' r) ops s') uid = None" for s'
    using ops by (induction ops arbitrary: s') (auto simp: find_assign)
  with uid show ?thesis by (simp add: session_user_def find_remove)
qed

end

section \<open>A concrete server for the witnesses\<close>

definition demo_claims :: "string \<Rightarrow> string \<Rightarrow> claims" where
  "demo_claims uid role = issue_claims toy_service 0 uid role"

definition demo_env :: "claims \<Rightarrow> env" where
  "demo_env c =
     \<lparr>e_now = minute, e_gen = toy_gen, e_cmp = toy_cmp, e_save = SaveOk, e_err = ''system error'', e_lib = toy_lib c,
      e_jwt = toy_service, e_mailer = None, e_canon_ip = Some, e_order = [''ann@x.io'', ''bob@x.io''],
      e_color_order = [], e_branding_write = True, e_date = (\<lambda>_. ''1970-01-01''),
      e_hmac = (\<lambda>k m. k @ m), e_release = NoReply, e_nonce = Some (replicate 32 CHR ''n'')\<rparr>"

definition demo_world :: world where
  "demo_world =
     \<lparr>w_store = demo_store, w_branding = \<lparr>current = zero_branding, branding_file = NoBrandingFile\<rparr>, w_limiter = NewLoginRateLimiter 5,
      w_mails = [], w_release = empty_release_cache, w_xl = [],
      w_versions = empty_versions, w_warns = []\<rparr>"

definition with_token :: "request \<Rightarrow> request" where
  "with_token r = r\<lparr>cookies := [(cookieName, ''tok'')]\<rparr>"

lemma demo_token:
  "uid \<noteq> [] \<Longrightarrow>
     FromRequest (e_lib (demo_env (demo_claims uid role))) (e_jwt (demo_env (demo_claims uid role)))
       (e_now (demo_env (demo_claims uid role))) (with_token r) = Inr (demo_claims uid role)"
  by (simp add: demo_env_def FromRequest_def cookie_def with_token_def Parse_def toy_lib_def demo_claims_def
      issue_claims_def claims_live_def NumericDate_def toy_service_def hour_def minute_def second_def)

lemma demo_claims_simps [simp]: "UserID (demo_claims uid role) = uid" "claim_role (demo_claims uid role) = role"
  by (simp_all add: demo_claims_def issue_claims_def)

section \<open>Properties\<close>

lemma Auth_known:
  "FromRequest (e_lib e) (e_jwt e) (e_now e) r = Inr c \<Longrightarrow>
     Auth e next_h r w =
       (case session_user (lookup (w_store w)) (UserID c) of
          Some i \<Rightarrow> next_h (with_identity i r) w
        | None \<Rightarrow> (with_cookie (ClearCookie (e_jwt e)) (refuse r), w))"
  by (auto simp: Auth_identity identity_def split: option.splits)

text \<open>
  C1. Deleting a user ends its sessions at once: a request that still carries a valid token of the
  deleted user, under any spelling of the email, is refused with the cookie cleared, and no
  handler behind the middleware runs, whatever became of the file and whatever roles were
  assigned to anyone since.
\<close>

theorem deletion_ends_sessions:
  assumes "FromRequest (e_lib e) (e_jwt e) (e_now e) r = Inr c"
    and "normalizeEmail (UserID c) = normalizeEmail email"
    and "w_store w = fold (\<lambda>(em, ro) s. fst (SetRole io' em ro s)) roles (fst (Delete io email s0))"
    and "\<forall>(em, ro) \<in> set roles. ValidRoles ro"
  shows "Auth e next_h r w = (with_cookie (ClearCookie (e_jwt e)) (refuse r), w)"
proof -
  have f: "(\<lambda>(em, ro) s. fst (SetRole io' em ro s)) = (\<lambda>(em, ro). \<lambda>s. fst (SetRole io' em ro s))" ..
  have "session_user (lookup (fold (\<lambda>(em, ro). \<lambda>s. fst (SetRole io' em ro s)) roles s)) (UserID c) = None"
    if "session_user (lookup s) (UserID c) = None" for s
    using that assms(4)
  proof (induction roles arbitrary: s)
    case (Cons p roles)
    then show ?case by (cases p) (auto simp: session_user_def store.find_assign)
  qed simp
  with store.removed_session [OF assms(2), of io s0] assms(1,3) show ?thesis
    by (simp add: Auth_known)
qed

theorem deletion_ends_sessions_witness:
  "Auth (demo_env (demo_claims ''bob@x.io'' ''viewer'')) (\<lambda>r w. (jsonOK, w))
     (with_token (base_request ''GET'' ''/api/xl/list''))
     (demo_world\<lparr>w_store := fst (SetRole SaveOk ''ann@x.io'' ''operator'' (fst (Delete RenameErr '' Bob@X.io'' demo_store)))\<rparr>) =
   (with_cookie (ClearCookie toy_service) (redirect ''/'' 302),
    demo_world\<lparr>w_store := fst (SetRole SaveOk ''ann@x.io'' ''operator'' (fst (Delete RenameErr '' Bob@X.io'' demo_store)))\<rparr>)"
proof -
  let ?r = "with_token (base_request ''GET'' ''/api/xl/list'')"
  have e: "normalizeEmail (UserID (demo_claims ''bob@x.io'' ''viewer'')) = normalizeEmail '' Bob@X.io''"
    by simp code_simp
  have ne: "''bob@x.io'' \<noteq> []" by simp
  have f: "refuse ?r = redirect ''/'' 302" by code_simp
  have j: "e_jwt (demo_env c) = toy_service" for c by (simp add: demo_env_def)
  show ?thesis
    using deletion_ends_sessions [OF demo_token [OF ne] e, of _ SaveOk "[(''ann@x.io'', ''operator'')]" RenameErr demo_store]
    by (simp add: f j ValidRoles_def)
qed

text \<open>
  What a session may do follows the role in the store, not the role in its token: behind
  \<open>Auth\<close> and \<open>RequireRole\<close>, once a role has been assigned to a user, the requests of the user's
  running sessions reach the handler iff the new role is allowed, and are answered 403 without
  effect otherwise, whatever role the token claims.
\<close>

theorem role_change_effective:
  assumes "FromRequest (e_lib e) (e_jwt e) (e_now e) r = Inr c"
    and "Find s (UserID c) = Inr u"
    and "ValidRoles ro" and "normalizeEmail (UserID c) = normalizeEmail email"
    and "w_store w = fst (SetRole io email ro s)"
  shows "Auth e (RequireRole allowed next_h) r w =
    (if ro \<in> set allowed then next_h (with_identity (Email u, ro) r) w
     else (jsonError ''forbidden'' 403, w))"
proof -
  have "lookup s (UserID c) = Some u" using assms(2) by (simp add: lookup_def)
  then have "session_user (lookup (w_store w)) (UserID c) = Some (Email u, ro)"
    using store.assigned_session [OF assms(3,4), of io s] assms(5) by (simp add: session_user_def)
  then show ?thesis by (simp add: Auth_known [OF assms(1)] RequireRole_def)
qed

theorem role_change_effective_witness:
  "Auth (demo_env (demo_claims ''ann@x.io'' ''admin'')) (RequireRole [''admin''] (\<lambda>r w. (jsonOK, w)))
     (with_token (base_request ''GET'' ''/api/admin/users''))
     (demo_world\<lparr>w_store := fst (SetRole SaveOk ''ann@x.io'' ''viewer'' demo_store)\<rparr>) =
   (jsonError ''forbidden'' 403, demo_world\<lparr>w_store := fst (SetRole SaveOk ''ann@x.io'' ''viewer'' demo_store)\<rparr>)"
proof -
  have f: "Find demo_store (UserID (demo_claims ''ann@x.io'' ''admin'')) = Inr ann"
    by (simp add: Find_def demo_store_def)
  have ne: "''ann@x.io'' \<noteq> []" by simp
  have v: "ValidRoles ''viewer''" by (simp add: ValidRoles_def)
  have e: "normalizeEmail (UserID (demo_claims ''ann@x.io'' ''admin'')) = normalizeEmail ''ann@x.io''" by simp
  show ?thesis
    using role_change_effective [OF demo_token [OF ne] f v e, of _ SaveOk "[''admin'']"] by simp
qed

end
