(* ===== verification/AuthHandlers.thy ===== *)
theory AuthHandlers
  imports SessionAuth
begin

text \<open>
  The handlers of \<open>backend/auth/handlers.go\<close>: login and session, the profile of the user who is
  logged in, the administration of users, and the branding endpoints. A handler is a function of
  the request and the state, in the order of the code: method, context, body, operation, answer.
\<close>

section \<open>Error texts\<close>

definition store_msg :: "string \<Rightarrow> store_error \<Rightarrow> string" where
  "store_msg sys x =
     (case x of
        UserNotFound \<Rightarrow> ''user not found'' | EmailRequired \<Rightarrow> ''email required''
      | UserExists \<Rightarrow> ''user already exists''
      | PasswordTooShort \<Rightarrow> ''mot de passe trop court (8 caract'' @ [CHR 0xC3, CHR 0xA8] @ ''res minimum)''
      | EmailInvalid \<Rightarrow> ''email invalid'' | EmailExists \<Rightarrow> ''email already exists''
      | AvatarTooLong \<Rightarrow> ''avatar: 2 caract'' @ [CHR 0xC3, CHR 0xA8] @ ''res maximum''
      | PhotoTooLarge \<Rightarrow> ''photo: taille maximale 2 Mo''
      | PhotoScheme \<Rightarrow> ''photo: URL https ou data URI image requis''
      | WrongPassword \<Rightarrow> ''mot de passe actuel incorrect''
      | InvalidRole \<Rightarrow> ''r'' @ [CHR 0xC3, CHR 0xB4] @ ''le invalide (admin|operator|viewer)''
      | _ \<Rightarrow> sys)"

definition branding_msg :: "string \<Rightarrow> branding_error \<Rightarrow> string" where
  "branding_msg sys x =
     (case x of
        LogoTooLarge \<Rightarrow> ''logo: taille maximale 2 Mo''
      | LogoNotImage \<Rightarrow> ''logo: data URI image requis (data:image/...)''
      | LogoMalformed \<Rightarrow> ''logo: data URI malform'' @ [CHR 0xC3, CHR 0xA9]
      | LogoBadBase64 \<Rightarrow> ''logo: base64 invalide''
      | LogoBadURL \<Rightarrow> ''logo_url: URL http/https requise''
      | BadColor n \<Rightarrow> ''color '' @ n @ '': format #rrggbb requis''
      | BrandingIO \<Rightarrow> sys)"

section \<open>Login, logout and session\<close>

definition clientIP :: "request \<Rightarrow> string" where
  "clientIP r =
     (let fwd = trim_space (header r ''X-Forwarded-For''); realIP = trim_space (header r ''X-Real-IP'')
      in if fwd \<noteq> [] then trim_space (takeWhile (\<lambda>c. c \<noteq> CHR '','') fwd)
         else if realIP \<noteq> [] then realIP
         else case split_host_port (remote r) of Some ip \<Rightarrow> ip | None \<Rightarrow> remote r)"

definition login_schema :: schema where
  "login_schema = [(''email'', KStr), (''password'', KStr)]"

definition Login :: "env \<Rightarrow> world handler" where
  "Login e r w =
     (if req_method r \<noteq> ''POST'' then (method_not_allowed, w)
      else case decodeJSON login_schema (body_of r) of
        None \<Rightarrow> (http_error ''bad request'' 400, w)
      | Some d \<Rightarrow>
          let email = trim_space (to_lower (str_field d [''email'']));
              password = str_field d [''password'']
          in if email = [] \<or> password = [] then (http_error ''unauthorized'' 401, w)
             else case Find (w_store w) email of
               Inl _ \<Rightarrow> (http_error ''unauthorized'' 401, w)
             | Inr u \<Rightarrow>
                 if \<not> e_cmp e (Password u) password then (http_error ''unauthorized'' 401, w)
                 else case SetCookie (e_lib e) (e_jwt e) (e_now e) (Email u) (Role u) of
                   Inl _ \<Rightarrow> (http_error ''internal error'' 500, w)
                 | Inr ck \<Rightarrow>
                     (with_cookie ck
                        (json_response 200
                           (JObj [(''default_credentials'', JBool (UsesDefaultCredentials (e_cmp e) u)),
                                  (''email'', JStr (Email u)), (''ok'', JBool True), (''role'', JStr (Role u))])),
                      w\<lparr>w_mails := SendLoginNotification (e_mailer e) (Email u) (EffectiveDisplayName u)
                                    (clientIP r) (e_now e) (w_mails w)\<rparr>))"

definition Logout :: "env \<Rightarrow> world handler" where
  "Logout e r w =
     (if req_method r \<noteq> ''POST'' then (method_not_allowed, w)
      else (with_cookie (ClearCookie (e_jwt e)) jsonOK, w))"

definition Session :: "env \<Rightarrow> world handler" where
  "Session e r w =
     (if req_method r \<noteq> ''GET'' then (method_not_allowed, w)
      else case FromRequest (e_lib e) (e_jwt e) (e_now e) r of
        Inl _ \<Rightarrow> (json_response 200 (JObj [(''ok'', JBool False)]), w)
      | Inr c \<Rightarrow>
          (case Find (w_store w) (UserID c) of
             Inl _ \<Rightarrow> (json_response 200 (JObj [(''ok'', JBool False)]), w)
           | Inr u \<Rightarrow>
               (json_response 200
                  (JObj [(''avatar'', JStr (EffectiveAvatar u)),
                         (''default_credentials'', JBool (UsesDefaultCredentials (e_cmp e) u)),
                         (''display_name'', JStr (EffectiveDisplayName u)), (''email'', JStr (Email u)),
                         (''ok'', JBool True), (''photo_url'', JStr (PhotoURL u)), (''role'', JStr (Role u)),
                         (''ssh_key'', JStr (SSHKey u))]), w)))"

section \<open>The profile of the session's user\<close>

definition Profile :: "env \<Rightarrow> world handler" where
  "Profile e r w =
     (let email = UserEmailFromCtx r
      in if email = [] then (jsonError ''unauthorized'' 401, w)
         else case Find (w_store w) email of
           Inl _ \<Rightarrow> (jsonError ''user not found'' 404, w)
         | Inr u \<Rightarrow>
             (json_response 200
                (JObj [(''avatar'', JStr (EffectiveAvatar u)), (''created_at'', JStr (e_date e (CreatedAt u))),
                       (''default_credentials'', JBool (UsesDefaultCredentials (e_cmp e) u)),
                       (''display_name'', JStr (EffectiveDisplayName u)), (''email'', JStr (Email u)),
                       (''photo_url'', JStr (PhotoURL u)), (''role'', JStr (Role u)),
                       (''ssh_key'', JStr (SSHKey u))]), w))"

definition profile_schema :: schema where
  "profile_schema =
     [(''email'', KStr), (''display_name'', KStr), (''avatar'', KStr), (''photo_url'', KStr), (''ssh_key'', KStr)]"

definition UpdateProfileHandler :: "env \<Rightarrow> world handler" where
  "UpdateProfileHandler e r w =
     (if req_method r \<noteq> ''PATCH'' then (method_not_allowed, w)
      else
        let email = UserEmailFromCtx r
        in if email = [] then (jsonError ''unauthorized'' 401, w)
           else case decodeJSON profile_schema (body_of r) of
             None \<Rightarrow> (jsonError ''bad request'' 400, w)
           | Some d \<Rightarrow>
               let res = UpdateProfile (e_save e) email (trim_space (to_lower (str_field d [''email''])))
                           (trim_space (str_field d [''display_name''])) (trim_space (str_field d [''avatar'']))
                           (trim_space (str_field d [''photo_url''])) (trim_space (str_field d [''ssh_key'']))
                           (w_store w);
                   w' = w\<lparr>w_store := fst res\<rparr>
               in case snd res of
                    Inl x \<Rightarrow> (jsonError (store_msg (e_err e) x) 400, w')
                  | Inr (u, emailChanged) \<Rightarrow>
                      let reply =
                        json_response 200
                          (JObj [(''avatar'', JStr (EffectiveAvatar u)),
                                 (''default_credentials'', JBool (UsesDefaultCredentials (e_cmp e) u)),
                                 (''display_name'', JStr (EffectiveDisplayName u)), (''email'', JStr (Email u)),
                                 (''ok'', JBool True), (''photo_url'', JStr (PhotoURL u)),
                                 (''ssh_key'', JStr (SSHKey u))])
                      in if emailChanged then
                           (case SetCookie (e_lib e) (e_jwt e) (e_now e) (Email u) (Role u) of
                              Inl _ \<Rightarrow> (jsonError ''internal error'' 500, w')
                            | Inr ck \<Rightarrow> (with_cookie ck reply, w'))
                         else (reply, w'))"

definition password_schema :: schema where
  "password_schema = [(''old_password'', KStr), (''new_password'', KStr)]"

definition UpdatePasswordHandler :: "env \<Rightarrow> world handler" where
  "UpdatePasswordHandler e r w =
     (if req_method r \<noteq> ''POST'' then (method_not_allowed, w)
      else
        let email = UserEmailFromCtx r
        in if email = [] then (jsonError ''unauthorized'' 401, w)
           else case decodeJSON password_schema (body_of r) of
             None \<Rightarrow> (jsonError ''bad request'' 400, w)
           | Some d \<Rightarrow>
               let res = UpdatePassword (e_gen e) (e_cmp e) (e_save e) email (str_field d [''old_password''])
                           (str_field d [''new_password'']) (w_store w);
                   w' = w\<lparr>w_store := fst res\<rparr>
               in case snd res of
                    Inl x \<Rightarrow> (jsonError (store_msg (e_err e) x) 400, w')
                  | Inr _ \<Rightarrow> (jsonOK, w'))"

section \<open>Administration of users\<close>

definition adminListUsers :: "env \<Rightarrow> world handler" where
  "adminListUsers e r w =
     (json_response 200
        (JArr (map (\<lambda>u. JObj [(''email'', JStr (Email u)), (''display_name'', JStr (EffectiveDisplayName u)),
                              (''role'', JStr (Role u)), (''avatar'', JStr (EffectiveAvatar u)),
                              (''created_at'', JStr (e_date e (CreatedAt u)))])
                   (ListUsers (e_order e) (w_store w)))), w)"

definition create_schema :: schema where
  "create_schema = [(''email'', KStr), (''password'', KStr), (''role'', KStr)]"

definition adminCreateUser :: "env \<Rightarrow> world handler" where
  "adminCreateUser e r w =
     (case decodeJSON create_schema (body_of r) of
        None \<Rightarrow> (jsonError ''bad request'' 400, w)
      | Some d \<Rightarrow>
          let email = trim_space (to_lower (str_field d [''email'']));
              password = str_field d [''password''];
              role0 = trim_space (to_lower (str_field d [''role'']))
          in if email = [] \<or> password = [] then (jsonError ''email et mot de passe requis'' 400, w)
             else
               let role = (if \<not> ValidRoles role0 then ''viewer'' else role0);
                   u = \<lparr>ID = email, Email = email, Password = password, Roles = [role], DisplayName = [],
                        Avatar = [], PhotoURL = [], SSHKey = [], TwoFA = False, CreatedAt = e_now e\<rparr>;
                   res = Add (e_gen e) (e_save e) u (w_store w);
                   w' = w\<lparr>w_store := fst res\<rparr>
               in case snd res of
                    Inl x \<Rightarrow> (jsonError (store_msg (e_err e) x) 409, w')
                  | Inr _ \<Rightarrow> (json_response 201 (JObj [(''ok'', JBool True)]), w'))"

definition AdminUsers :: "env \<Rightarrow> world handler" where
  "AdminUsers e r w =
     (if req_method r = ''GET'' then adminListUsers e r w
      else if req_method r = ''POST'' then adminCreateUser e r w
      else (method_not_allowed, w))"

definition role_schema :: schema where
  "role_schema = [(''role'', KStr)]"

definition no_self_delete_msg :: string where
  "no_self_delete_msg = ''impossible de supprimer son propre compte''"

definition no_self_demote_msg :: string where
  "no_self_demote_msg =
     ''impossible de se r'' @ [CHR 0xC3, CHR 0xA9] @ ''trograder soi-m'' @ [CHR 0xC3, CHR 0xAA] @ ''me''"

definition AdminUserByEmail :: "env \<Rightarrow> world handler" where
  "AdminUserByEmail e r w =
     (let email = trim_space (to_lower (trim_prefix (path r) ''/api/admin/users/''))
      in if email = [] then (jsonError ''email manquant'' 400, w)
         else
           let caller = UserEmailFromCtx r
           in if req_method r = ''DELETE'' then
                (if email = caller then (jsonError no_self_delete_msg 400, w)
                 else
                   let res = Delete (e_save e) email (w_store w); w' = w\<lparr>w_store := fst res\<rparr>
                   in case snd res of
                        Inl x \<Rightarrow> (jsonError (store_msg (e_err e) x) 404, w')
                      | Inr _ \<Rightarrow> (jsonOK, w'))
              else if req_method r = ''PATCH'' then
                (case decodeJSON role_schema (body_of r) of
                   None \<Rightarrow> (jsonError ''bad request'' 400, w)
                 | Some d \<Rightarrow>
                     let role = trim_space (to_lower (str_field d [''role'']))
                     in if email = caller \<and> role \<noteq> ''admin'' then (jsonError no_self_demote_msg 400, w)
                        else
                          let res = SetRole (e_save e) email role (w_store w); w' = w\<lparr>w_store := fst res\<rparr>
                          in case snd res of
                               Inl x \<Rightarrow> (jsonError (store_msg (e_err e) x) 400, w')
                             | Inr _ \<Rightarrow> (jsonOK, w'))
              else (method_not_allowed, w))"

section \<open>Branding\<close>

definition GetBranding :: "env \<Rightarrow> world handler" where
  "GetBranding e r w =
     (if req_method r \<noteq> ''GET'' then (method_not_allowed, w)
      else
        let b = current (w_branding w)
        in (json_response 200
              (JObj [(''colors'', JObj [(''alpine'', JStr (Alpine (Colors b))), (''container'', JStr (Container (Colors b))),
                                        (''dom0'', JStr (Dom0 (Colors b))), (''domu'', JStr (DomU (Colors b)))]),
                     (''has_logo'', JBool (HasCustomLogo b)), (''logo_src'', JStr (EffectiveLogoSrc b))]), w))"

definition branding_schema :: schema where
  "branding_schema =
     [(''logo_base64'', KStr), (''logo_url'', KStr),
      (''colors'', KObj [(''dom0'', KStr), (''domu'', KStr), (''container'', KStr), (''alpine'', KStr)])]"

definition UpdateBranding :: "env \<Rightarrow> world handler" where
  "UpdateBranding e r w =
     (if req_method r \<noteq> ''PATCH'' then (method_not_allowed, w)
      else case decodeJSON branding_schema (body_of r) of
        None \<Rightarrow> (jsonError ''bad request'' 400, w)
      | Some d \<Rightarrow>
          let b = \<lparr>LogoBase64 = str_field d [''logo_base64''], LogoURL = str_field d [''logo_url''],
                   Colors = \<lparr>Dom0 = str_field d [''colors'', ''dom0''], DomU = str_field d [''colors'', ''domu''],
                             Container = str_field d [''colors'', ''container''],
                             Alpine = str_field d [''colors'', ''alpine'']\<rparr>\<rparr>;
              res = Update (e_branding_write e) (e_color_order e) b (w_branding w);
              w' = w\<lparr>w_branding := fst res\<rparr>
          in case snd res of
               Inl x \<Rightarrow> (jsonError (branding_msg (e_err e) x) 400, w')
             | Inr _ \<Rightarrow> (jsonOK, w'))"

definition ResetBranding :: "env \<Rightarrow> world handler" where
  "ResetBranding e r w =
     (if req_method r \<noteq> ''DELETE'' then (method_not_allowed, w)
      else
        let res = Update (e_branding_write e) (e_color_order e) zero_branding (w_branding w);
            w' = w\<lparr>w_branding := fst res\<rparr>
        in case snd res of
             Inl x \<Rightarrow> (jsonError (branding_msg (e_err e) x) 500, w')
           | Inr _ \<Rightarrow> (jsonOK, w'))"

end
