(* ===== verification/AdminAccess.thy ===== *)
theory AdminAccess
  imports AuthHandlers
begin

text \<open>
  What the handlers of the accounts guarantee: who gets a session, what a failed login reveals,
  and whether an administrator is left. The handlers read the identity that the middleware put
  into the context when the request came in; between that moment and the handler's own operation on
  the store other requests may run. \<open>step\<close> makes this interleaving explicit.
\<close>

section \<open>The effect of the handlers on the store\<close>

text \<open>Every handler performs a sequence of operations of the store, at most one in fact.\<close>

definition store_effect :: "env \<Rightarrow> world \<Rightarrow> world \<Rightarrow> bool" where
  "store_effect e w w' \<longleftrightarrow> (\<exists>ops. w_store w' = fold (run_op (e_gen e) (e_cmp e)) ops (w_store w))"

lemma store_effect_refl [simp]: "w_store w' = w_store w \<Longrightarrow> store_effect e w w'"
  unfolding store_effect_def by (rule exI [of _ "[]"]) simp

lemma store_effect_op: "w_store w' = run_op (e_gen e) (e_cmp e) op (w_store w) \<Longrightarrow> store_effect e w w'"
  unfolding store_effect_def by (rule exI [of _ "[op]"]) simp

lemma store_effect_trans: "store_effect e w w' \<Longrightarrow> store_effect e w' w'' \<Longrightarrow> store_effect e w w''"
  unfolding store_effect_def by (metis fold_append o_apply)

named_theorems handler_effect \<open>what a handler does to the state\<close>

lemma Login_effect [handler_effect]: "w_store (snd (Login e r w)) = w_store w"
  by (simp add: Login_def Let_def split: option.splits sum.splits)

lemma Logout_effect [handler_effect]: "snd (Logout e r w) = w"
  by (simp add: Logout_def)

lemma Session_effect [handler_effect]: "snd (Session e r w) = w"
  by (simp add: Session_def split: sum.splits)

lemma Profile_effect [handler_effect]: "snd (Profile e r w) = w"
  by (simp add: Profile_def Let_def split: sum.splits)

lemma UpdateProfileHandler_effect: "store_effect e w (snd (UpdateProfileHandler e r w))"
proof (cases "w_store (snd (UpdateProfileHandler e r w)) = w_store w")
  case False
  then obtain a b c d f g where
    "w_store (snd (UpdateProfileHandler e r w)) = fst (UpdateProfile (e_save e) a b c d f g (w_store w))"
    by (auto simp: UpdateProfileHandler_def Let_def split: option.splits sum.splits prod.splits if_splits)
  then show ?thesis
    by (intro store_effect_op [where op = "(e_save e, ProfileOp a b c d f g)"]) simp
qed simp

lemma UpdatePasswordHandler_effect: "store_effect e w (snd (UpdatePasswordHandler e r w))"
proof (cases "w_store (snd (UpdatePasswordHandler e r w)) = w_store w")
  case False
  then obtain a b c where
    "w_store (snd (UpdatePasswordHandler e r w)) = fst (UpdatePassword (e_gen e) (e_cmp e) (e_save e) a b c (w_store w))"
    by (auto simp: UpdatePasswordHandler_def Let_def split: option.splits sum.splits if_splits)
  then show ?thesis
    by (intro store_effect_op [where op = "(e_save e, PasswordOp a b c)"]) simp
qed simp

lemma AdminUsers_effect: "store_effect e w (snd (AdminUsers e r w))"
proof (cases "w_store (snd (AdminUsers e r w)) = w_store w")
  case False
  then obtain u where "w_store (snd (AdminUsers e r w)) = fst (Add (e_gen e) (e_save e) u (w_store w))"
    by (auto simp: AdminUsers_def adminListUsers_def adminCreateUser_def Let_def
        split: option.splits sum.splits if_splits)
  then show ?thesis by (intro store_effect_op [where op = "(e_save e, AddOp u)"]) simp
qed simp

text \<open>The target of \<open>AdminUserByEmail\<close> and the role it asks for.\<close>

definition admin_target :: "request \<Rightarrow> string" where
  "admin_target r = normalizeEmail (trim_prefix (path r) ''/api/admin/users/'')"

lemma AdminUserByEmail_cases:
  obtains (same) "snd (AdminUserByEmail e r w) = w"
  | (deleted) "admin_target r \<noteq> UserEmailFromCtx r"
      "snd (AdminUserByEmail e r w) = w\<lparr>w_store := fst (Delete (e_save e) (admin_target r) (w_store w))\<rparr>"
  | (assigned) ro where "admin_target r = UserEmailFromCtx r \<Longrightarrow> ro = ''admin''"
      "snd (AdminUserByEmail e r w) = w\<lparr>w_store := fst (SetRole (e_save e) (admin_target r) ro (w_store w))\<rparr>"
proof -
  let ?H = "AdminUserByEmail e r w" and ?caller = "UserEmailFromCtx r"
  define t where "t = admin_target r"
  have H: "?H = (if t = [] then (jsonError ''email manquant'' 400, w)
      else if req_method r = ''DELETE'' then
        (if t = ?caller then (jsonError no_self_delete_msg 400, w)
         else let res = Delete (e_save e) t (w_store w); w' = w\<lparr>w_store := fst res\<rparr>
              in case snd res of Inl x \<Rightarrow> (jsonError (store_msg (e_err e) x) 404, w') | Inr _ \<Rightarrow> (jsonOK, w'))
      else if req_method r = ''PATCH'' then
        (case decodeJSON role_schema (body_of r) of
           None \<Rightarrow> (jsonError ''bad request'' 400, w)
         | Some d \<Rightarrow> let role = trim_space (to_lower (str_field d [''role'']))
              in if t = ?caller \<and> role \<noteq> ''admin'' then (jsonError no_self_demote_msg 400, w)
                 else let res = SetRole (e_save e) t role (w_store w); w' = w\<lparr>w_store := fst res\<rparr>
                      in case snd res of Inl x \<Rightarrow> (jsonError (store_msg (e_err e) x) 400, w') | Inr _ \<Rightarrow> (jsonOK, w'))
      else (method_not_allowed, w))"
    by (simp only: AdminUserByEmail_def t_def admin_target_def trim_lower_eq_normalizeEmail Let_def)
  consider (no) "t = []" | (del) "t \<noteq> []" "req_method r = ''DELETE''"
    | (patch) "t \<noteq> []" "req_method r \<noteq> ''DELETE''" "req_method r = ''PATCH''"
    | (other) "t \<noteq> []" "req_method r \<noteq> ''DELETE''" "req_method r \<noteq> ''PATCH''" by blast
  then show thesis
  proof cases
    case del
    then have "snd ?H = (if t = ?caller then w else w\<lparr>w_store := fst (Delete (e_save e) t (w_store w))\<rparr>)"
      unfolding H by (simp add: Let_def split: sum.split)
    then show ?thesis using same deleted by (cases "t = ?caller") (simp_all add: t_def)
  next
    case patch
    show ?thesis
    proof (cases "decodeJSON role_schema (body_of r)")
      case None
      with patch have "snd ?H = w" unfolding H by simp
      then show ?thesis by (rule same)
    next
      case (Some d)
      define role where "role = trim_space (to_lower (str_field d [''role'']))"
      have "snd ?H = (if t = ?caller \<and> role \<noteq> ''admin'' then w
          else w\<lparr>w_store := fst (SetRole (e_save e) t role (w_store w))\<rparr>)"
        using patch unfolding H role_def by (simp add: Let_def Some split: sum.split)
      note e = this
      show ?thesis
      proof (cases "t = ?caller \<and> role \<noteq> ''admin''")
        case True
        with e have "snd ?H = w" by (simp only: if_True simp_thms)
        then show ?thesis by (rule same)
      next
        case False
        with e have "snd ?H = w\<lparr>w_store := fst (SetRole (e_save e) t role (w_store w))\<rparr>" by (simp only: if_False)
        moreover have "t = ?caller \<Longrightarrow> role = ''admin''" using False by blast
        ultimately show ?thesis using assigned [of role] by (simp only: t_def)
      qed
    qed
  qed (rule same, simp add: H)+
qed

lemma AdminUserByEmail_effect: "store_effect e w (snd (AdminUserByEmail e r w))"
proof (cases rule: AdminUserByEmail_cases [of e r w])
  case deleted
  then show ?thesis by (intro store_effect_op [where op = "(e_save e, DeleteOp (admin_target r))"]) simp
next
  case (assigned ro)
  then show ?thesis by (intro store_effect_op [where op = "(e_save e, SetRoleOp (admin_target r) ro)"]) simp
qed simp

lemma branding_effect [handler_effect]:
  "w_store (snd (GetBranding e r w)) = w_store w" "w_store (snd (UpdateBranding e r w)) = w_store w"
  "w_store (snd (ResetBranding e r w)) = w_store w"
  by (simp_all add: GetBranding_def UpdateBranding_def ResetBranding_def Let_def split: option.splits sum.splits)

lemmas store_effects = UpdateProfileHandler_effect UpdatePasswordHandler_effect AdminUsers_effect
  AdminUserByEmail_effect

lemma store_effect_inv: "store_effect e w w' \<Longrightarrow> store_inv (w_store w) \<Longrightarrow> store_inv (w_store w')"
  by (auto simp: store_effect_def store_inv_run)

lemma store_effect_hashed:
  "store_effect e w w' \<Longrightarrow> hashed (e_gen e) (w_store w) \<Longrightarrow> hashed (e_gen e) (w_store w')"
  unfolding store_effect_def
proof (elim exE)
  fix ops assume "w_store w' = fold (run_op (e_gen e) (e_cmp e)) ops (w_store w)" "hashed (e_gen e) (w_store w)"
  moreover have "hashed g s \<Longrightarrow> hashed g (fold (run_op g c) ops s)" for g c s
    by (induction ops arbitrary: s) (simp_all add: hashed_run_op)
  ultimately show "hashed (e_gen e) (w_store w')" by simp
qed

section \<open>Administrators\<close>

definition admin_at :: "user_store \<Rightarrow> string \<Rightarrow> bool" where
  "admin_at s k \<longleftrightarrow> (case users s k of None \<Rightarrow> False | Some u \<Rightarrow> Role u = ''admin'')"

definition has_admin :: "user_store \<Rightarrow> bool" where
  "has_admin s \<longleftrightarrow> (\<exists>k. admin_at s k)"

lemma admin_at_Delete:
  "admin_at (fst (Delete io e s)) k \<longleftrightarrow> admin_at s k \<and> k \<noteq> normalizeEmail e"
  by (auto simp: admin_at_def users_Delete)

lemma admin_at_SetRole:
  "admin_at (fst (SetRole io e r s)) k \<longleftrightarrow>
     (if ValidRoles (to_lower (trim_space r)) \<and> k = normalizeEmail e \<and> users s k \<noteq> None
      then to_lower (trim_space r) = ''admin'' else admin_at s k)"
  by (auto simp: admin_at_def users_SetRole Role_single split: option.splits)

lemma identity_admin:
  "identity e w r = Some (em, ''admin'') \<Longrightarrow> store_inv (w_store w) \<Longrightarrow>
     admin_at (w_store w) em \<and> normalizeEmail em = em"
  using identity_stored [of e w r em "''admin''"] by (auto simp: admin_at_def lookup_eq)

lemma admin_kept:
  assumes "admin_at (w_store w) em" and "UserEmailFromCtx r = em" and "normalizeEmail em = em"
  shows "admin_at (w_store (snd (AdminUserByEmail e r w))) em"
proof (cases rule: AdminUserByEmail_cases [of e r w])
  case deleted
  with assms show ?thesis by (simp add: admin_at_Delete admin_target_def)
next
  case (assigned ro)
  show ?thesis
  proof (cases "admin_target r = em")
    case True
    with assigned assms have "ro = ''admin''" by simp
    moreover have "to_lower (trim_space ''admin'') = ''admin''" by code_simp
    ultimately show ?thesis using assigned(2) assms(1) by (simp add: admin_at_SetRole)
  next
    case False
    with assms assigned(2) show ?thesis by (simp add: admin_at_SetRole admin_target_def)
  qed
qed (use assms in simp)

section \<open>Interleaved requests\<close>

text \<open>
  A configuration holds the state and the requests that have passed the middleware and whose
  handler has not run yet.
\<close>

definition admin_route :: "env \<Rightarrow> world handler" where
  "admin_route e = Auth e (RequireRole [''admin''] (AdminUserByEmail e))"

inductive step :: "world \<times> request list \<Rightarrow> world \<times> request list \<Rightarrow> bool" where
  admit: "identity e w r = Some (em, ''admin'') \<Longrightarrow> step (w, ps) (w, with_identity (em, ''admin'') r # ps)"
| handle: "step (w, ps @ p # qs) (snd (AdminUserByEmail e p w), ps @ qs)"

inductive_cases stepE: "step (w, ps) c"

lemma admin_route_step:
  "step\<^sup>*\<^sup>* (w, []) (snd (admin_route e r w), [])"
proof (cases "\<exists>em. identity e w r = Some (em, ''admin'')")
  case True
  then obtain em where i: "identity e w r = Some (em, ''admin'')" by blast
  have "step (w, []) (w, [with_identity (em, ''admin'') r])" by (rule step.admit [OF i])
  moreover have "step (w, [with_identity (em, ''admin'') r]) (snd (admin_route e r w), [])"
    using step.handle [of w "[]" "with_identity (em, ''admin'') r" "[]" e] i
    by (simp add: admin_route_def Auth_allowed RequireRole_def)
  ultimately show ?thesis by simp
next
  case False
  then have "snd (admin_route e r w) = w"
    by (cases "identity e w r") (auto simp: admin_route_def Auth_refused_state Auth_allowed RequireRole_def)
  then show ?thesis by simp
qed

lemma step_store_inv: "step c c' \<Longrightarrow> store_inv (w_store (fst c)) \<Longrightarrow> store_inv (w_store (fst c'))"
  by (induction rule: step.induct) (auto intro: store_effect_inv AdminUserByEmail_effect)

text \<open>
  The request an administrator sends to demote another user.
\<close>

definition demotion :: "string \<Rightarrow> request" where
  "demotion target =
     (with_token (base_request ''PATCH'' (''/api/admin/users/'' @ target)))
       \<lparr>body_of := json_body [(''role'', JStr ''viewer'')]\<rparr>"

lemma demotion_identity: "identity e w (demotion t) = identity e w (with_token r)"
  by (simp add: identity_def demotion_def FromRequest_def cookie_def with_token_def)

lemma demotion_effect:
  assumes "normalizeEmail t = t" and "t \<noteq> []" and "t \<noteq> em"
  shows "snd (AdminUserByEmail e (with_identity (em, ''admin'') (demotion t)) w) =
    w\<lparr>w_store := fst (SetRole (e_save e) t ''viewer'' (w_store w))\<rparr>"
proof -
  let ?r = "with_identity (em, ''admin'') (demotion t)"
  have s: "decodeJSON role_schema (json_body [(''role'', JStr ''viewer'')]) = Some [[''role''] \<mapsto> JStr ''viewer'']"
    by (simp add: decodeJSON_def json_body_def role_schema_def find_field_def)
  have f: "trim_space (to_lower ''viewer'') = ''viewer''" by code_simp
  have n: "trim_space (to_lower t) = t" using assms(1) by (simp add: trim_lower_eq_normalizeEmail)
  have p: "req_method (demotion t) = ''PATCH''" "path (demotion t) = ''/api/admin/users/'' @ t"
    "body_of (demotion t) = json_body [(''role'', JStr ''viewer'')]"
    by (simp_all add: demotion_def with_token_def base_request_def)
  have tp: "trim_prefix (''/api/admin/users/'' @ t) ''/api/admin/users/'' = t" by (rule trim_prefix_append)
  show ?thesis
    unfolding AdminUserByEmail_def Let_def with_identity_simps p tp n s
    using assms(2,3) by (simp add: f str_field_def split: sum.splits)
qed

section \<open>Properties\<close>

text \<open>
  Handled one at a time, the requests to the user administration never remove the last
  administrator: in whatever environment and order any requests run through \<open>Auth\<close>,
  \<open>RequireRole\<close> and \<open>AdminUserByEmail\<close>, an administrator who was there at the start means one is
  there at the end.
\<close>

theorem serial_requests_keep_an_admin:
  assumes "store_inv (w_store w)" and "has_admin (w_store w)"
  shows "has_admin (w_store (fold (\<lambda>(e, r) w. snd (admin_route e r w)) reqs w))"
proof -
  have 1: "store_inv (w_store (snd (admin_route e r w)))" if "store_inv (w_store w)" for e r w
  proof -
    have "store_inv (w_store (fst c'))" if "step\<^sup>*\<^sup>* c c'" "store_inv (w_store (fst c))" for c c'
      using that by (induction rule: rtranclp_induct) (auto intro: step_store_inv)
    with admin_route_step [of w e r] that show ?thesis by fastforce
  qed
  have 2: "has_admin (w_store (snd (admin_route e r w)))"
    if "store_inv (w_store w)" "has_admin (w_store w)" for e r w
  proof (cases "\<exists>em. identity e w r = Some (em, ''admin'')")
    case True
    then obtain em where i: "identity e w r = Some (em, ''admin'')" by blast
    with that(1) have a: "admin_at (w_store w) em" "normalizeEmail em = em" using identity_admin by auto
    show ?thesis
      using admin_kept [OF a(1) _ a(2), of "with_identity (em, ''admin'') r" e] i
      by (auto simp: admin_route_def Auth_allowed RequireRole_def has_admin_def)
  next
    case False
    then have "snd (admin_route e r w) = w"
      by (cases "identity e w r") (auto simp: admin_route_def Auth_refused_state Auth_allowed RequireRole_def)
    with that show ?thesis by simp
  qed
  show ?thesis using assms by (induction reqs arbitrary: w) (auto simp: 1 2)
qed

text \<open>
  C14. Interleaved, they can: when two administrators are the only ones and each sends a request
  that demotes the other, both requests can pass the middleware before either handler runs, and then no administrator is left. The
  check against demoting oneself does not prevent it.
\<close>

theorem crossing_demotions_leave_no_admin:
  assumes "identity e w (demotion b) = Some (a, ''admin'')"
    and "identity e' w (demotion a) = Some (b, ''admin'')"
    and "store_inv (w_store w)" and "a \<noteq> b" and "a \<noteq> []" and "b \<noteq> []"
    and "\<forall>k. admin_at (w_store w) k \<longrightarrow> k \<in> {a, b}"
  shows "\<exists>w'. step\<^sup>*\<^sup>* (w, []) (w', []) \<and> \<not> has_admin (w_store w')"
proof -
  have na: "normalizeEmail a = a" "admin_at (w_store w) a" and nb: "normalizeEmail b = b" "admin_at (w_store w) b"
    using identity_admin [OF assms(1,3)] identity_admin [OF assms(2,3)] by auto
  let ?ra = "with_identity (a, ''admin'') (demotion b)" and ?rb = "with_identity (b, ''admin'') (demotion a)"
  let ?w1 = "snd (AdminUserByEmail e ?ra w)" and ?w2 = "\<lambda>w1. snd (AdminUserByEmail e' ?rb w1)"
  have "step (w, []) (w, [?ra])" by (rule step.admit [OF assms(1)])
  moreover have "step (w, [?ra]) (w, [?rb, ?ra])" by (rule step.admit [OF assms(2)])
  moreover have "step (w, [?rb, ?ra]) (?w1, [?rb])" using step.handle [of w "[?rb]" ?ra "[]" e] by simp
  moreover have "step (?w1, [?rb]) (?w2 ?w1, [])" using step.handle [of ?w1 "[]" ?rb "[]" e'] by simp
  ultimately have s: "step\<^sup>*\<^sup>* (w, []) (?w2 ?w1, [])" by (meson converse_rtranclp_into_rtranclp rtranclp.rtrancl_refl)
  have v: "to_lower (trim_space ''viewer'') = ''viewer''" "ValidRoles ''viewer''" by code_simp+
  have "\<not> admin_at (w_store (?w2 ?w1)) k" for k
    using na nb assms(4-7) by (cases "k \<in> {a, b}")
      (auto simp: demotion_effect admin_at_SetRole v admin_at_def users_SetRole Role_single [OF v(2)] split: option.splits)
  with s show ?thesis by (auto simp: has_admin_def)
qed

lemma demo_identity:
  "users (w_store w) (normalizeEmail em) = Some u \<Longrightarrow> em \<noteq> [] \<Longrightarrow>
     identity (demo_env (demo_claims em ro)) w (with_token r) = Some (Email u, Role u)"
  by (simp add: identity_def demo_token session_user_def lookup_eq)

text \<open>A store with two administrators.\<close>

definition two_admins :: world where
  "two_admins = demo_world\<lparr>w_store := fst (SetRole SaveOk ''bob@x.io'' ''admin'' demo_store)\<rparr>"

lemma two_admins_users: "users (w_store two_admins) = [''ann@x.io'' \<mapsto> ann, ''bob@x.io'' \<mapsto> bob\<lparr>Roles := [''admin'']\<rparr>]"
proof -
  have "to_lower (trim_space ''admin'') = ''admin''" by code_simp
  then show ?thesis by (auto simp: two_admins_def users_SetRole demo_store_def ValidRoles_def fun_eq_iff)
qed

lemma demo_roles: "Role ann = ''admin''" "Role (bob\<lparr>Roles := [''admin'']\<rparr>) = ''admin''"
  by code_simp+

lemma two_admins_facts:
  "store_inv (w_store two_admins)" "admin_at (w_store two_admins) k \<longleftrightarrow> k \<in> {''ann@x.io'', ''bob@x.io''}"
  by (auto simp: store_inv_def map_inv_def two_admins_users admin_at_def demo_roles split: if_splits option.splits)

theorem serial_requests_keep_an_admin_witness:
  "has_admin (w_store (fold (\<lambda>(e, r) w. snd (admin_route e r w))
      [(demo_env (demo_claims ''ann@x.io'' ''admin''), demotion ''bob@x.io''),
       (demo_env (demo_claims ''bob@x.io'' ''admin''), demotion ''ann@x.io'')] two_admins))"
  by (rule serial_requests_keep_an_admin) (auto simp: two_admins_facts has_admin_def)

theorem crossing_demotions_leave_no_admin_witness:
  "\<exists>w'. step\<^sup>*\<^sup>* (two_admins, []) (w', []) \<and> \<not> has_admin (w_store w')"
proof -
  have i: "identity (demo_env (demo_claims ''ann@x.io'' ''admin'')) two_admins (demotion ''bob@x.io'') = Some (''ann@x.io'', ''admin'')"
    "identity (demo_env (demo_claims ''bob@x.io'' ''admin'')) two_admins (demotion ''ann@x.io'') = Some (''bob@x.io'', ''admin'')"
    unfolding demotion_identity [where r = "base_request [] []"]
    by (simp_all add: demo_identity [where u = ann] demo_identity [where u = "bob\<lparr>Roles := [''admin'']\<rparr>"]
        two_admins_users demo_roles)
  show ?thesis
    by (rule crossing_demotions_leave_no_admin [OF i]) (auto simp: two_admins_facts)
qed

end
