(* ===== verification/LoginFlow.thy ===== *)
theory LoginFlow
  imports AdminAccess
begin

text \<open>
  Logging in: when \<open>Login\<close> sets the session cookie, what a refused login shows, and that the
  cookie opens a session of the user who knew the password.
\<close>

text \<open>The two fields of the decoded credentials as \<open>Login\<close> uses them.\<close>

definition cred_email :: "decoded \<Rightarrow> string" where
  "cred_email d = normalizeEmail (str_field d [''email''])"

definition cred_password :: "decoded \<Rightarrow> string" where
  "cred_password d = str_field d [''password'']"

lemma Login_cases:
  "Login e r w =
     (if req_method r \<noteq> ''POST'' then (method_not_allowed, w)
      else case decodeJSON login_schema (body_of r) of
        None \<Rightarrow> (http_error ''bad request'' 400, w)
      | Some d \<Rightarrow>
          if cred_email d = [] \<or> cred_password d = [] then (http_error ''unauthorized'' 401, w)
          else case Find (w_store w) (cred_email d) of
            Inl _ \<Rightarrow> (http_error ''unauthorized'' 401, w)
          | Inr u \<Rightarrow>
              if \<not> e_cmp e (Password u) (cred_password d) then (http_error ''unauthorized'' 401, w)
              else case SetCookie (e_lib e) (e_jwt e) (e_now e) (Email u) (Role u) of
                Inl _ \<Rightarrow> (http_error ''internal error'' 500, w)
              | Inr ck \<Rightarrow>
                  (with_cookie ck
                     (json_response 200
                        (JObj [(''default_credentials'', JBool (UsesDefaultCredentials (e_cmp e) u)),
                               (''email'', JStr (Email u)), (''ok'', JBool True), (''role'', JStr (Role u))])),
                   w\<lparr>w_mails := SendLoginNotification (e_mailer e) (Email u) (EffectiveDisplayName u)
                                 (clientIP r) (e_now e) (w_mails w)\<rparr>))"
  by (simp only: Login_def Let_def trim_lower_eq_normalizeEmail cred_email_def cred_password_def)

lemma identity_store: "w_store w = w_store w' \<Longrightarrow> identity e w r = identity e w' r"
  by (simp add: identity_def split: sum.splits)

section \<open>Properties\<close>

text \<open>
  C12. A session cookie is set exactly for a POST with the email of an existing user and a
  password that its stored hash accepts, and it is the cookie issued for that very user and its current role.
\<close>

theorem login_cookie_iff:
  "set_cookies (fst (Login e r w)) = [ck] \<longleftrightarrow>
     req_method r = ''POST'' \<and>
     (\<exists>d u. decodeJSON login_schema (body_of r) = Some d \<and> cred_email d \<noteq> [] \<and> cred_password d \<noteq> [] \<and>
        Find (w_store w) (cred_email d) = Inr u \<and> e_cmp e (Password u) (cred_password d) \<and>
        SetCookie (e_lib e) (e_jwt e) (e_now e) (Email u) (Role u) = Inr ck)"
proof (cases "decodeJSON login_schema (body_of r)")
  case None
  then show ?thesis by (simp add: Login_cases)
next
  case (Some d)
  show ?thesis
  proof (cases "Find (w_store w) (cred_email d)")
    case (Inl x)
    with Some show ?thesis by (simp add: Login_cases)
  next
    case (Inr u)
    show ?thesis
      by (cases "SetCookie (e_lib e) (e_jwt e) (e_now e) (Email u) (Role u)") (auto simp: Login_cases Some Inr)
  qed
qed

text \<open>
  A refused login does not tell an unknown email from a wrong password: whatever the users
  are, a well-formed login that no user's password accepts gets the same answer, sets no cookie
  and changes nothing.
\<close>

theorem refused_logins_alike:
  assumes "req_method r = ''POST''" and "decodeJSON login_schema (body_of r) = Some d"
    and "\<And>u. Find (w_store w) (cred_email d) = Inr u \<Longrightarrow> \<not> e_cmp e (Password u) (cred_password d)"
  shows "Login e r w = (http_error ''unauthorized'' 401, w)"
  using assms by (cases "Find (w_store w) (cred_email d)") (simp_all add: Login_cases)

definition login_request :: "string \<Rightarrow> string \<Rightarrow> request" where
  "login_request email password =
     (base_request ''POST'' ''/api/login'')
       \<lparr>body_of := json_body [(''email'', JStr email), (''password'', JStr password)]\<rparr>"

lemma login_request_simps [simp]:
  "req_method (login_request em pw) = ''POST''"
  "decodeJSON login_schema (body_of (login_request em pw)) =
     Some [[''email''] \<mapsto> JStr em, [''password''] \<mapsto> JStr pw]"
  by (simp_all add: login_request_def base_request_def decodeJSON_def json_body_def login_schema_def find_field_def)

lemma cred_login_request [simp]:
  "cred_email [[''email''] \<mapsto> JStr em, [''password''] \<mapsto> JStr pw] = normalizeEmail em"
  "cred_password [[''email''] \<mapsto> JStr em, [''password''] \<mapsto> JStr pw] = pw"
  by (simp_all add: cred_email_def cred_password_def str_field_def)

theorem refused_logins_alike_witness:
  "Login (demo_env (demo_claims ''bob@x.io'' ''viewer'')) (login_request ''bob@x.io'' ''guess'') demo_world =
     (http_error ''unauthorized'' 401, demo_world) \<and>
   Login (demo_env (demo_claims ''bob@x.io'' ''viewer'')) (login_request ''eve@x.io'' ''guess'') demo_world =
     (http_error ''unauthorized'' 401, demo_world)"
proof
  have c: "e_cmp (demo_env c) = toy_cmp" "w_store demo_world = demo_store" for c
    by (simp_all add: demo_env_def demo_world_def)
  show "Login (demo_env (demo_claims ''bob@x.io'' ''viewer'')) (login_request ''bob@x.io'' ''guess'') demo_world =
     (http_error ''unauthorized'' 401, demo_world)"
    by (rule refused_logins_alike [OF login_request_simps]) (auto simp: c Find_def demo_store_def toy_cmp_def)
  show "Login (demo_env (demo_claims ''bob@x.io'' ''viewer'')) (login_request ''eve@x.io'' ''guess'') demo_world =
     (http_error ''unauthorized'' 401, demo_world)"
    by (rule refused_logins_alike [OF login_request_simps]) (auto simp: c Find_def demo_store_def toy_cmp_def)
qed

text \<open>
  C11. The cookie of a successful login opens a session of the user who logged in: until a second
  before its expiry, a request that carries it is identified as that user, with the role of the
  store, and the user's password was known.
\<close>

theorem login_opens_session:
  assumes "jwt_lib_ok (e_lib e)" and "store_inv (w_store w)"
    and "set_cookies (fst (Login e r w)) = [ck]"
    and "cookie r' cookieName = Some (ck_value ck)"
    and "e_now e \<le> now" and "now \<le> e_now e + ttl (e_jwt e) - second"
  shows "\<exists>d u. decodeJSON login_schema (body_of r) = Some d \<and> Find (w_store w) (cred_email d) = Inr u \<and>
    e_cmp e (Password u) (cred_password d) \<and>
    identity (e\<lparr>e_now := now\<rparr>) (snd (Login e r w)) r' = Some (cred_email d, Role u)"
proof -
  obtain d u where d: "decodeJSON login_schema (body_of r) = Some d" "cred_email d \<noteq> []"
      "Find (w_store w) (cred_email d) = Inr u" "e_cmp e (Password u) (cred_password d)"
      "SetCookie (e_lib e) (e_jwt e) (e_now e) (Email u) (Role u) = Inr ck"
    using assms(3) unfolding login_cookie_iff by blast
  have u: "Email u = cred_email d" "lookup (w_store w) (cred_email d) = Some u"
    using d(3) Find_iff [OF assms(2), of "cred_email d" u] by (simp_all add: cred_email_def lookup_def)
  obtain tok ex where i: "Issue (e_lib e) (e_jwt e) (e_now e) (Email u) (Role u) = Inr (tok, ex)"
      "ck = auth_cookie (e_jwt e) tok ex"
    using d(5) by (auto simp: SetCookie_def split: sum.splits)
  have "claims_live now (issue_claims (e_jwt e) (e_now e) (Email u) (Role u))"
    using NumericDate_floor [of "e_now e + ttl (e_jwt e)"] NumericDate_floor [of "e_now e - 5 * second"]
      assms(5,6) second_pos(1) by (simp add: claims_live_def issue_claims_def)
  then have "Parse (e_lib e) (e_jwt e) now tok = Inr (issue_claims (e_jwt e) (e_now e) (Email u) (Role u))"
    using parse_issued [OF assms(1) i(1), of now] d(2) u(1) by simp
  then have "FromRequest (e_lib e) (e_jwt e) now r' = Inr (issue_claims (e_jwt e) (e_now e) (Email u) (Role u))"
    using assms(4) i(2) by (simp add: FromRequest_def auth_cookie_def)
  then have "identity (e\<lparr>e_now := now\<rparr>) (snd (Login e r w)) r' = Some (cred_email d, Role u)"
    using u by (simp add: identity_def session_user_def Login_effect issue_claims_def)
  with d u show ?thesis by blast
qed

theorem login_opens_session_witness:
  "\<exists>ck. set_cookies (fst (Login ((demo_env (demo_claims ''bob@x.io'' ''viewer''))\<lparr>e_now := 0\<rparr>)
        (login_request ''bob@x.io'' ''bobpassword'') demo_world)) = [ck] \<and>
     identity (demo_env (demo_claims ''bob@x.io'' ''viewer'')) demo_world
       ((base_request ''GET'' ''/api/profile'')\<lparr>cookies := [(cookieName, ck_value ck)]\<rparr>) = Some (''bob@x.io'', ''viewer'')"
proof -
  let ?e = "(demo_env (demo_claims ''bob@x.io'' ''viewer''))\<lparr>e_now := 0\<rparr>"
  let ?r = "login_request ''bob@x.io'' ''bobpassword''"
  let ?ck = "auth_cookie toy_service ''tok'' hour"
  let ?q = "(base_request ''GET'' ''/api/profile'')\<lparr>cookies := [(cookieName, ck_value ?ck)]\<rparr>"
  have b: "Find (w_store demo_world) ''bob@x.io'' = Inr bob" by (simp add: demo_world_def Find_def demo_store_def)
  have rb: "Role bob = ''viewer''" by code_simp
  have e: "e_cmp ?e = toy_cmp" "e_jwt ?e = toy_service" "e_now ?e = 0"
    "e_lib ?e = toy_lib (issue_claims toy_service 0 ''bob@x.io'' ''viewer'')"
    by (simp_all add: demo_env_def demo_claims_def)
  have "SetCookie (e_lib ?e) (e_jwt ?e) (e_now ?e) (Email bob) (Role bob) = Inr ?ck"
    unfolding e rb by (simp add: SetCookie_def Issue_def toy_lib_def) (simp add: toy_service_def)
  then have 1: "set_cookies (fst (Login ?e ?r demo_world)) = [?ck]"
    unfolding login_cookie_iff using b by (simp add: e toy_cmp_def)
  have t: "e_now ?e \<le> minute" "minute \<le> e_now ?e + ttl (e_jwt ?e) - second"
    unfolding e by (simp_all add: minute_def hour_def second_def toy_service_def)
  have inv: "store_inv (w_store demo_world)" by (simp add: demo_world_def demo_inv)
  have q: "cookie ?q cookieName = Some (ck_value ?ck)" by (simp add: cookie_def)
  have l: "jwt_lib_ok (e_lib ?e)" unfolding e by (rule toy_lib_ok)
  have n: "?e\<lparr>e_now := minute\<rparr> = demo_env (demo_claims ''bob@x.io'' ''viewer'')" by (simp add: demo_env_def)
  obtain u where "Find (w_store demo_world) ''bob@x.io'' = Inr u"
      "identity (?e\<lparr>e_now := minute\<rparr>) (snd (Login ?e ?r demo_world)) ?q = Some (''bob@x.io'', Role u)"
    using login_opens_session [OF l inv 1 q t] by (simp only: login_request_simps) auto
  then have "identity (?e\<lparr>e_now := minute\<rparr>) demo_world ?q = Some (''bob@x.io'', ''viewer'')"
    using b rb identity_store [OF Login_effect] by simp
  with 1 show ?thesis unfolding n by blast
qed

end
