(* ===== verification/OAuthFlow.thy ===== *)
theory OAuthFlow
  imports LoginFlow
begin

text \<open>
  Login through GitHub and GitLab, \<open>backend/auth/oauth.go\<close>. The exchange of the code, the URL of
  the provider and the answers of its API (\<open>golang.org/x/oauth2\<close> and the network) are parameters;
  an answer is given as its status and the JSON documents of its body.
\<close>

record oauth_conf =
  ClientID :: string
  ClientSecret :: string
  RedirectURL :: string
  Scopes :: "string list"

record oauth_service =
  providers :: "(string \<times> oauth_conf) list"
  oauth_secure :: bool
  oauth_enabled :: bool
  allowedDomains :: "string set"
  autoCreate :: bool

datatype api_reply = NetError | ApiReply nat body

record oauth_env =
  oe_auth_url :: "oauth_conf \<Rightarrow> string \<Rightarrow> string"           \<comment> \<open>\<open>conf.AuthCodeURL(state)\<close>\<close>
  oe_exchange :: "oauth_conf \<Rightarrow> string \<Rightarrow> string option"    \<comment> \<open>\<open>conf.Exchange(ctx, code)\<close>\<close>
  oe_get :: "oauth_conf \<Rightarrow> string \<Rightarrow> string \<Rightarrow> api_reply"   \<comment> \<open>the client's GET, by token and URL\<close>

definition conf_get :: "(string \<times> string) list \<Rightarrow> string \<Rightarrow> string" where
  "conf_get conf k = (case map_of conf k of None \<Rightarrow> [] | Some v \<Rightarrow> v)"

definition oauthProviderConfigured :: "(string \<times> string) list \<Rightarrow> bool" where
  "oauthProviderConfigured conf \<longleftrightarrow>
     list_all (\<lambda>k. let v = trim_space (conf_get conf k)
                   in \<not> (v = [] \<or> contains v ''abcdef'' \<or> contains v ''supersecret'' \<or> contains v ''mon-domaine.com''))
       [''client_id'', ''client_secret'', ''redirect_url'']"

definition provider_entry :: "oauth_clients \<Rightarrow> string \<Rightarrow> string list \<Rightarrow> (string \<times> oauth_conf) list" where
  "provider_entry cfg name scopes =
     (case map_of cfg name of
        None \<Rightarrow> []
      | Some c \<Rightarrow>
          if oauthProviderConfigured c then
            [(name, \<lparr>ClientID = conf_get c ''client_id'', ClientSecret = conf_get c ''client_secret'',
                     RedirectURL = conf_get c ''redirect_url'', Scopes = scopes\<rparr>)]
          else [])"

definition NewOAuthService :: "oauth_clients \<Rightarrow> settings option \<Rightarrow> bool \<Rightarrow> oauth_service" where
  "NewOAuthService cfg st secure =
     (let enabled = (case st of None \<Rightarrow> False | Some s \<Rightarrow> oauth_Enabled (OAuth s));
          domains = (case st of None \<Rightarrow> {}
                     | Some s \<Rightarrow> set (map (\<lambda>d. to_lower (trim_space (trim_prefix d ''@''))) (AllowedDomains (OAuth s))) - {[]});
          create = (case st of None \<Rightarrow> False | Some s \<Rightarrow> AutoCreate (OAuth s))
      in \<lparr>providers = (if enabled then provider_entry cfg ''github'' [''user:email''] @ provider_entry cfg ''gitlab'' [''read_user'']
                       else []),
          oauth_secure = secure, oauth_enabled = enabled, allowedDomains = domains, autoCreate = create\<rparr>)"

definition providerEnabled :: "oauth_service \<Rightarrow> string \<Rightarrow> bool" where
  "providerEnabled s p \<longleftrightarrow> (if \<not> oauth_enabled s then False else map_of (providers s) p \<noteq> None)"

definition emailAllowed :: "oauth_service \<Rightarrow> string \<Rightarrow> bool" where
  "emailAllowed s email \<longleftrightarrow>
     (if allowedDomains s = {} then True
      else case cut CHR ''@'' (to_lower (trim_space email)) of
        (_, domain, ok) \<Rightarrow> if \<not> ok then False else domain \<in> allowedDomains s)"

definition ProvidersHandler :: "oauth_service \<Rightarrow> world handler" where
  "ProvidersHandler s r w =
     (if req_method r \<noteq> ''GET'' then (method_not_allowed, w)
      else (json_response 200 (JObj [(''github'', JBool (providerEnabled s ''github'')),
                                     (''gitlab'', JBool (providerEnabled s ''gitlab''))]), w))"

definition randomState :: "string option \<Rightarrow> string option" where
  "randomState nonce = map_option (b64_encode UrlAlphabet False) nonce"

definition stateCookieName :: string where
  "stateCookieName = ''unyport_oauth_state''"

definition state_cookie :: "oauth_service \<Rightarrow> string \<Rightarrow> set_cookie" where
  "state_cookie s v =
     \<lparr>ck_name = stateCookieName, ck_value = v, ck_path = ''/api/oauth/callback'', ck_max_age = 300, ck_expires = None,
      ck_http_only = True, ck_secure = oauth_secure s, ck_same_site_lax = True\<rparr>"

definition clear_state_cookie :: "oauth_service \<Rightarrow> set_cookie" where
  "clear_state_cookie s =
     \<lparr>ck_name = stateCookieName, ck_value = [], ck_path = ''/api/oauth/callback'', ck_max_age = -1,
      ck_expires = Some 0, ck_http_only = True, ck_secure = oauth_secure s, ck_same_site_lax = True\<rparr>"

definition OAuthLoginHandler :: "oauth_env \<Rightarrow> oauth_service \<Rightarrow> env \<Rightarrow> world handler" where
  "OAuthLoginHandler oe s e r w =
     (if req_method r \<noteq> ''GET'' then (method_not_allowed, w)
      else case map_of (providers s) (query_get r ''provider'') of
        None \<Rightarrow> (http_error ''provider inconnu'' 400, w)
      | Some conf \<Rightarrow>
          if \<not> providerEnabled s (query_get r ''provider'') then (http_error ''provider inconnu'' 400, w)
          else case randomState (e_nonce e) of
            None \<Rightarrow> (http_error ''state failed'' 500, w)
          | Some state \<Rightarrow> (with_cookie (state_cookie s state) (redirect (oe_auth_url oe conf state) 302), w))"

definition github_schema :: schema where
  "github_schema = [(''email'', KStr), (''primary'', KBool), (''verified'', KBool)]"

definition gitlab_schema :: schema where
  "gitlab_schema = [(''email'', KStr)]"

text \<open>Decoding an array of structs: \<open>null\<close> is the empty slice, and one bad element fails the decoding.\<close>

definition decode_array :: "schema \<Rightarrow> body \<Rightarrow> decoded list option" where
  "decode_array sch b =
     (case docs b of
        JNull # _ \<Rightarrow> Some []
      | JArr vs # _ \<Rightarrow>
          if list_ex (\<lambda>v. decode_struct False sch v = None) vs then None
          else Some (map (\<lambda>v. the (decode_struct False sch v)) vs)
      | _ \<Rightarrow> None)"

definition fetchEmail :: "oauth_env \<Rightarrow> string \<Rightarrow> oauth_conf \<Rightarrow> string \<Rightarrow> string option" where
  "fetchEmail oe provider conf token =
     (if provider = ''github'' then
        (case oe_get oe conf token ''https://api.github.com/user/emails'' of
           NetError \<Rightarrow> None
         | ApiReply code b \<Rightarrow>
             if code < 200 \<or> 299 < code then None
             else case decode_array github_schema b of
               None \<Rightarrow> None
             | Some ds \<Rightarrow>
                 map_option (\<lambda>d. str_field d [''email''])
                   (List.find (\<lambda>d. bool_field d [''primary''] \<and> bool_field d [''verified'']) ds))
      else if provider = ''gitlab'' then
        (case oe_get oe conf token ''https://gitlab.com/api/v4/user'' of
           NetError \<Rightarrow> None
         | ApiReply code b \<Rightarrow>
             if code < 200 \<or> 299 < code then None
             else map_option (\<lambda>d. str_field d [''email'']) (decode_first gitlab_schema b))
      else None)"

definition bad_request_msg :: string where
  "bad_request_msg = ''requ'' @ [CHR 0xC3, CHR 0xAA] @ ''te invalide''"

definition not_allowed_msg :: string where
  "not_allowed_msg = ''email non autoris'' @ [CHR 0xC3, CHR 0xA9]"

text \<open>The second half of \<open>CallbackHandler\<close>, once the provider's email is known and normalised.\<close>

definition oauth_finish :: "oauth_service \<Rightarrow> env \<Rightarrow> string \<Rightarrow> world handler" where
  "oauth_finish s e email r w =
     (let unauthorised = (\<lambda>w. (http_error ''user failed'' 401, w));
          known = (case Find (w_store w) email of Inl _ \<Rightarrow> False | Inr _ \<Rightarrow> True)
      in if \<not> known \<and> \<not> autoCreate s then unauthorised w
         else
           let w1 = (if known then w
                     else w\<lparr>w_store := fst (Add (e_gen e) (e_save e)
                              \<lparr>ID = email, Email = email, Password = [], Roles = [''viewer''], DisplayName = [],
                               Avatar = [], PhotoURL = [], SSHKey = [], TwoFA = False, CreatedAt = e_now e\<rparr>
                              (w_store w))\<rparr>)
           in case Find (w_store w1) email of
                Inl _ \<Rightarrow> unauthorised w1
              | Inr u \<Rightarrow>
                  (case SetCookie (e_lib e) (e_jwt e) (e_now e) email (Role u) of
                     Inl _ \<Rightarrow> (http_error ''token failed'' 500, w1)
                   | Inr ck \<Rightarrow>
                       (with_cookie ck (redirect ''/'' 302),
                        w1\<lparr>w_mails := SendLoginNotification (e_mailer e) (Email u) (EffectiveDisplayName u)
                                        (clientIP r) (e_now e) (w_mails w1)\<rparr>)))"

definition CallbackHandler :: "oauth_env \<Rightarrow> oauth_service \<Rightarrow> env \<Rightarrow> world handler" where
  "CallbackHandler oe s e r w =
     (if req_method r \<noteq> ''GET'' then (method_not_allowed, w)
      else
        let provider = query_get r ''provider''; code = query_get r ''code''; state = query_get r ''state''
        in case map_of (providers s) provider of
             None \<Rightarrow> (http_error bad_request_msg 400, w)
           | Some conf \<Rightarrow>
               if code = [] then (http_error bad_request_msg 400, w)
               else if state = [] \<or> cookie r stateCookieName \<noteq> Some state then (http_error ''state invalide'' 401, w)
               else
                 let cleared = (\<lambda>p. (with_cookie (clear_state_cookie s) (fst p), snd p))
                 in case oe_exchange oe conf code of
                      None \<Rightarrow> cleared (http_error ''exchange failed'' 401, w)
                    | Some token \<Rightarrow>
                        (case fetchEmail oe provider conf token of
                           None \<Rightarrow> cleared (http_error ''email introuvable'' 401, w)
                         | Some email0 \<Rightarrow>
                             if email0 = [] then cleared (http_error ''email introuvable'' 401, w)
                             else
                               let email = to_lower (trim_space email0)
                               in if \<not> emailAllowed s email then cleared (http_error not_allowed_msg 401, w)
                                  else cleared (oauth_finish s e email r w)))"

section \<open>Facts\<close>

lemma admin_at_Add_viewer:
  "Roles u = [''viewer''] \<Longrightarrow> admin_at (fst (Add gen io u s)) k \<longleftrightarrow> admin_at s k"
proof -
  assume r: "Roles u = [''viewer'']"
  have v: "Role (added_user u h) \<noteq> ''admin''" for h
  proof -
    have "to_lower (trim_space ''viewer'') = ''viewer''" "ValidRoles ''viewer''" by code_simp+
    then have "Role (added_user u h) = ''viewer''" using r by (simp add: Role_def added_user_def)
    then show ?thesis by simp
  qed
  show ?thesis
    by (auto simp: admin_at_def users_Add Let_def v split: option.splits)
qed

lemma oauth_finish_store:
  "w_store (snd (oauth_finish s e email r w)) = w_store w \<or>
   (autoCreate s \<and> (\<exists>u. Roles u = [''viewer''] \<and> Email u = email \<and>
      w_store (snd (oauth_finish s e email r w)) = fst (Add (e_gen e) (e_save e) u (w_store w))))"
proof (cases "Find (w_store w) email")
  case (Inr u)
  then show ?thesis
    by (cases "SetCookie (e_lib e) (e_jwt e) (e_now e) email (Role u)") (simp_all add: oauth_finish_def)
next
  case (Inl x)
  define u0 where "u0 = \<lparr>ID = email, Email = email, Password = [], Roles = [''viewer''], DisplayName = [],
                         Avatar = [], PhotoURL = [], SSHKey = [], TwoFA = False, CreatedAt = e_now e\<rparr>"
  show ?thesis
  proof (cases "autoCreate s")
    case True
    have "w_store (snd (oauth_finish s e email r w)) = fst (Add (e_gen e) (e_save e) u0 (w_store w))"
      unfolding oauth_finish_def u0_def [symmetric] using Inl True
      by (simp add: Let_def split: sum.split)
    moreover have "Roles u0 = [''viewer'']" "Email u0 = email" by (simp_all add: u0_def)
    ultimately show ?thesis using True by blast
  qed (simp add: oauth_finish_def Inl)
qed

lemma CallbackHandler_cases:
  obtains (refused) "snd (CallbackHandler oe s e r w) = w"
      "cookieName \<notin> ck_name ` set (set_cookies (fst (CallbackHandler oe s e r w)))"
  | (finished) conf token email0 where
      "req_method r = ''GET''" "map_of (providers s) (query_get r ''provider'') = Some conf"
      "query_get r ''state'' \<noteq> []" "cookie r stateCookieName = Some (query_get r ''state'')"
      "oe_exchange oe conf (query_get r ''code'') = Some token"
      "fetchEmail oe (query_get r ''provider'') conf token = Some email0" "email0 \<noteq> []"
      "emailAllowed s (normalizeEmail email0)"
      "CallbackHandler oe s e r w =
         (with_cookie (clear_state_cookie s) (fst (oauth_finish s e (normalizeEmail email0) r w)),
          snd (oauth_finish s e (normalizeEmail email0) r w))"
proof -
  have n: "clear_state_cookie s = c \<Longrightarrow> ck_name c \<noteq> cookieName" for c
    by (auto simp: clear_state_cookie_def stateCookieName_def cookieName_def)
  have "(snd (CallbackHandler oe s e r w) = w \<and>
      cookieName \<notin> ck_name ` set (set_cookies (fst (CallbackHandler oe s e r w)))) \<or>
    (\<exists>conf token email0. req_method r = ''GET'' \<and> map_of (providers s) (query_get r ''provider'') = Some conf \<and>
      query_get r ''state'' \<noteq> [] \<and> cookie r stateCookieName = Some (query_get r ''state'') \<and>
      oe_exchange oe conf (query_get r ''code'') = Some token \<and>
      fetchEmail oe (query_get r ''provider'') conf token = Some email0 \<and> email0 \<noteq> [] \<and>
      emailAllowed s (normalizeEmail email0) \<and>
      CallbackHandler oe s e r w =
         (with_cookie (clear_state_cookie s) (fst (oauth_finish s e (normalizeEmail email0) r w)),
          snd (oauth_finish s e (normalizeEmail email0) r w)))"
    unfolding CallbackHandler_def normalizeEmail_def [symmetric] Let_def
    using n by (simp split: option.split)
  then show thesis using refused finished by blast
qed

section \<open>A concrete provider for the witnesses\<close>

definition demo_conf :: oauth_conf where
  "demo_conf = \<lparr>ClientID = ''id'', ClientSecret = ''s'', RedirectURL = ''https://unyport.test/cb'', Scopes = [''user:email'']\<rparr>"

definition demo_oauth :: oauth_service where
  "demo_oauth = \<lparr>providers = [(''github'', demo_conf)], oauth_secure = True, oauth_enabled = True,
     allowedDomains = {''x.io''}, autoCreate = False\<rparr>"

definition demo_oauth_env :: oauth_env where
  "demo_oauth_env =
     \<lparr>oe_auth_url = (\<lambda>c st. ''https://github.com/login/oauth/authorize?state='' @ st),
      oe_exchange = (\<lambda>c code. if code = ''code1'' then Some ''token1'' else None),
      oe_get = (\<lambda>c token url. ApiReply 200 \<lparr>docs = [JArr
        [JObj [(''email'', JStr ''old@y.org''), (''primary'', JBool False), (''verified'', JBool True)],
         JObj [(''email'', JStr '' Ann@X.io''), (''primary'', JBool True), (''verified'', JBool True)]]],
        clean_end = True\<rparr>)\<rparr>"

definition demo_callback :: request where
  "demo_callback =
     (base_request ''GET'' ''/api/oauth/callback'')
       \<lparr>query := [(''provider'', ''github''), (''code'', ''code1''), (''state'', ''st1'')],
        cookies := [(stateCookieName, ''st1'')]\<rparr>"

section \<open>Properties\<close>

text \<open>
  Logging in through a provider never makes or unmakes an administrator: whatever the provider
  answers, the administrators of the store are the same after the callback as before.
\<close>

theorem oauth_keeps_admins:
  "admin_at (w_store (snd (CallbackHandler oe s e r w))) k \<longleftrightarrow> admin_at (w_store w) k"
proof (cases rule: CallbackHandler_cases [of oe s e r w])
  case (finished conf token email0)
  then show ?thesis
    using oauth_finish_store [of s e "normalizeEmail email0" r w] by (auto simp: admin_at_Add_viewer)
qed simp



end
