(* ===== verification/Url.thy ===== *)
theory Url
  imports GoPrelude
begin

text \<open>
  \<open>net/url.Parse\<close>, as far as the backend uses it: whether a string parses, and the scheme and
  the host of the result. The order of the checks is the library's: control characters, scheme,
  query, authority, and the escapes of path, user information and fragment.
\<close>

definition is_letter :: "char \<Rightarrow> bool" where
  "is_letter c \<longleftrightarrow> in_range 65 90 c \<or> in_range 97 122 c"

definition is_alnum :: "char \<Rightarrow> bool" where
  "is_alnum c \<longleftrightarrow> is_letter c \<or> is_digit_byte c"

definition unhex :: "char \<Rightarrow> nat" where
  "unhex c =
     (if in_range 48 57 c then byte c - 48 else if in_range 97 102 c then byte c - 87
      else if in_range 65 70 c then byte c - 55 else 0)"

text \<open>Bytes that \<open>shouldEscape\<close> leaves alone in a host or a zone.\<close>

definition host_byte :: "char \<Rightarrow> bool" where
  "host_byte c \<longleftrightarrow> is_alnum c \<or> c \<in> set ''!$&()*+,;=:[]<>-_.~'' \<or> c = CHR 0x22 \<or> c = CHR 0x27"

text \<open>\<open>unescape\<close> for a host: an escape must stand for a percent sign or a byte outside ASCII.\<close>

fun unescape_host :: "string \<Rightarrow> string option" where
  "unescape_host [] = Some []"
| "unescape_host (c # s) =
     (if c = CHR ''%'' then
        (case s of
           a # b # t \<Rightarrow>
             if \<not> (is_hex_byte a \<and> is_hex_byte b) then None
             else if unhex a < 8 \<and> \<not> (a = CHR ''2'' \<and> b = CHR ''5'') then None
             else map_option ((#) (char_of (16 * unhex a + unhex b))) (unescape_host t)
         | _ \<Rightarrow> None)
      else if byte c < 128 \<and> \<not> host_byte c then None
      else map_option ((#) c) (unescape_host s))"

fun unescape_zone :: "string \<Rightarrow> string option" where
  "unescape_zone [] = Some []"
| "unescape_zone (c # s) =
     (if c = CHR ''%'' then
        (case s of
           a # b # t \<Rightarrow>
             let v = char_of (16 * unhex a + unhex b)
             in if \<not> (is_hex_byte a \<and> is_hex_byte b) then None
                else if \<not> (a = CHR ''2'' \<and> b = CHR ''5'') \<and> v \<noteq> CHR '' '' \<and> \<not> host_byte v then None
                else map_option ((#) v) (unescape_zone t)
         | _ \<Rightarrow> None)
      else if byte c < 128 \<and> \<not> host_byte c then None
      else map_option ((#) c) (unescape_zone s))"

text \<open>Whether every percent sign of a path, user or fragment starts an escape.\<close>

fun valid_escapes :: "string \<Rightarrow> bool" where
  "valid_escapes [] \<longleftrightarrow> True"
| "valid_escapes (c # s) \<longleftrightarrow>
     (if c = CHR ''%'' then
        (case s of a # b # t \<Rightarrow> is_hex_byte a \<and> is_hex_byte b \<and> valid_escapes t | _ \<Rightarrow> False)
      else valid_escapes s)"

definition validOptionalPort :: "string \<Rightarrow> bool" where
  "validOptionalPort p \<longleftrightarrow> p = [] \<or> (hd p = CHR '':'' \<and> list_all is_digit_byte (tl p))"

text \<open>The text from the last occurrence of a byte on, and the text before it.\<close>

definition last_part :: "char \<Rightarrow> string \<Rightarrow> string" where
  "last_part d s = d # rev (takeWhile (\<lambda>c. c \<noteq> d) (rev s))"

definition before_last :: "char \<Rightarrow> string \<Rightarrow> string" where
  "before_last d s = take (length s - length (last_part d s)) s"

text \<open>The index of the first occurrence of a text.\<close>

fun index_of :: "string \<Rightarrow> string \<Rightarrow> nat option" where
  "index_of [] p = (if p = [] then Some 0 else None)"
| "index_of (c # s) p = (if has_prefix (c # s) p then Some 0 else map_option Suc (index_of s p))"

definition concat2 :: "string option \<Rightarrow> string option \<Rightarrow> string option" where
  "concat2 a b = (case a of None \<Rightarrow> None | Some x \<Rightarrow> map_option ((@) x) b)"

definition parse_host :: "string \<Rightarrow> string option" where
  "parse_host h =
     (if has_prefix h ''['' then
        (if CHR '']'' \<notin> set h then None
         else
           let colonPort = tl (last_part CHR '']'' h); front = before_last CHR '']'' h
           in if \<not> validOptionalPort colonPort then None
              else case index_of front ''%25'' of
                None \<Rightarrow> unescape_host h
              | Some z \<Rightarrow> concat2 (concat2 (unescape_host (take z h)) (unescape_zone (drop z front)))
                            (unescape_host (last_part CHR '']'' h)))
      else if CHR '':'' \<in> set h \<and> \<not> validOptionalPort (last_part CHR '':'' h) then None
      else unescape_host h)"

definition userinfo_byte :: "char \<Rightarrow> bool" where
  "userinfo_byte c \<longleftrightarrow> is_alnum c \<or> c \<in> set ''-._:~!$&()*+,;=%@'' \<or> c = CHR 0x27"

definition parse_authority :: "string \<Rightarrow> string option" where
  "parse_authority a =
     (if CHR ''@'' \<notin> set a then parse_host a
      else case parse_host (tl (last_part CHR ''@'' a)) of
        None \<Rightarrow> None
      | Some h \<Rightarrow>
          let user = before_last CHR ''@'' a
          in if list_all userinfo_byte user \<and> valid_escapes user then Some h else None)"

definition scheme_byte :: "char \<Rightarrow> bool" where
  "scheme_byte c \<longleftrightarrow> is_alnum c \<or> c \<in> set ''+-.''"

text \<open>The scheme and the rest; \<open>None\<close> for a missing scheme before a colon.\<close>

definition get_scheme :: "string \<Rightarrow> (string \<times> string) option" where
  "get_scheme s =
     (if s = [] then Some ([], s)
      else if hd s = CHR '':'' then None
      else if \<not> is_letter (hd s) then Some ([], s)
      else
        let p = takeWhile scheme_byte s; r = dropWhile scheme_byte s
        in if r \<noteq> [] \<and> hd r = CHR '':'' then Some (p, tl r) else Some ([], s))"

definition has_control :: "string \<Rightarrow> bool" where
  "has_control s \<longleftrightarrow> list_ex (\<lambda>c. byte c < 32 \<or> byte c = 127) s"

definition url_parse_rest :: "string \<Rightarrow> string \<Rightarrow> (string \<times> string) option" where
  "url_parse_rest scheme rest0 =
     (let rest = takeWhile (\<lambda>c. c \<noteq> CHR ''?'') rest0
      in if \<not> has_prefix rest ''/'' \<and> scheme \<noteq> [] then Some (scheme, [])
         else if \<not> has_prefix rest ''/'' \<and> CHR '':'' \<in> set (takeWhile (\<lambda>c. c \<noteq> CHR ''/'') rest) then None
         else if (scheme \<noteq> [] \<or> \<not> has_prefix rest ''///'') \<and> has_prefix rest ''//'' then
           (let authority = takeWhile (\<lambda>c. c \<noteq> CHR ''/'') (drop 2 rest);
                path = dropWhile (\<lambda>c. c \<noteq> CHR ''/'') (drop 2 rest)
            in case parse_authority authority of
                 None \<Rightarrow> None
               | Some h \<Rightarrow> if valid_escapes path then Some (scheme, h) else None)
         else if valid_escapes rest then Some (scheme, []) else None)"

definition url_parse :: "string \<Rightarrow> (string \<times> string) option" where
  "url_parse raw =
     (let u = takeWhile (\<lambda>c. c \<noteq> CHR ''#'') raw; frag = tl (dropWhile (\<lambda>c. c \<noteq> CHR ''#'') raw)
      in if has_control u then None
         else case (if u = ''*'' then Some ([], []) else
                      case get_scheme u of
                        None \<Rightarrow> None
                      | Some (s, rest) \<Rightarrow> url_parse_rest (to_lower s) rest) of
                None \<Rightarrow> None
              | Some p \<Rightarrow> if valid_escapes frag then Some p else None)"

section \<open>Facts\<close>

text \<open>A host never contains a slash, and a text without a slash has no host.\<close>

lemma unhex_slash: "\<not> unhex a < 8 \<Longrightarrow> unhex a < 16 \<Longrightarrow> unhex b < 16 \<Longrightarrow> char_of (16 * unhex a + unhex b) \<noteq> CHR ''/''"
proof
  assume "\<not> unhex a < 8" "unhex a < 16" "unhex b < 16" "char_of (16 * unhex a + unhex b) = CHR ''/''"
  then have "byte (char_of (16 * unhex a + unhex b)) = (47 :: nat)" by simp
  with \<open>\<not> unhex a < 8\<close> \<open>unhex a < 16\<close> \<open>unhex b < 16\<close> show False by (simp add: of_char_of)
qed

lemma unhex_less: "unhex a < 16"
  by (auto simp: unhex_def in_range_def)

lemma slash_not_host_byte: "\<not> host_byte CHR ''/''" "byte CHR ''/'' < (128 :: nat)"
  by code_simp+

lemma percent25: "char_of (16 * unhex CHR ''2'' + unhex CHR ''5'') = CHR ''%''"
  by code_simp

lemma unescape_host_no_slash: "unescape_host s = Some h \<Longrightarrow> CHR ''/'' \<notin> set h"
proof (induction s arbitrary: h rule: unescape_host.induct)
  case (2 c s)
  show ?case
  proof (cases "c = CHR ''%''")
    case True
    with 2 obtain a b t where s: "s = a # b # t" by (auto split: list.splits)
    with 2 True obtain h' where h: "unescape_host t = Some h'" "h = char_of (16 * unhex a + unhex b) # h'"
        "\<not> (unhex a < 8 \<and> \<not> (a = CHR ''2'' \<and> b = CHR ''5''))" "is_hex_byte a \<and> is_hex_byte b"
      by (auto split: if_splits)
    have "char_of (16 * unhex a + unhex b) \<noteq> CHR ''/''"
    proof (cases "a = CHR ''2'' \<and> b = CHR ''5''")
      case True
      then show ?thesis by (simp only: percent25) simp
    next
      case False
      with h(3) have "\<not> unhex a < 8" by blast
      then show ?thesis by (rule unhex_slash [OF _ unhex_less unhex_less])
    qed
    moreover have "CHR ''/'' \<notin> set h'" using 2(1) True s h by simp
    ultimately show ?thesis using h(2) by simp
  next
    case False
    with 2 obtain h' where "unescape_host s = Some h'" "h = c # h'" "\<not> (byte c < 128 \<and> \<not> host_byte c)"
      by (auto split: if_splits)
    moreover from this have "c \<noteq> CHR ''/''" using slash_not_host_byte by blast
    ultimately show ?thesis using 2(2) False by auto
  qed
qed simp

lemma unescape_zone_no_slash: "unescape_zone s = Some h \<Longrightarrow> CHR ''/'' \<notin> set h"
proof (induction s arbitrary: h rule: unescape_zone.induct)
  case (2 c s)
  show ?case
  proof (cases "c = CHR ''%''")
    case True
    with 2 obtain a b t where s: "s = a # b # t" by (auto split: list.splits)
    let ?v = "char_of (16 * unhex a + unhex b) :: char"
    from s 2 True obtain h' where h: "unescape_zone t = Some h'" "h = ?v # h'"
        "\<not> (\<not> (a = CHR ''2'' \<and> b = CHR ''5'') \<and> ?v \<noteq> CHR '' '' \<and> \<not> host_byte ?v)" "is_hex_byte a \<and> is_hex_byte b"
      by (auto simp: Let_def split: if_splits)
    have "?v \<noteq> CHR ''/''"
    proof (cases "a = CHR ''2'' \<and> b = CHR ''5''")
      case True
      then show ?thesis by (simp only: percent25) simp
    next
      case False
      with h(3) have "?v = CHR '' '' \<or> host_byte ?v" by blast
      then show ?thesis
      proof
        assume "?v = CHR '' ''"
        then show ?thesis by (simp only:) simp
      next
        assume "host_byte ?v"
        with slash_not_host_byte(1) show ?thesis by metis
      qed
    qed
    moreover have "CHR ''/'' \<notin> set h'" using 2(1) True s h by simp
    ultimately show ?thesis using h(2) by simp
  next
    case False
    with 2 obtain h' where "unescape_zone s = Some h'" "h = c # h'" "\<not> (byte c < 128 \<and> \<not> host_byte c)"
      by (auto split: if_splits)
    moreover from this have "c \<noteq> CHR ''/''" using slash_not_host_byte by blast
    ultimately show ?thesis using 2(2) False by auto
  qed
qed simp

lemma concat2_no_slash:
  "concat2 a b = Some h \<Longrightarrow> (\<And>x. a = Some x \<Longrightarrow> d \<notin> set x) \<Longrightarrow> (\<And>x. b = Some x \<Longrightarrow> d \<notin> set x) \<Longrightarrow> d \<notin> set h"
  by (auto simp: concat2_def split: option.splits)

lemma parse_host_no_slash: "parse_host s = Some h \<Longrightarrow> CHR ''/'' \<notin> set h"
  by (auto simp: parse_host_def Let_def split: if_splits option.splits
      dest!: concat2_no_slash [where d = "CHR ''/''"] dest: unescape_host_no_slash unescape_zone_no_slash)

lemma parse_authority_no_slash: "parse_authority s = Some h \<Longrightarrow> CHR ''/'' \<notin> set h"
  by (auto simp: parse_authority_def Let_def split: if_splits option.splits dest: parse_host_no_slash)

lemma url_parse_rest_host:
  assumes "url_parse_rest s r = Some (s', h)" and "h \<noteq> []"
  shows "CHR ''/'' \<notin> set h" and "CHR ''/'' \<in> set r"
proof -
  let ?r = "takeWhile (\<lambda>c. c \<noteq> CHR ''?'') r"
  have p: "has_prefix ?r ''//''" and a: "parse_authority (takeWhile (\<lambda>c. c \<noteq> CHR ''/'') (drop 2 ?r)) = Some h"
    using assms by (auto simp: url_parse_rest_def Let_def split: if_splits option.splits)
  show "CHR ''/'' \<notin> set h" using a by (rule parse_authority_no_slash)
  from p have "CHR ''/'' \<in> set ?r" by (auto simp: has_prefix_iff)
  then show "CHR ''/'' \<in> set r" by (rule set_takeWhileD [THEN conjunct1])
qed

lemma get_scheme_set: "get_scheme s = Some (p, r) \<Longrightarrow> set r \<subseteq> set s"
proof -
  have "set (dropWhile scheme_byte s) \<subseteq> set s" by (blast dest: set_dropWhileD)
  then have "set (tl (dropWhile scheme_byte s)) \<subseteq> set s"
    by (metis list.set_sel(2) subset_iff tl_Nil)
  moreover assume "get_scheme s = Some (p, r)"
  ultimately show ?thesis by (auto simp: get_scheme_def Let_def split: if_splits)
qed

lemma url_parse_host:
  assumes "url_parse raw = Some (s, h)" and "h \<noteq> []"
  shows "CHR ''/'' \<notin> set h" and "CHR ''/'' \<in> set raw"
proof -
  let ?u = "takeWhile (\<lambda>c. c \<noteq> CHR ''#'') raw"
  obtain p r where g: "get_scheme ?u = Some (p, r)" "url_parse_rest (to_lower p) r = Some (s, h)"
    using assms by (auto simp: url_parse_def Let_def split: if_splits option.splits)
  show "CHR ''/'' \<notin> set h" using url_parse_rest_host(1) [OF g(2) assms(2)] .
  from url_parse_rest_host(2) [OF g(2) assms(2)] get_scheme_set [OF g(1)]
  have "CHR ''/'' \<in> set ?u" by blast
  then show "CHR ''/'' \<in> set raw" by (rule set_takeWhileD [THEN conjunct1])
qed

end
