(* ===== verification/Csrf.thy ===== *)
theory Csrf
  imports Url Http Base64 Settings
begin

text \<open>
  Protection against cross-site requests, \<open>backend/middleware/csrf.go\<close>: the signed double-submit
  cookie, the check of the \<open>Origin\<close> header, and the paths that bypass the token. HMAC-SHA256 is
  a parameter \<open>hmac\<close> of key and message; the random bytes of \<open>newToken\<close> are an input. The
  header of the response and the \<open>Secure\<close> middleware of \<open>secure.go\<close> close the theory.
\<close>

section \<open>The token\<close>

definition csrfCookieName :: string where "csrfCookieName = ''unyport_csrf_token''"
definition csrfHeaderName :: string where "csrfHeaderName = ''X-Csrf-Token''"
definition csrfMaxAge :: int where "csrfMaxAge = 3600"

record csrf_manager =
  csrf_secret :: string
  csrf_secure :: bool

type_synonym mac = "string \<Rightarrow> string \<Rightarrow> string"

definition sign :: "mac \<Rightarrow> csrf_manager \<Rightarrow> string \<Rightarrow> string" where
  "sign hmac m token = hmac (csrf_secret m) token"

text \<open>\<open>newToken\<close>; the nonce is the 32 random bytes, or \<open>None\<close> when reading them fails.\<close>

definition newToken :: "mac \<Rightarrow> csrf_manager \<Rightarrow> string option \<Rightarrow> (string \<times> string) option" where
  "newToken hmac m nonce =
     (case nonce of
        None \<Rightarrow> None
      | Some bytes \<Rightarrow>
          let token = b64_encode UrlAlphabet False bytes
          in Some (token, token @ ''.'' @ b64_encode UrlAlphabet False (sign hmac m token)))"

definition parseCookie :: "mac \<Rightarrow> csrf_manager \<Rightarrow> string \<Rightarrow> string option" where
  "parseCookie hmac m v =
     (case cut CHR ''.'' v of (token, rawSig, ok) \<Rightarrow>
        if \<not> ok \<or> token = [] \<or> rawSig = [] then None
        else case b64_decode UrlAlphabet False token of
          None \<Rightarrow> None
        | Some nonce \<Rightarrow>
            if length nonce \<noteq> 32 then None
            else case b64_decode UrlAlphabet False rawSig of
              None \<Rightarrow> None
            | Some sig \<Rightarrow> if sig \<noteq> sign hmac m token then None else Some token)"

definition csrf_cookie :: "csrf_manager \<Rightarrow> string \<Rightarrow> set_cookie" where
  "csrf_cookie m v =
     \<lparr>ck_name = csrfCookieName, ck_value = v, ck_path = ''/'', ck_max_age = csrfMaxAge, ck_expires = None,
      ck_http_only = True, ck_secure = csrf_secure m, ck_same_site_lax = True\<rparr>"

text \<open>\<open>ensureToken\<close>: the token, and the cookie that is set when there was no valid one.\<close>

definition ensureToken :: "mac \<Rightarrow> csrf_manager \<Rightarrow> string option \<Rightarrow> request \<Rightarrow> (string \<times> set_cookie option) option" where
  "ensureToken hmac m nonce r =
     (case Option.bind (cookie r csrfCookieName) (parseCookie hmac m) of
        Some token \<Rightarrow> Some (token, None)
      | None \<Rightarrow>
          (case newToken hmac m nonce of
             None \<Rightarrow> None
           | Some (token, v) \<Rightarrow> Some (token, Some (csrf_cookie m v))))"

datatype csrf_reason = MissingCookie | InvalidCookie | MissingToken | TokenMismatch

definition validateRequest :: "mac \<Rightarrow> csrf_manager \<Rightarrow> request \<Rightarrow> csrf_reason option" where
  "validateRequest hmac m r =
     (case cookie r csrfCookieName of
        None \<Rightarrow> Some MissingCookie
      | Some v \<Rightarrow>
          if v = [] then Some MissingCookie
          else case parseCookie hmac m v of
            None \<Rightarrow> Some InvalidCookie
          | Some cookieToken \<Rightarrow>
              let t1 = trim_space (header r csrfHeaderName);
                  t2 = (if t1 = [] then trim_space (header r ''X-Xsrf-Token'') else t1)
              in if t2 = [] then Some MissingToken
                 else if cookieToken \<noteq> t2 then Some TokenMismatch
                 else None)"

section \<open>Origins\<close>

definition isSafeMethod :: "string \<Rightarrow> bool" where
  "isSafeMethod m \<longleftrightarrow> m \<in> {''GET'', ''HEAD'', ''OPTIONS'', ''TRACE''}"

definition origin_key :: "string \<Rightarrow> string \<Rightarrow> string" where
  "origin_key scheme h = scheme @ ''://'' @ h"

definition originSet :: "string list \<Rightarrow> string set" where
  "originSet origins =
     set (List.map_filter
       (\<lambda>raw. case url_parse raw of
                None \<Rightarrow> None
              | Some (s, h) \<Rightarrow> if s = [] \<or> h = [] then None else Some (origin_key s h)) origins)"

definition requestScheme :: "request \<Rightarrow> bool \<Rightarrow> string" where
  "requestScheme r https =
     (if https \<or> tls r then ''https''
      else if to_lower (trim_space (header r ''X-Forwarded-Proto'')) = ''https'' then ''https'' else ''http'')"

definition validOrigin :: "request \<Rightarrow> string set \<Rightarrow> bool \<Rightarrow> bool" where
  "validOrigin r trusted https \<longleftrightarrow>
     (if isSafeMethod (req_method r) then True
      else
        let orig = header r ''Origin''
        in if orig = [] then True
           else case url_parse orig of
             None \<Rightarrow> False
           | Some (s, h) \<Rightarrow>
               if s = [] \<or> h = [] then False
               else if origin_key s h \<in> trusted then True
               else s = requestScheme r https \<and> h = host r)"

section \<open>The middleware\<close>

definition bypassPaths :: "string list" where
  "bypassPaths =
     [''/api/login'', ''/api/oauth/login'', ''/api/oauth/callback'', ''/api/session'', ''/api/logout'', ''/sse/system'']"

definition CSRFBypass :: "'w middleware" where
  "CSRFBypass next_h r w = next_h (if path r \<in> set bypassPaths then r\<lparr>ctx_csrf_skip := True\<rparr> else r) w"

definition writeCSRFError :: "nat \<Rightarrow> string \<Rightarrow> response" where
  "writeCSRFError code msg =
     with_header ''Content-Type'' ''application/json'' (respond code (Json (JObj [(''error'', JStr msg)])))"

text \<open>The construction of the manager: \<open>None\<close> is the panic on a bad secret.\<close>

definition new_csrf_manager :: "settings \<Rightarrow> csrf_manager option" where
  "new_csrf_manager st =
     (case b64_decode StdAlphabet True (CSRFSecret (Security st)) of
        None \<Rightarrow> None
      | Some secret \<Rightarrow>
          if length secret \<noteq> 32 then None
          else Some \<lparr>csrf_secret = secret, csrf_secure = HTTPS (Security2 st)\<rparr>)"

definition CSRFProtect :: "mac \<Rightarrow> csrf_manager \<Rightarrow> string list \<Rightarrow> bool \<Rightarrow> 'w middleware" where
  "CSRFProtect hmac m trustedOrigins https next_h r w =
     (if \<not> validOrigin r (originSet trustedOrigins) https then (writeCSRFError 403 ''csrf_origin_forbidden'', w)
      else if isSafeMethod (req_method r) \<or> ctx_csrf_skip r then next_h r w
      else case validateRequest hmac m r of
        Some _ \<Rightarrow> (writeCSRFError 403 ''csrf_invalid'', w)
      | None \<Rightarrow> next_h r w)"

definition CSRFTokenHandler :: "mac \<Rightarrow> csrf_manager option \<Rightarrow> string option \<Rightarrow> 'w handler" where
  "CSRFTokenHandler hmac active nonce r w =
     (case active of
        None \<Rightarrow> (writeCSRFError 500 ''csrf_unavailable'', w)
      | Some m \<Rightarrow>
          (case ensureToken hmac m nonce r of
             None \<Rightarrow> (writeCSRFError 500 ''csrf_unavailable'', w)
           | Some (token, ock) \<Rightarrow>
               let reply = with_header ''Content-Type'' ''application/json''
                             (respond 200 (Json (JObj [(''csrf_token'', JStr token)])))
               in ((case ock of None \<Rightarrow> reply | Some ck \<Rightarrow> with_cookie ck reply), w)))"

section \<open>Secure\<close>

definition quoted :: "string \<Rightarrow> string" where
  "quoted s = [CHR 0x27] @ s @ [CHR 0x27]"

definition csp_directives :: "string list" where
  "csp_directives =
     [''default-src '' @ quoted ''self'', ''base-uri '' @ quoted ''self'', ''frame-ancestors '' @ quoted ''none'',
      ''object-src '' @ quoted ''none'', ''img-src '' @ quoted ''self'' @ '' data:'',
      ''connect-src '' @ quoted ''self'' @ '' ws: wss:'', ''script-src '' @ quoted ''self'',
      ''style-src '' @ quoted ''self'', ''style-src-elem '' @ quoted ''self'', ''style-src-attr '' @ quoted ''none'',
      ''font-src '' @ quoted ''self'', ''worker-src '' @ quoted ''self'', ''manifest-src '' @ quoted ''self'',
      ''form-action '' @ quoted ''self'']"

definition secure_headers :: "bool \<Rightarrow> (string \<times> string) list" where
  "secure_headers https =
     [(''X-Frame-Options'', ''DENY''), (''X-Content-Type-Options'', ''nosniff''),
      (''Referrer-Policy'', ''strict-origin-when-cross-origin''),
      (''Permissions-Policy'', ''geolocation=(), microphone=(), camera=()''),
      (''Content-Security-Policy'', join ''; '' csp_directives)] @
     (if https then [(''Strict-Transport-Security'', ''max-age=63072000; includeSubDomains; preload'')] else [])"

text \<open>The headers are set before the handler runs, which may set them anew.\<close>

definition Secure :: "bool \<Rightarrow> 'w middleware" where
  "Secure https next_h r w =
     (case next_h r w of (rs, w') \<Rightarrow>
        (rs\<lparr>resp_headers := fold (\<lambda>(k, v). AList.update k v) (rev (resp_headers rs)) (secure_headers https)\<rparr>, w'))"

section \<open>Facts\<close>

lemma parseCookie_Some:
  "parseCookie hmac m v = Some token \<longleftrightarrow>
     (\<exists>rawSig nonce. v = token @ CHR ''.'' # rawSig \<and> CHR ''.'' \<notin> set token \<and> token \<noteq> [] \<and> rawSig \<noteq> [] \<and>
        b64_decode UrlAlphabet False token = Some nonce \<and> length nonce = 32 \<and>
        b64_decode UrlAlphabet False rawSig = Some (sign hmac m token))"
proof -
  obtain a b ok where c: "cut CHR ''.'' v = (a, b, ok)" by (cases "cut CHR ''.'' v") auto
  show ?thesis
  proof (cases ok)
    case True
    with c have "cut CHR ''.'' v = (a, b, True)" by simp
    then have v: "v = a @ CHR ''.'' # b" "CHR ''.'' \<notin> set a" unfolding cut_True by blast+
    have u: "a @ CHR ''.'' # b = token @ CHR ''.'' # rawSig \<and> CHR ''.'' \<notin> set token \<longleftrightarrow> token = a \<and> rawSig = b" for rawSig
    proof
      assume *: "a @ CHR ''.'' # b = token @ CHR ''.'' # rawSig \<and> CHR ''.'' \<notin> set token"
      note eq = * [THEN conjunct1] and nd = * [THEN conjunct2]
      have "(token, rawSig, True) = cut CHR ''.'' (token @ CHR ''.'' # rawSig)" by (rule cut_append [OF nd, symmetric])
      also have "\<dots> = cut CHR ''.'' (a @ CHR ''.'' # b)" by (rule arg_cong [OF eq [symmetric]])
      also have "\<dots> = (a, b, True)" by (rule cut_append [OF v(2)])
      finally show "token = a \<and> rawSig = b" by (simp only: prod.inject simp_thms)
    qed (use v(2) in simp)
    have "parseCookie hmac m v = Some token \<longleftrightarrow>
        a \<noteq> [] \<and> b \<noteq> [] \<and> token = a \<and> (\<exists>nonce. b64_decode UrlAlphabet False a = Some nonce \<and> length nonce = 32) \<and>
        b64_decode UrlAlphabet False b = Some (sign hmac m a)"
    proof (cases "b64_decode UrlAlphabet False a")
      case None
      with c True show ?thesis by (simp add: parseCookie_def)
    next
      case (Some n)
      with c True show ?thesis
        by (cases "b64_decode UrlAlphabet False b") (simp_all add: parseCookie_def, blast)
    qed
    also have "\<dots> \<longleftrightarrow> (\<exists>rawSig nonce. (a @ CHR ''.'' # b = token @ CHR ''.'' # rawSig \<and> CHR ''.'' \<notin> set token) \<and>
        token \<noteq> [] \<and> rawSig \<noteq> [] \<and> b64_decode UrlAlphabet False token = Some nonce \<and> length nonce = 32 \<and>
        b64_decode UrlAlphabet False rawSig = Some (sign hmac m token))"
      unfolding u by auto
    finally show ?thesis unfolding v(1) conj_assoc .
  next
    case False
    with c have "CHR ''.'' \<notin> set v" by (auto simp: cut_def split: if_splits)
    then show ?thesis using c False by (auto simp: parseCookie_def)
  qed
qed

lemma parse_newToken:
  assumes "newToken hmac m (Some bytes) = Some (token, v)" and "length bytes = 32"
    and "sign hmac m token \<noteq> []"
  shows "parseCookie hmac m v = Some token" and "trim_space token = token" and "token \<noteq> []"
proof -
  have t: "token = b64_encode UrlAlphabet False bytes"
    and v: "v = token @ CHR ''.'' # b64_encode UrlAlphabet False (sign hmac m token)"
    using assms(1) by (auto simp: newToken_def Let_def)
  have "bytes \<noteq> []" using assms(2) by auto
  then show ne: "token \<noteq> []" unfolding t b64_encode_Nil .
  show "trim_space token = token" unfolding t by (rule trim_space_encode)
  let ?sig = "b64_encode UrlAlphabet False (sign hmac m token)"
  have "?sig \<noteq> []" unfolding b64_encode_Nil by (rule assms(3))
  moreover have "b64_decode UrlAlphabet False ?sig = Some (sign hmac m token)" by (rule b64_decode_encode)
  moreover have "b64_decode UrlAlphabet False token = Some bytes" unfolding t by (rule b64_decode_encode)
  moreover have "CHR ''.'' \<notin> set token" unfolding t by (rule b64_encode_no_dot)
  ultimately have "token @ CHR ''.'' # ?sig = token @ CHR ''.'' # ?sig \<and> CHR ''.'' \<notin> set token \<and> token \<noteq> [] \<and> ?sig \<noteq> [] \<and>
      b64_decode UrlAlphabet False token = Some bytes \<and> length bytes = 32 \<and>
      b64_decode UrlAlphabet False ?sig = Some (sign hmac m token)"
    using ne assms(2) by (intro conjI refl)
  then show "parseCookie hmac m v = Some token"
    unfolding parseCookie_Some v by (intro exI)
qed

text \<open>A request that carries the cookie \<open>v\<close> and the header \<open>token\<close>.\<close>

lemma validateRequest_ok:
  assumes "cookie r csrfCookieName = Some v" and "parseCookie hmac m v = Some token"
    and "header r csrfHeaderName = token" and "trim_space token = token"
  shows "validateRequest hmac m r = None"
proof -
  have "token \<noteq> []" "v \<noteq> []" using assms(2) unfolding parseCookie_Some by auto
  then show ?thesis using assms by (simp add: validateRequest_def Let_def)
qed

lemma parseCookie_trim:
  assumes "parseCookie hmac m v = Some token" and "CHR 0x0A \<notin> set v" and "CHR 0x0D \<notin> set v"
  shows "trim_space token = token"
proof -
  obtain rawSig nonce where v: "v = token @ CHR ''.'' # rawSig" "b64_decode UrlAlphabet False token = Some nonce"
    using assms(1) unfolding parseCookie_Some by blast
  have "CHR 0x0A \<notin> set token" "CHR 0x0D \<notin> set token" using assms(2,3) v(1) by simp_all
  then show ?thesis using b64_decode_graphic [OF v(2)] by (intro trim_space_graphic) blast
qed

text \<open>The token a request presents, from the two headers the code accepts.\<close>

definition presented_token :: "request \<Rightarrow> string" where
  "presented_token r =
     (if trim_space (header r csrfHeaderName) = [] then trim_space (header r ''X-Xsrf-Token'')
      else trim_space (header r csrfHeaderName))"

lemma validateRequest_iff:
  "validateRequest hmac m r = None \<longleftrightarrow>
     (\<exists>v token. cookie r csrfCookieName = Some v \<and> parseCookie hmac m v = Some token \<and> presented_token r = token)"
proof (cases "cookie r csrfCookieName")
  case None
  then show ?thesis by (simp add: validateRequest_def)
next
  case (Some v)
  show ?thesis
  proof (cases "parseCookie hmac m v")
    case None
    with Some show ?thesis by (simp add: validateRequest_def)
  next
    case (Some t)
    then have "t \<noteq> []" "v \<noteq> []" unfolding parseCookie_Some by auto
    with Some \<open>cookie r csrfCookieName = Some v\<close> show ?thesis
      by (auto simp: validateRequest_def presented_token_def Let_def)
  qed
qed

lemma map_of_fold_update:
  "map_of (fold (\<lambda>(k, v). AList.update k v) (rev xs) base) k =
     (case map_of xs k of Some v \<Rightarrow> Some v | None \<Rightarrow> map_of base k)"
  by (induction xs) (auto simp: update_conv)

section \<open>Properties\<close>

text \<open>
  C5. A request that can change something, outside the bypassed paths, gets through the two
  middlewares exactly if its origin is acceptable and it carries both halves of one token: a
  cookie \<open>token.sig\<close> whose signature decodes to the MAC of the token under the server's secret, and the
  same token in a header. Otherwise it is answered 403 and the state does not change.
\<close>

theorem unsafe_request_needs_token:
  assumes "\<not> isSafeMethod (req_method r)" and "path r \<notin> set bypassPaths" and "\<not> ctx_csrf_skip r"
  shows "CSRFBypass (CSRFProtect hmac m trusted https next_h) r w =
    (if \<not> validOrigin r (originSet trusted) https then (writeCSRFError 403 ''csrf_origin_forbidden'', w)
     else if \<exists>token rawSig nonce. cookie r csrfCookieName = Some (token @ CHR ''.'' # rawSig) \<and>
         CHR ''.'' \<notin> set token \<and> token \<noteq> [] \<and> rawSig \<noteq> [] \<and>
         b64_decode UrlAlphabet False token = Some nonce \<and> length nonce = 32 \<and>
         b64_decode UrlAlphabet False rawSig = Some (hmac (csrf_secret m) token) \<and> presented_token r = token
     then next_h r w
     else (writeCSRFError 403 ''csrf_invalid'', w))"
proof -
  let ?ok = "\<exists>token rawSig nonce. cookie r csrfCookieName = Some (token @ CHR ''.'' # rawSig) \<and>
         CHR ''.'' \<notin> set token \<and> token \<noteq> [] \<and> rawSig \<noteq> [] \<and>
         b64_decode UrlAlphabet False token = Some nonce \<and> length nonce = 32 \<and>
         b64_decode UrlAlphabet False rawSig = Some (hmac (csrf_secret m) token) \<and> presented_token r = token"
  have v: "validateRequest hmac m r = None \<longleftrightarrow> ?ok"
    unfolding validateRequest_iff parseCookie_Some sign_def by blast
  show ?thesis
    using assms unfolding v [symmetric] by (simp add: CSRFBypass_def CSRFProtect_def split: option.split)
qed

definition toy_mac :: mac where
  "toy_mac k m = k @ take 31 m"

definition toy_manager :: csrf_manager where
  "toy_manager = \<lparr>csrf_secret = ''k'', csrf_secure = True\<rparr>"

theorem unsafe_request_needs_token_witness:
  "CSRFBypass (CSRFProtect toy_mac toy_manager [] False (\<lambda>r w. (jsonOK, Suc w))) (base_request ''POST'' ''/api/admin/users'') 0 =
     (writeCSRFError 403 ''csrf_invalid'', 0)"
proof -
  let ?r = "base_request ''POST'' ''/api/admin/users''"
  have r: "\<not> isSafeMethod (req_method ?r)" "path ?r \<notin> set bypassPaths" "\<not> ctx_csrf_skip ?r"
    by (simp_all add: base_request_def isSafeMethod_def bypassPaths_def)
  have "cookie ?r csrfCookieName = None" "validOrigin ?r (originSet []) False"
    by (simp_all add: base_request_def cookie_def validOrigin_def header_def Let_def)
  then show ?thesis by (simp add: unsafe_request_needs_token [OF r])
qed

text \<open>
  The token the server hands out is one it accepts: after the token handler has answered, any
  request with the cookie the client then holds (the one just set or, when none was set, the one it
  already had) and the token of the answer in the header passes the validation. An existing valid cookie is
  kept, not replaced.
\<close>

theorem csrf_token_accepted:
  assumes "CSRFTokenHandler hmac (Some m) (Some bytes) r w = (rs, w')"
    and "length bytes = 32" and "\<And>t. sign hmac m t \<noteq> []"
    and "\<And>v. cookie r csrfCookieName = Some v \<Longrightarrow> CHR 0x0A \<notin> set v \<and> CHR 0x0D \<notin> set v"
    and "cookie r' csrfCookieName =
      (case set_cookies rs of [] \<Rightarrow> cookie r csrfCookieName | ck # _ \<Rightarrow> Some (ck_value ck))"
    and "content rs = Json (JObj [(''csrf_token'', JStr (header r' csrfHeaderName))])"
  shows "validateRequest hmac m r' = None"
proof (cases "Option.bind (cookie r csrfCookieName) (parseCookie hmac m)")
  case (Some token)
  then obtain v where v: "cookie r csrfCookieName = Some v" "parseCookie hmac m v = Some token"
    by (auto simp: Option.bind_eq_Some_conv)
  have rs: "set_cookies rs = []" "content rs = Json (JObj [(''csrf_token'', JStr token)])"
    using assms(1) Some by (auto simp: CSRFTokenHandler_def ensureToken_def)
  have t: "header r' csrfHeaderName = token" using rs(2) assms(6) by simp
  show ?thesis
    using validateRequest_ok [OF _ v(2) t parseCookie_trim [OF v(2)]] assms(4) [OF v(1)] assms(5) rs(1) v(1) by simp
next
  case None
  obtain token v where n: "newToken hmac m (Some bytes) = Some (token, v)" by (simp add: newToken_def Let_def)
  note p = parse_newToken [OF n assms(2,3)]
  have rs: "set_cookies rs = [csrf_cookie m v]" "content rs = Json (JObj [(''csrf_token'', JStr token)])"
    using assms(1) None n by (auto simp: CSRFTokenHandler_def ensureToken_def)
  have t: "header r' csrfHeaderName = token" using rs(2) assms(6) by simp
  show ?thesis
    by (rule validateRequest_ok [OF _ p(1) t p(2)]) (use assms(5) rs(1) in \<open>simp add: csrf_cookie_def\<close>)
qed

theorem csrf_token_accepted_witness:
  "\<exists>token ck. set_cookies (fst (CSRFTokenHandler toy_mac (Some toy_manager) (Some (replicate 32 CHR ''n''))
        (base_request ''GET'' ''/api/csrf'') ())) = [ck] \<and>
     validateRequest toy_mac toy_manager
       ((base_request ''POST'' ''/api/profile'')
          \<lparr>cookies := [(csrfCookieName, ck_value ck)], headers := [(csrfHeaderName, token)]\<rparr>) = None"
proof -
  let ?r = "base_request ''GET'' ''/api/csrf''"
  let ?token = "b64_encode UrlAlphabet False (replicate 32 CHR ''n'')"
  let ?ck = "csrf_cookie toy_manager (?token @ ''.'' @ b64_encode UrlAlphabet False (sign toy_mac toy_manager ?token))"
  let ?rs = "with_cookie ?ck (with_header ''Content-Type'' ''application/json''
               (respond 200 (Json (JObj [(''csrf_token'', JStr ?token)]))))"
  let ?q = "(base_request ''POST'' ''/api/profile'')
          \<lparr>cookies := [(csrfCookieName, ck_value ?ck)], headers := [(csrfHeaderName, ?token)]\<rparr>"
  have h: "CSRFTokenHandler toy_mac (Some toy_manager) (Some (replicate 32 CHR ''n'')) ?r () = (?rs, ())"
    by (simp add: CSRFTokenHandler_def ensureToken_def newToken_def Let_def cookie_def base_request_def)
  have c: "cookie ?q csrfCookieName = (case set_cookies ?rs of [] \<Rightarrow> cookie ?r csrfCookieName | ck # _ \<Rightarrow> Some (ck_value ck))"
    by (simp add: cookie_def)
  have t: "content ?rs = Json (JObj [(''csrf_token'', JStr (header ?q csrfHeaderName))])"
    by (simp add: header_def)
  have "validateRequest toy_mac toy_manager ?q = None"
    by (rule csrf_token_accepted [OF h _ _ _ c t]) (simp_all add: sign_def toy_mac_def toy_manager_def cookie_def base_request_def)
  with h show ?thesis by fastforce
qed

text \<open>
  Every response leaves with the security headers: whatever the handler answers, each header of \<open>Secure\<close> is in
  the response with its fixed value unless the handler sets that very header itself.
\<close>

theorem secure_headers_added:
  "resp_header (fst (Secure https next_h r w)) k =
     (case resp_header (fst (next_h r w)) k of Some v \<Rightarrow> Some v | None \<Rightarrow> map_of (secure_headers https) k)"
  by (simp add: Secure_def resp_header_def map_of_fold_update split: prod.split)

end
