(* ===== verification/Xenctl.thy ===== *)
theory Xenctl
  imports AdminAccess
begin

text \<open>
  Control of the Xen domains through the \<open>xl\<close> tool: the client of \<open>backend/xenctl/xenctl.go\<close> and
  the handlers of \<open>xenctl/http.go\<close>. Running a program is an effect: the command line is recorded in
  the state (\<open>w_xl\<close>), and its output and fate are inputs. Floating-point numbers are an abstract
  type \<open>'f\<close> with the parser \<open>pf\<close> (\<open>strconv.ParseFloat\<close>).
\<close>

section \<open>The client\<close>

text \<open>The two regular expressions: an alphanumeric byte, then at most \<open>n\<close> of a class.\<close>

definition name_byte :: "char \<Rightarrow> bool" where
  "name_byte c \<longleftrightarrow> in_range 48 57 c \<or> in_range 65 90 c \<or> in_range 97 122 c \<or> c \<in> set ''_.:-''"

definition match_name :: "nat \<Rightarrow> string \<Rightarrow> bool" where
  "match_name n s \<longleftrightarrow>
     s \<noteq> [] \<and> (in_range 48 57 (hd s) \<or> in_range 65 90 (hd s) \<or> in_range 97 122 (hd s)) \<and>
     list_all name_byte (tl s) \<and> length (tl s) \<le> n"

definition domainNameRE :: "string \<Rightarrow> bool" where "domainNameRE s \<longleftrightarrow> match_name 127 s"
definition hostNameRE :: "string \<Rightarrow> bool" where "hostNameRE s \<longleftrightarrow> match_name 253 s"

definition isControlDomain :: "string \<Rightarrow> bool" where
  "isControlDomain d \<longleftrightarrow> d = ''0'' \<or> equal_fold d ''Domain-0''"

definition validConfigPath :: "string \<Rightarrow> bool" where
  "validConfigPath p \<longleftrightarrow>
     (if p = [] \<or> list_ex (\<lambda>c. c \<in> {CHR 0x00, CHR 0x0D, CHR 0x0A}) p then False
      else if \<not> has_prefix p ''/etc/xen/'' \<and> \<not> has_prefix p ''/media/'' then False
      else has_suffix p ''.cfg'')"

datatype xl_error =
    InvalidDomain | ControlDomain | InvalidHost | InvalidConfig | TimedOut string
  | RunFailed string string | AdminRequired | UnknownAction

datatype run_fate = RunOk | RunDeadline | RunError string

record client =
  Bin :: string

record action_result =
  result_ok :: bool
  Action :: string
  Args :: "string list"
  Output :: string
  DryRun :: bool
  Message :: string

text \<open>What the environment contributes to one request: the fate and the output of a command.\<close>

type_synonym runner = "string list \<Rightarrow> string \<times> run_fate"

type_synonym 'a xl_result = "string list list \<Rightarrow> (xl_error + 'a) \<times> string list list"

definition run_xl :: "runner \<Rightarrow> client \<Rightarrow> string list \<Rightarrow> string xl_result" where
  "run_xl rn c args log =
     (let bin = (if Bin c = [] then ''xl'' else Bin c); cmd = bin # args
      in ((case rn cmd of
             (out, RunDeadline) \<Rightarrow> Inl (TimedOut (hd args))
           | (out, RunError msg) \<Rightarrow> Inl (RunFailed (hd args) msg)
           | (out, RunOk) \<Rightarrow> Inr out), cmd # log))"

text \<open>The callers drop the partial result of a failed action, and so does the model.\<close>

definition xl_action :: "runner \<Rightarrow> client \<Rightarrow> bool \<Rightarrow> string list \<Rightarrow> action_result xl_result" where
  "xl_action rn c dryRun args log =
     (let result = \<lparr>result_ok = True, Action = hd args, Args = args, Output = [], DryRun = dryRun, Message = []\<rparr>
      in if dryRun then (Inr (result\<lparr>Message := ''validated''\<rparr>), log)
         else case run_xl rn c args log of
                (Inl x, log') \<Rightarrow> (Inl x, log')
              | (Inr out, log') \<Rightarrow> (Inr (result\<lparr>Output := trim_space out\<rparr>), log'))"

definition domainAction :: "runner \<Rightarrow> client \<Rightarrow> bool \<Rightarrow> string \<Rightarrow> string \<Rightarrow> action_result xl_result" where
  "domainAction rn c dryRun act d log =
     (if \<not> domainNameRE d then (Inl InvalidDomain, log)
      else if isControlDomain d then (Inl ControlDomain, log)
      else xl_action rn c dryRun [act, d] log)"

definition xl_Shutdown :: "runner \<Rightarrow> client \<Rightarrow> string \<Rightarrow> bool \<Rightarrow> action_result xl_result" where
  "xl_Shutdown rn c d dry = domainAction rn c dry ''shutdown'' d"

definition xl_Reboot :: "runner \<Rightarrow> client \<Rightarrow> string \<Rightarrow> bool \<Rightarrow> action_result xl_result" where
  "xl_Reboot rn c d dry = domainAction rn c dry ''reboot'' d"

definition xl_Pause :: "runner \<Rightarrow> client \<Rightarrow> string \<Rightarrow> bool \<Rightarrow> action_result xl_result" where
  "xl_Pause rn c d dry = domainAction rn c dry ''pause'' d"

definition xl_Unpause :: "runner \<Rightarrow> client \<Rightarrow> string \<Rightarrow> bool \<Rightarrow> action_result xl_result" where
  "xl_Unpause rn c d dry = domainAction rn c dry ''unpause'' d"

definition xl_Destroy :: "runner \<Rightarrow> client \<Rightarrow> string \<Rightarrow> bool \<Rightarrow> action_result xl_result" where
  "xl_Destroy rn c d dry = domainAction rn c dry ''destroy'' d"

definition xl_Create :: "runner \<Rightarrow> client \<Rightarrow> string \<Rightarrow> bool \<Rightarrow> action_result xl_result" where
  "xl_Create rn c p dry log =
     (if \<not> validConfigPath p then (Inl InvalidConfig, log) else xl_action rn c dry [''create'', p] log)"

definition xl_Migrate :: "runner \<Rightarrow> client \<Rightarrow> string \<Rightarrow> string \<Rightarrow> bool \<Rightarrow> bool \<Rightarrow> action_result xl_result" where
  "xl_Migrate rn c d target live dry log =
     (if \<not> domainNameRE d then (Inl InvalidDomain, log)
      else if \<not> hostNameRE target then (Inl InvalidHost, log)
      else xl_action rn c dry ([''migrate''] @ (if live then [''-l''] else []) @ [d, target]) log)"

section \<open>Parsing the output\<close>

record 'f xen_domain =
  DomID :: int
  dom_name :: string
  State :: string
  VCPUs :: int
  MemMB :: int
  CPUSec :: 'f

definition parse_row :: "(string \<Rightarrow> 'f) \<Rightarrow> string \<Rightarrow> 'f xen_domain option" where
  "parse_row pf line =
     (let f = GoPrelude.fields line
      in if length f < 6 then None
         else case atoi (f ! 1) of (domid, ok) \<Rightarrow>
           if \<not> ok then None
           else Some \<lparr>DomID = domid, dom_name = f ! 0, State = trim_cutset (f ! 4) ''-'',
                      VCPUs = fst (atoi (f ! 3)), MemMB = parse_uint64 (f ! 2), CPUSec = pf (last f)\<rparr>)"

definition ParseList :: "(string \<Rightarrow> 'f) \<Rightarrow> string \<Rightarrow> 'f xen_domain list" where
  "ParseList pf out = List.map_filter (parse_row pf) (tl (split_on CHR 0x0A out))"

definition xl_ListDomains :: "(string \<Rightarrow> 'f) \<Rightarrow> runner \<Rightarrow> client \<Rightarrow> 'f xen_domain list xl_result" where
  "xl_ListDomains pf rn c log =
     (case run_xl rn c [''list''] log of
        (Inl x, log') \<Rightarrow> (Inl x, log') | (Inr out, log') \<Rightarrow> (Inr (ParseList pf out), log'))"

definition parse_info :: "string \<Rightarrow> (string \<times> string) list" where
  "parse_info out =
     fold (\<lambda>line info. case cut CHR '':'' line of (k, v, ok) \<Rightarrow>
             if \<not> ok then info else AList.update (trim_space k) (trim_space v) info)
       (split_on CHR 0x0A out) []"

definition xl_Info :: "runner \<Rightarrow> client \<Rightarrow> (string \<times> string) list xl_result" where
  "xl_Info rn c log =
     (case run_xl rn c [''info''] log of
        (Inl x, log') \<Rightarrow> (Inl x, log') | (Inr out, log') \<Rightarrow> (Inr (parse_info out), log'))"

section \<open>The handlers\<close>

record action_request =
  req_action :: string
  ConfigPath :: string
  TargetHost :: string
  Live :: bool
  req_dry_run :: bool

record 'f xen_env =
  xe_runner :: runner
  xe_client :: client
  xe_dom0 :: "bool option"          \<comment> \<open>the answer of \<open>isDom0\<close>; \<open>None\<close> for a nil function\<close>
  xe_pf :: "string \<Rightarrow> 'f"
  xe_float :: "'f \<Rightarrow> json"

definition xl_msg :: "xl_error \<Rightarrow> string" where
  "xl_msg x =
     (case x of
        InvalidDomain \<Rightarrow> ''invalid domain name'' | ControlDomain \<Rightarrow> ''refusing to operate on Domain-0''
      | InvalidHost \<Rightarrow> ''invalid target host'' | InvalidConfig \<Rightarrow> ''invalid config path''
      | TimedOut a \<Rightarrow> ''xl '' @ a @ '' timed out'' | RunFailed a msg \<Rightarrow> ''xl '' @ a @ '' failed: '' @ msg
      | AdminRequired \<Rightarrow> ''admin required'' | UnknownAction \<Rightarrow> ''unknown action'')"

definition dom0Ready :: "'f xen_env \<Rightarrow> bool" where
  "dom0Ready xe \<longleftrightarrow> (case xe_dom0 xe of None \<Rightarrow> False | Some b \<Rightarrow> b)"

definition domainFromActionPath :: "string \<Rightarrow> string \<times> bool" where
  "domainFromActionPath p =
     (if \<not> has_prefix p ''/api/xen/domains/'' \<or> \<not> has_suffix p ''/actions'' then ([], False)
      else let d = trim_cutset (trim_suffix (trim_prefix p ''/api/xen/domains/'') ''/actions'') ''/''
           in (d, d \<noteq> []))"

definition action_schema :: schema where
  "action_schema =
     [(''action'', KStr), (''config_path'', KStr), (''target_host'', KStr), (''live'', KBool), (''dry_run'', KBool)]"

definition action_of :: "decoded \<Rightarrow> action_request" where
  "action_of d =
     \<lparr>req_action = str_field d [''action''], ConfigPath = str_field d [''config_path''],
      TargetHost = str_field d [''target_host''], Live = bool_field d [''live''], req_dry_run = bool_field d [''dry_run'']\<rparr>"

definition result_json :: "action_result \<Rightarrow> json" where
  "result_json a =
     JObj ([(''ok'', JBool (result_ok a)), (''action'', JStr (Action a)), (''args'', JArr (map JStr (Args a)))] @
           (if Output a = [] then [] else [(''output'', JStr (Output a))]) @
           (if \<not> DryRun a then [] else [(''dry_run'', JBool True)]) @
           (if Message a = [] then [] else [(''message'', JStr (Message a))]))"

definition domain_json :: "('f \<Rightarrow> json) \<Rightarrow> 'f xen_domain \<Rightarrow> json" where
  "domain_json fj d =
     JObj [(''domid'', JNum (DomID d)), (''name'', JStr (dom_name d)), (''state'', JStr (State d)),
           (''vcpus'', JNum (VCPUs d)), (''mem_mb'', JNum (MemMB d)), (''cpu_sec'', fj (CPUSec d))]"

definition runAction :: "'f xen_env \<Rightarrow> request \<Rightarrow> string \<Rightarrow> action_request \<Rightarrow> action_result xl_result" where
  "runAction xe r d q =
     (let rn = xe_runner xe; c = xe_client xe; a = req_action q
      in if a = ''shutdown'' then xl_Shutdown rn c d (req_dry_run q)
         else if a = ''reboot'' then xl_Reboot rn c d (req_dry_run q)
         else if a = ''pause'' then xl_Pause rn c d (req_dry_run q)
         else if a = ''unpause'' then xl_Unpause rn c d (req_dry_run q)
         else if a = ''destroy'' then
           (if UserRoleFromCtx r \<noteq> ''admin'' then (\<lambda>log. (Inl AdminRequired, log))
            else xl_Destroy rn c d (req_dry_run q))
         else if a = ''migrate'' then
           (if UserRoleFromCtx r \<noteq> ''admin'' then (\<lambda>log. (Inl AdminRequired, log))
            else xl_Migrate rn c d (trim_space (TargetHost q)) (Live q) (req_dry_run q))
         else (\<lambda>log. (Inl UnknownAction, log)))"

definition not_dom0 :: "(string \<times> json) list" where
  "not_dom0 = [(''available'', JBool False), (''reason'', JStr ''not_xen_dom0'')]"

definition Domains :: "'f xen_env \<Rightarrow> world handler" where
  "Domains xe r w =
     (if req_method r \<noteq> ''GET'' then (jsonError ''method not allowed'' 405, w)
      else if \<not> dom0Ready xe then (json_response 200 (JObj (not_dom0 @ [(''domains'', JArr [])])), w)
      else case xl_ListDomains (xe_pf xe) (xe_runner xe) (xe_client xe) (w_xl w) of
             (Inl x, log) \<Rightarrow> (jsonError (xl_msg x) 502, w\<lparr>w_xl := log\<rparr>)
           | (Inr ds, log) \<Rightarrow>
               (json_response 200 (JObj [(''domains'', JArr (map (domain_json (xe_float xe)) ds))]), w\<lparr>w_xl := log\<rparr>))"

definition XenInfo :: "'f xen_env \<Rightarrow> world handler" where
  "XenInfo xe r w =
     (if req_method r \<noteq> ''GET'' then (jsonError ''method not allowed'' 405, w)
      else if \<not> dom0Ready xe then (json_response 200 (JObj (not_dom0 @ [(''info'', JObj not_dom0)])), w)
      else case xl_Info (xe_runner xe) (xe_client xe) (w_xl w) of
             (Inl x, log) \<Rightarrow> (jsonError (xl_msg x) 502, w\<lparr>w_xl := log\<rparr>)
           | (Inr info, log) \<Rightarrow>
               (json_response 200 (JObj [(''info'', JObj (map (\<lambda>(k, v). (k, JStr v)) info))]), w\<lparr>w_xl := log\<rparr>))"

definition DomainAction :: "'f xen_env \<Rightarrow> world handler" where
  "DomainAction xe r w =
     (if req_method r \<noteq> ''POST'' then (jsonError ''method not allowed'' 405, w)
      else if \<not> dom0Ready xe then (jsonError ''xen dom0 required'' 403, w)
      else case domainFromActionPath (path r) of (d, ok) \<Rightarrow>
        if \<not> ok then (jsonError ''not found'' 404, w)
        else case decode_first action_schema (body_of r) of
          None \<Rightarrow> (jsonError ''bad request'' 400, w)
        | Some dec \<Rightarrow>
            let q = action_of dec;
                q = q\<lparr>req_action := to_lower (trim_space (req_action q))\<rparr>
            in case runAction xe r d q (w_xl w) of
                 (Inl x, log) \<Rightarrow>
                   (jsonError (xl_msg x) (if xl_msg x = ''admin required'' then 403 else 400), w\<lparr>w_xl := log\<rparr>)
               | (Inr a, log) \<Rightarrow> (json_response 200 (result_json a), w\<lparr>w_xl := log\<rparr>))"

definition XenCreate :: "'f xen_env \<Rightarrow> world handler" where
  "XenCreate xe r w =
     (if req_method r \<noteq> ''POST'' then (jsonError ''method not allowed'' 405, w)
      else if \<not> dom0Ready xe then (jsonError ''xen dom0 required'' 403, w)
      else if UserRoleFromCtx r \<noteq> ''admin'' then (jsonError ''admin required'' 403, w)
      else case decode_first action_schema (body_of r) of
        None \<Rightarrow> (jsonError ''bad request'' 400, w)
      | Some dec \<Rightarrow>
          let q = action_of dec
          in case xl_Create (xe_runner xe) (xe_client xe) (trim_space (ConfigPath q)) (req_dry_run q) (w_xl w) of
               (Inl x, log) \<Rightarrow> (jsonError (xl_msg x) 400, w\<lparr>w_xl := log\<rparr>)
             | (Inr a, log) \<Rightarrow> (json_response 200 (result_json a), w\<lparr>w_xl := log\<rparr>))"

section \<open>What may be run\<close>

text \<open>
  The commands a role may cause: the power actions on a domain named neither \<open>0\<close> nor \<open>Domain-0\<close> in any case, and for
  an administrator also its destruction and the migration of any named domain.
\<close>

lemma isControlDomain_iff: "isControlDomain d \<longleftrightarrow> d = ''0'' \<or> to_lower d = ''domain-0''"
proof -
  have "to_lower ''Domain-0'' = ''domain-0''" by code_simp
  then show ?thesis by (simp add: isControlDomain_def equal_fold_def)
qed

definition guarded_command :: "string \<Rightarrow> string list \<Rightarrow> bool" where
  "guarded_command role args \<longleftrightarrow>
     (\<exists>act d. args = [act, d] \<and> domainNameRE d \<and> d \<noteq> ''0'' \<and> to_lower d \<noteq> ''domain-0'' \<and>
        (act \<in> {''shutdown'', ''reboot'', ''pause'', ''unpause''} \<or> (act = ''destroy'' \<and> role = ''admin''))) \<or>
     (role = ''admin'' \<and>
        (\<exists>d h. args \<in> {[''migrate'', d, h], [''migrate'', ''-l'', d, h]} \<and> domainNameRE d \<and> hostNameRE h))"

definition client_bin :: "client \<Rightarrow> string" where
  "client_bin c = (if Bin c = [] then ''xl'' else Bin c)"

lemma run_xl_log: "snd (run_xl rn c args log) = (client_bin c # args) # log"
  by (simp add: run_xl_def client_bin_def Let_def)

lemma xl_action_log: "snd (xl_action rn c dry args log) = (if dry then log else (client_bin c # args) # log)"
  using run_xl_log [of rn c args log] by (auto simp: xl_action_def Let_def split: prod.splits sum.splits)

lemma domainAction_log:
  "snd (domainAction rn c dry act d log) =
     (if domainNameRE d \<and> \<not> isControlDomain d \<and> \<not> dry then (client_bin c # [act, d]) # log else log)"
  by (simp add: domainAction_def xl_action_log)

lemma xl_Migrate_log:
  "snd (xl_Migrate rn c d h live dry log) =
     (if domainNameRE d \<and> hostNameRE h \<and> \<not> dry
      then (client_bin c # [''migrate''] @ (if live then [''-l''] else []) @ [d, h]) # log else log)"
  by (simp add: xl_Migrate_def xl_action_log)

lemma xl_Create_log:
  "snd (xl_Create rn c p dry log) = (if validConfigPath p \<and> \<not> dry then (client_bin c # [''create'', p]) # log else log)"
  by (simp add: xl_Create_def xl_action_log)

lemma name_0: "domainNameRE ''0''"
  by code_simp

lemma runAction_log:
  "snd (runAction xe r d q log) = log \<or>
   (\<exists>args. guarded_command (UserRoleFromCtx r) args \<and> d \<in> set args \<and>
      snd (runAction xe r d q log) = (client_bin (xe_client xe) # args) # log)"
  unfolding runAction_def Let_def xl_Shutdown_def xl_Reboot_def xl_Pause_def xl_Unpause_def xl_Destroy_def
  using name_0 by (simp add: domainAction_log xl_Migrate_log guarded_command_def isControlDomain_iff)

lemma DomainAction_log:
  "snd (DomainAction xe r w) =
     (if req_method r = ''POST'' \<and> dom0Ready xe \<and> snd (domainFromActionPath (path r)) then
        (case decode_first action_schema (body_of r) of
           None \<Rightarrow> w
         | Some dec \<Rightarrow>
             w\<lparr>w_xl := snd (runAction xe r (fst (domainFromActionPath (path r)))
                          ((action_of dec)\<lparr>req_action := to_lower (trim_space (req_action (action_of dec)))\<rparr>) (w_xl w))\<rparr>)
      else w)"
  by (auto simp: DomainAction_def Let_def split: prod.splits option.splits sum.splits)

lemma name_no_dash: "match_name n s \<Longrightarrow> \<not> has_prefix s ''-''"
  by (cases s) (auto simp: match_name_def in_range_def has_prefix_iff)

lemma guarded_no_options: "guarded_command role args \<Longrightarrow> filter (\<lambda>a. has_prefix a ''-'') (tl args) \<in> {[], [''-l'']}"
  by (auto simp: guarded_command_def domainNameRE_def hostNameRE_def name_no_dash)

section \<open>Rows of a list of domains\<close>

text \<open>
  A row that shows a domain: six columns with blanks before each and after the last, as many as the layout has, and any
  number of dashes around the flags of the state. The text of the processor time is the layout's.
\<close>

record xl_layout =
  gaps :: "string list"
  row_end :: string
  dashes_before :: nat
  dashes_after :: nat
  time_text :: string

fun spaced :: "string list \<Rightarrow> string list \<Rightarrow> string" where
  "spaced (g # gs) (w # ws) = g @ w @ spaced gs ws"
| "spaced gs ws = []"

definition state_text :: "xl_layout \<Rightarrow> 'f xen_domain \<Rightarrow> string" where
  "state_text l d = replicate (dashes_before l) CHR ''-'' @ State d @ replicate (dashes_after l) CHR ''-''"

definition row_columns :: "xl_layout \<Rightarrow> 'f xen_domain \<Rightarrow> string list" where
  "row_columns l d =
     [dom_name d, nat_to_dec (nat (DomID d)), nat_to_dec (nat (MemMB d)), nat_to_dec (nat (VCPUs d)),
      state_text l d, time_text l]"

definition row_text :: "xl_layout \<Rightarrow> 'f xen_domain \<Rightarrow> string" where
  "row_text l d = spaced (gaps l) (row_columns l d) @ row_end l"

definition blank_run :: "string \<Rightarrow> bool" where
  "blank_run s \<longleftrightarrow> list_all (\<lambda>c. c = CHR '' '' \<or> c = CHR 0x09) s"

definition layout_ok :: "xl_layout \<Rightarrow> bool" where
  "layout_ok l \<longleftrightarrow>
     length (gaps l) = 6 \<and> list_all blank_run (gaps l) \<and> list_all (\<lambda>g. g \<noteq> []) (tl (gaps l)) \<and> blank_run (row_end l)"

definition row_ok :: "(string \<Rightarrow> 'f) \<Rightarrow> xl_layout \<Rightarrow> 'f xen_domain \<Rightarrow> bool" where
  "row_ok pf l d \<longleftrightarrow>
     layout_ok l \<and> dom_name d \<noteq> [] \<and> graphic (dom_name d) \<and>
     graphic (State d) \<and> (State d \<noteq> [] \<longrightarrow> hd (State d) \<noteq> CHR ''-'' \<and> last (State d) \<noteq> CHR ''-'') \<and> state_text l d \<noteq> [] \<and>
     time_text l \<noteq> [] \<and> graphic (time_text l) \<and> pf (time_text l) = CPUSec d \<and>
     0 \<le> DomID d \<and> DomID d < 2 ^ 63 \<and> 0 \<le> VCPUs d \<and> VCPUs d < 2 ^ 63 \<and> 0 \<le> MemMB d \<and> MemMB d < 2 ^ 64"

lemma lead_tab: "lead space_seqs (CHR 0x09 # s) = 1"
  by (simp add: space_seqs_def)

lemma fields_from_blanks:
  "blank_run g \<Longrightarrow> fields_from acc (g @ s) = (if g = [] \<or> acc = [] then [] else [rev acc]) @ fields_from (if g = [] then acc else []) s"
proof (induction g arbitrary: acc)
  case (Cons c g)
  have "c = CHR '' '' \<or> c = CHR 0x09" using Cons.prems by (simp add: blank_run_def)
  then have l: "lead space_seqs (c # t) = 1" for t using lead_space lead_tab by blast
  have c: "fields_from acc (c # g @ s) = (if acc = [] then [] else [rev acc]) @ fields_from [] (g @ s)"
    by (subst fields_from.simps(2)) (simp only: l One_nat_def one_neq_zero if_False drop_Suc_Cons drop_0 nat.distinct)
  have "blank_run g" using Cons.prems by (simp add: blank_run_def)
  from Cons.IH [OF this, of "[]"] have "fields_from [] (g @ s) = fields_from [] s"
    by (simp only: append_Nil if_cancel disj_absorb simp_thms if_True)
  then show ?case unfolding append_Cons c by (simp only: list.distinct simp_thms if_False)
qed simp

lemma fields_from_spaced:
  "length gs = length ws \<Longrightarrow> list_all blank_run gs \<Longrightarrow> list_all (\<lambda>g. g \<noteq> []) (if acc = [] then tl gs else gs) \<Longrightarrow>
   list_all (\<lambda>w. w \<noteq> [] \<and> graphic w) ws \<Longrightarrow> blank_run e \<Longrightarrow>
   fields_from acc (spaced gs ws @ e) = (if acc = [] then [] else [rev acc]) @ ws"
proof (induction gs ws arbitrary: acc rule: spaced.induct)
  case (1 g gs w ws)
  have n: "w \<noteq> []" "graphic w" "blank_run g" using "1.prems" by simp_all
  have t: "list_all (\<lambda>g. g \<noteq> []) gs" using "1.prems"(3) by (cases "acc = []") simp_all
  have IH: "fields_from (rev w) (spaced gs ws @ e) = w # ws"
    using "1.IH" [of "rev w"] "1.prems" n t by simp
  have g: "acc = [] \<or> g \<noteq> []" using "1.prems"(3) by (cases "acc = []") simp_all
  have "fields_from acc (spaced (g # gs) (w # ws) @ e) =
      (if acc = [] then [] else [rev acc]) @ fields_from [] (w @ spaced gs ws @ e)"
    using g fields_from_blanks [OF n(3), of acc "w @ spaced gs ws @ e"] by (auto split: if_splits)
  then show ?case using fields_from_graphic [OF n(2), of "[]" "spaced gs ws @ e"] IH by simp
qed (use fields_from_blanks [of e _ "[]"] in simp_all)

lemma trim_dashes:
  assumes "s \<noteq> [] \<longrightarrow> hd s \<noteq> CHR ''-'' \<and> last s \<noteq> CHR ''-''"
  shows "trim_cutset (replicate a CHR ''-'' @ s @ replicate b CHR ''-'') ''-'' = s"
proof -
  have d: "dropWhile (\<lambda>c. c = CHR ''-'') (replicate a CHR ''-'' @ t) = dropWhile (\<lambda>c. c = CHR ''-'') t" for a t
    by (induction a) simp_all
  have e: "dropWhile (\<lambda>c. c = CHR ''-'') (replicate a CHR ''-'') = []" for a by (induction a) simp_all
  show ?thesis
  proof (cases "s = []")
    case True
    then show ?thesis by (simp add: trim_cutset_def trim_left_def trim_right_def d e)
  next
    case False
    then have h: "hd s \<noteq> CHR ''-''" "hd (rev s) \<noteq> CHR ''-''" "rev s \<noteq> []" using assms by (simp_all add: hd_rev)
    have k: "dropWhile (\<lambda>c. c = CHR ''-'') (t @ u) = t @ u" if "t \<noteq> []" "hd t \<noteq> CHR ''-''" for t u
      using that by (cases t) simp_all
    show ?thesis using k [OF False h(1), of "replicate b CHR ''-''"] k [OF h(3,2), of "[]"]
      by (simp add: trim_cutset_def trim_left_def trim_right_def d)
  qed
qed

lemma graphic_append [simp]: "graphic (s @ t) \<longleftrightarrow> graphic s \<and> graphic t"
  by (simp add: graphic_def)

lemma graphic_dashes: "graphic (replicate n CHR ''-'')"
  by (simp add: graphic_def list_all_iff)

lemma row_fields: "row_ok pf l d \<Longrightarrow> GoPrelude.fields (row_text l d) = row_columns l d"
proof -
  assume d: "row_ok pf l d"
  then have "list_all (\<lambda>w. w \<noteq> [] \<and> graphic w) (row_columns l d)"
    by (simp add: row_ok_def row_columns_def state_text_def graphic_dashes)
  then show ?thesis
    using d fields_from_spaced [of "gaps l" "row_columns l d" "[]" "row_end l"]
    by (simp add: GoPrelude.fields_def row_text_def row_ok_def layout_ok_def row_columns_def)
qed

lemma parse_row_text: "row_ok pf l d \<Longrightarrow> parse_row pf (row_text l d) = Some d"
proof -
  assume d: "row_ok pf l d"
  have "trim_cutset (state_text l d) ''-'' = State d"
    using d unfolding state_text_def by (intro trim_dashes) (simp add: row_ok_def)
  moreover have "nat (DomID d) < 2 ^ 63" "nat (VCPUs d) < 2 ^ 63" "nat (MemMB d) < 2 ^ 64"
    using d by (simp_all add: row_ok_def nat_less_iff)
  ultimately show ?thesis
    using d unfolding parse_row_def row_fields [OF d]
    by (simp add: row_columns_def atoi_nat_to_dec parse_uint64_nat_to_dec row_ok_def)
qed

lemma row_one_line: "row_ok pf l d \<Longrightarrow> CHR 0x0A \<notin> set (row_text l d)"
proof -
  assume d: "row_ok pf l d"
  have g: "CHR 0x0A \<notin> set s" if "graphic s" for s using that by (auto simp: graphic_def list_all_iff)
  have b: "CHR 0x0A \<notin> set s" if "blank_run s" for s
  proof
    assume "CHR 0x0A \<in> set s"
    with that have "CHR 0x0A = CHR '' '' \<or> CHR 0x0A = CHR 0x09" unfolding blank_run_def list_all_iff by (rule bspec)
    then show False by simp
  qed
  have "CHR 0x0A \<notin> set (spaced gs ws)" if "list_all blank_run gs" "list_all graphic ws" for gs ws
    using that by (induction gs ws rule: spaced.induct) (simp_all add: g b)
  then show ?thesis
    using d b [of "row_end l"]
    by (simp add: row_text_def row_ok_def layout_ok_def row_columns_def state_text_def graphic_dashes)
qed

section \<open>Properties\<close>

text \<open>
  C19. A domain action runs at most one command, and only on a POST to a host that is the Xen control domain: the
  command is one that the role of the caller may cause, on the domain the path names, which cannot be taken for an option,
  and, unless it is a migration, is neither \<open>0\<close> nor \<open>Domain-0\<close> in any case. Other spellings of the control domain pass,
  see \<open>control_domain_gaps\<close> below.
\<close>

theorem domain_action_commands:
  "snd (DomainAction xe r w) = w \<or>
   (\<exists>args. snd (DomainAction xe r w) = w\<lparr>w_xl := (client_bin (xe_client xe) # args) # w_xl w\<rparr> \<and>
      req_method r = ''POST'' \<and> dom0Ready xe \<and> guarded_command (UserRoleFromCtx r) args \<and>
      fst (domainFromActionPath (path r)) \<in> set args \<and>
      filter (\<lambda>a. has_prefix a ''-'') (tl args) \<in> {[], [''-l'']})"
proof (cases "req_method r = ''POST'' \<and> dom0Ready xe \<and> snd (domainFromActionPath (path r)) \<and>
    decode_first action_schema (body_of r) \<noteq> None")
  case False
  then show ?thesis by (auto simp: DomainAction_log)
next
  case True
  then obtain dec where dec: "decode_first action_schema (body_of r) = Some dec" by auto
  define q where "q = (action_of dec)\<lparr>req_action := to_lower (trim_space (req_action (action_of dec)))\<rparr>"
  have "snd (DomainAction xe r w) = w\<lparr>w_xl := snd (runAction xe r (fst (domainFromActionPath (path r))) q (w_xl w))\<rparr>"
    using True dec by (simp add: DomainAction_log q_def)
  then show ?thesis
    using runAction_log [of xe r "fst (domainFromActionPath (path r))" q "w_xl w"] True guarded_no_options
    by fastforce
qed

text \<open>
  The guard of the control domain has gaps: every action but one refuses \<open>Domain-0\<close> and \<open>0\<close>, yet \<open>migrate\<close> is run
  on them, and a name of two or more zeros, which \<open>xl\<close> reads as the number 0, passes the guard of every action.
\<close>

theorem control_domain_gaps:
  assumes "hostNameRE h" and "n \<le> 126"
  shows "domainAction rn c False act ''Domain-0'' log = (Inl ControlDomain, log) \<and>
    snd (xl_Migrate rn c ''Domain-0'' h False False log) = [client_bin c, ''migrate'', ''Domain-0'', h] # log \<and>
    snd (domainAction rn c False act (replicate (n + 2) CHR ''0'') log) =
      [client_bin c, act, replicate (n + 2) CHR ''0''] # log"
proof -
  have d: "domainNameRE ''Domain-0''" "isControlDomain ''Domain-0''" by code_simp+
  have b: "in_range 48 57 CHR ''0''" "name_byte CHR ''0''" by code_simp+
  have z: "domainNameRE (replicate (n + 2) CHR ''0'')"
    using assms(2) b by (simp add: domainNameRE_def match_name_def list_all_iff)
  have nz: "replicate (n + 2) CHR ''0'' = CHR ''0'' # CHR ''0'' # replicate n CHR ''0''" by simp
  have "lower_byte CHR ''0'' \<noteq> lower_byte CHR ''D''" by code_simp
  then have "\<not> equal_fold (replicate (n + 2) CHR ''0'') ''Domain-0''"
    unfolding nz equal_fold_def to_lower_def by simp
  then have "\<not> isControlDomain (replicate (n + 2) CHR ''0'')" by (simp add: isControlDomain_def)
  with d z assms(1) show ?thesis by (simp add: domainAction_def xl_action_log xl_Migrate_log del: replicate.simps)
qed

theorem control_domain_gaps_witness:
  "snd (xl_Migrate (\<lambda>_. ([], RunOk)) \<lparr>Bin = ''xl''\<rparr> ''Domain-0'' ''host2'' False False []) =
     [[''xl'', ''migrate'', ''Domain-0'', ''host2'']] \<and>
   snd (domainAction (\<lambda>_. ([], RunOk)) \<lparr>Bin = ''xl''\<rparr> False ''destroy'' ''00'' []) = [[''xl'', ''destroy'', ''00'']]"
proof -
  have h: "hostNameRE ''host2''" by code_simp
  show ?thesis
    using control_domain_gaps [OF h, of 0 "\<lambda>_. ([], RunOk)" "\<lparr>Bin = ''xl''\<rparr>" "''destroy''" "[]"]
    by (simp add: client_bin_def numeral_2_eq_2)
qed

text \<open>
  The directories a configuration may come from are not enforced: for every path of a \<open>.cfg\<close> file without
  control characters there is one that leads to it through \<open>..\<close> and that \<open>Create\<close> hands to \<open>xl\<close>.
\<close>

theorem config_path_escapes:
  assumes "has_prefix p ''/''" and "has_suffix p ''.cfg''"
    and "list_all (\<lambda>c. c \<notin> {CHR 0x00, CHR 0x0D, CHR 0x0A}) p"
  shows "snd (xl_Create rn c (''/etc/xen/../..'' @ p) False log) = [client_bin c, ''create'', ''/etc/xen/../..'' @ p] # log"
proof -
  have 1: "has_prefix (''/etc/xen/../..'' @ p) ''/etc/xen/''" by simp
  obtain t where "p = t @ ''.cfg''" using assms(2) by (auto simp: has_suffix_iff)
  then have 2: "has_suffix (''/etc/xen/../..'' @ p) ''.cfg''"
    unfolding has_suffix_iff by (intro exI [of _ "''/etc/xen/../..'' @ t"]) simp
  have "validConfigPath (''/etc/xen/../..'' @ p)"
    using 1 2 assms(3) unfolding validConfigPath_def by (auto simp: list_all_iff list_ex_iff)
  then show ?thesis by (simp add: xl_Create_log)
qed

theorem config_path_escapes_witness:
  "snd (xl_Create (\<lambda>_. ([], RunOk)) \<lparr>Bin = ''xl''\<rparr> ''/etc/xen/../../tmp/x.cfg'' False []) =
     [[''xl'', ''create'', ''/etc/xen/../../tmp/x.cfg'']]"
proof -
  have "has_prefix ''/tmp/x.cfg'' ''/''" "has_suffix ''/tmp/x.cfg'' ''.cfg''"
    "list_all (\<lambda>c. c \<notin> {CHR 0x00, CHR 0x0D, CHR 0x0A}) ''/tmp/x.cfg''"
    by code_simp+
  from config_path_escapes [OF this, of "\<lambda>_. ([], RunOk)" "\<lparr>Bin = ''xl''\<rparr>" "[]"] show ?thesis
    by (simp add: client_bin_def)
qed

text \<open>
  C20. The parser of \<open>xl list\<close> recovers every domain of a list, in order, however its columns are padded: whatever the header
  line, whatever runs of blanks stand between the six columns of a row, whatever dashes stand around the flags of the state, and with or
  without a line break at the end.
\<close>

theorem parse_list_rows:
  assumes "list_all (\<lambda>(l, d). row_ok pf l d) rows" and "CHR 0x0A \<notin> set title" and "e \<in> {[], [[]]}"
  shows "ParseList pf (join [CHR 0x0A] (title # map (\<lambda>(l, d). row_text l d) rows @ e)) = map snd rows"
proof -
  have "list_all (\<lambda>t. CHR 0x0A \<notin> set t) (title # map (\<lambda>(l, d). row_text l d) rows @ e)"
    using assms by (auto simp: list_all_iff dest!: row_one_line)
  then have "split_on CHR 0x0A (join [CHR 0x0A] (title # map (\<lambda>(l, d). row_text l d) rows @ e)) =
      title # map (\<lambda>(l, d). row_text l d) rows @ e"
    by (intro split_on_join) simp_all
  moreover have "List.map_filter (parse_row pf) (map (\<lambda>(l, d). row_text l d) rows @ e) = map snd rows"
    using assms(1)
  proof (induction rows)
    case Nil
    have "parse_row pf [] = None" by (simp add: parse_row_def GoPrelude.fields_def)
    then show ?case using assms(3) by (auto simp: List.map_filter_simps)
  next
    case (Cons a rows)
    then show ?case by (cases a) (simp add: List.map_filter_simps parse_row_text)
  qed
  ultimately show ?thesis by (simp add: ParseList_def)
qed

text \<open>The output of the repository's own test of the parser.\<close>

definition padded :: "nat \<Rightarrow> string" where
  "padded n = replicate n CHR '' ''"

definition test_rows :: "(xl_layout \<times> string xen_domain) list" where
  "test_rows =
     [(\<lparr>gaps = map padded [0, 37, 2, 5, 5, 4], row_end = [], dashes_before = 0, dashes_after = 5, time_text = ''1234.5''\<rparr>,
       \<lparr>DomID = 0, dom_name = ''Domain-0'', State = ''r'', VCPUs = 4, MemMB = 2048, CPUSec = ''1234.5''\<rparr>),
      (\<lparr>gaps = map padded [0, 39, 2, 5, 5, 6], row_end = [], dashes_before = 1, dashes_after = 4, time_text = ''12.0''\<rparr>,
       \<lparr>DomID = 7, dom_name = ''app.vm'', State = ''b'', VCPUs = 2, MemMB = 1024, CPUSec = ''12.0''\<rparr>)]"

theorem parse_list_rows_witness:
  "ParseList id (join [CHR 0x0A]
     (''Name                                        ID   Mem VCPUs      State   Time(s)'' #
      map (\<lambda>(l, d). row_text l d) test_rows @ [[]])) = map snd test_rows"
proof (rule parse_list_rows)
  show "list_all (\<lambda>(l, d). row_ok id l d) test_rows" by code_simp
  show "CHR 0x0A \<notin> set ''Name                                        ID   Mem VCPUs      State   Time(s)''" by code_simp
qed simp

end
