(* ===== verification/Routes.thy ===== *)
theory Routes
  imports OAuthFlow Csrf Xenctl
begin

text \<open>
  The routing table and the static files, \<open>backend/server/routes.go\<close>. The request multiplexer is the
  one of \<open>net/http\<close> on paths without escapes: the path is cleaned, an exact pattern wins, then the
  longest pattern that ends in a slash. The file system of the assets is a parameter.
\<close>

section \<open>The multiplexer\<close>

text \<open>\<open>path.Clean\<close> of a rooted path, keeping a final slash, as \<open>ServeMux\<close> does.\<close>

definition push_segment :: "string \<Rightarrow> string list \<Rightarrow> string list" where
  "push_segment seg stack =
     (if seg = [] \<or> seg = ''.'' then stack
      else if seg = ''..'' then (case stack of [] \<Rightarrow> [] | _ # st \<Rightarrow> st)
      else seg # stack)"

definition clean_segments :: "string list \<Rightarrow> string list" where
  "clean_segments segs = rev (fold push_segment segs [])"

definition cleanPath :: "string \<Rightarrow> string" where
  "cleanPath p =
     (if p = [] then ''/''
      else
        let p = (if hd p \<noteq> CHR ''/'' then CHR ''/'' # p else p);
            np = CHR ''/'' # join ''/'' (clean_segments (split_on CHR ''/'' p))
        in if last p = CHR ''/'' \<and> np \<noteq> ''/'' then np @ ''/'' else np)"

type_synonym 'w table = "(string \<times> 'w handler) list"

definition subtree :: "string \<Rightarrow> bool" where
  "subtree pat \<longleftrightarrow> has_suffix pat ''/''"

fun better_route :: "string \<Rightarrow> string \<times> 'w handler \<Rightarrow> (string \<times> 'w handler) option \<Rightarrow> (string \<times> 'w handler) option" where
  "better_route p (pat, h) best =
     (if subtree pat \<and> has_prefix p pat \<and>
         (case best of None \<Rightarrow> True | Some (pat', _) \<Rightarrow> length pat' < length pat)
      then Some (pat, h) else best)"

definition longest :: "'w table \<Rightarrow> string \<Rightarrow> (string \<times> 'w handler) option" where
  "longest tbl p = fold (better_route p) tbl None"

definition not_found :: response where
  "not_found = http_error ''404 page not found'' 404"

definition serve_mux :: "'w table \<Rightarrow> 'w handler" where
  "serve_mux tbl r w =
     (let p = cleanPath (path r)
      in case map_of tbl p of
           Some h \<Rightarrow> if p \<noteq> path r then (redirect p 301, w) else h r w
         | None \<Rightarrow>
             if \<not> has_suffix p ''/'' \<and> map_of tbl (p @ ''/'') \<noteq> None then (redirect (p @ ''/'') 301, w)
             else if p \<noteq> path r then (redirect p 301, w)
             else (case longest tbl p of None \<Rightarrow> (not_found, w) | Some (_, h) \<Rightarrow> h r w))"

section \<open>Static files\<close>

text \<open>
  The asset tree: whether a name exists, whether it is a directory, what the file server of the
  library answers, and the page of the single-page application.
\<close>

record assets =
  as_stat :: "string \<Rightarrow> bool option"       \<comment> \<open>\<open>Some isDir\<close> when the name exists\<close>
  as_serve :: "request \<Rightarrow> response"
  as_serve_sub :: "string \<Rightarrow> request \<Rightarrow> response"
  as_index :: "string option"
  as_subdirs :: "string list"

definition mimeTypes :: "(string \<times> string) list" where
  "mimeTypes =
     [(''.css'', ''text/css; charset=utf-8''), (''.js'', ''text/javascript; charset=utf-8''),
      (''.html'', ''text/html; charset=utf-8''), (''.json'', ''application/json; charset=utf-8''),
      (''.webmanifest'', ''application/manifest+json; charset=utf-8''), (''.svg'', ''image/svg+xml''),
      (''.png'', ''image/png''), (''.jpg'', ''image/jpeg''), (''.jpeg'', ''image/jpeg''), (''.ico'', ''image/x-icon''),
      (''.woff'', ''font/woff''), (''.woff2'', ''font/woff2''), (''.ttf'', ''font/ttf''), (''.map'', ''application/json'')]"

text \<open>\<open>filepath.Ext\<close>: from the last dot of the last element on.\<close>

definition file_ext :: "string \<Rightarrow> string" where
  "file_ext p =
     (let base = rev (takeWhile (\<lambda>c. c \<noteq> CHR ''/'') (rev p))
      in if CHR ''.'' \<notin> set base then []
         else CHR ''.'' # rev (takeWhile (\<lambda>c. c \<noteq> CHR ''.'') (rev base)))"

text \<open>A header set before the inner handler runs, which the inner handler may set anew.\<close>

definition preset :: "string \<Rightarrow> string \<Rightarrow> response \<Rightarrow> response" where
  "preset k v rs = (if resp_header rs k = None then with_header k v rs else rs)"

definition mimeFixFS :: "(request \<Rightarrow> response) \<Rightarrow> request \<Rightarrow> response" where
  "mimeFixFS h r =
     (let nocache = (if path r \<in> {''/sw.js'', ''/manifest.json''}
                     then preset ''Cache-Control'' ''no-cache, no-store, must-revalidate'' else id)
      in if path r = ''/manifest.json'' then
           nocache (preset ''Content-Type'' ''application/manifest+json; charset=utf-8'' (h r))
         else case map_of mimeTypes (to_lower (file_ext (path r))) of
           Some ct \<Rightarrow> nocache (preset ''Content-Type'' ct (h r))
         | None \<Rightarrow> nocache (h r))"

definition spa_deny :: "string list" where
  "spa_deny = [''/api/'', ''/sse/'', ''/css/'', ''/app/'', ''/media/'', ''/assets/'', ''/static/'', ''/vendor/'']"

definition index_page :: "assets \<Rightarrow> response" where
  "index_page a =
     (case as_index a of
        None \<Rightarrow> not_found
      | Some page \<Rightarrow> with_header ''Content-Type'' ''text/html; charset=utf-8'' (respond 200 (Static page)))"

definition spaFallback :: "assets \<Rightarrow> request \<Rightarrow> response" where
  "spaFallback a r =
     (if req_method r \<noteq> ''GET'' \<and> req_method r \<noteq> ''HEAD'' then not_found
      else if list_ex (has_prefix (path r)) spa_deny then not_found
      else
        let candidate = trim_left (path r) ''/''
        in if candidate \<noteq> [] \<and> as_stat a candidate \<noteq> None then as_serve a r else index_page a)"

definition spaFallbackDir :: "assets \<Rightarrow> string \<Rightarrow> request \<Rightarrow> response" where
  "spaFallbackDir a assetsDir r =
     (if req_method r \<noteq> ''GET'' \<and> req_method r \<noteq> ''HEAD'' then not_found
      else if list_ex (has_prefix (path r)) spa_deny then not_found
      else if path r \<noteq> ''/'' \<and> as_stat a (assetsDir @ path r) = Some False then mimeFixFS (as_serve a) r
      else preset ''Content-Type'' ''text/html; charset=utf-8'' (index_page a))"

section \<open>The table\<close>

text \<open>
  The endpoints of the broker. Most handlers only read the machine; the check of the released versions keeps a cache, and it and the
  map of the reboots log warnings.
\<close>

record broker_api =
  api_stream :: "request \<Rightarrow> response"
  api_system :: "request \<Rightarrow> response"
  api_versions :: "request \<Rightarrow> versions_cache \<Rightarrow> response \<times> versions_cache \<times> string list"
  api_reboots :: "request \<Rightarrow> response \<times> string list"
  api_bios :: "request \<Rightarrow> response"
  api_modules :: "request \<Rightarrow> response"
  api_gpus :: "request \<Rightarrow> response"
  api_packages :: "request \<Rightarrow> response"
  api_services :: "request \<Rightarrow> response"
  api_security :: "request \<Rightarrow> response"
  api_logs :: "request \<Rightarrow> response"
  api_logs_tail :: "request \<Rightarrow> response"

record 'f server =
  sv_env :: env
  sv_oauth :: oauth_service
  sv_oauth_env :: oauth_env
  sv_xen :: "'f xen_env"
  sv_broker :: broker_api
  sv_assets :: assets
  sv_assets_dir :: string            \<comment> \<open>\<open>UNYPORT_ASSETS\<close>\<close>
  sv_csrf :: csrf_manager
  sv_trusted :: "string list"
  sv_https :: bool
  sv_alt_svc :: "string option"

definition pure_handler :: "(request \<Rightarrow> response) \<Rightarrow> world handler" where
  "pure_handler h r w = (h r, w)"

definition versions_route :: "broker_api \<Rightarrow> world handler" where
  "versions_route b r w =
     (case api_versions b r (w_versions w) of (rs, c, warns) \<Rightarrow> (rs, w\<lparr>w_versions := c, w_warns := warns @ w_warns w\<rparr>))"

definition reboots_route :: "broker_api \<Rightarrow> world handler" where
  "reboots_route b r w = (case api_reboots b r of (rs, warns) \<Rightarrow> (rs, w\<lparr>w_warns := warns @ w_warns w\<rparr>))"

definition loginRL :: "env \<Rightarrow> world middleware" where
  "loginRL e = limit w_limiter (\<lambda>rl w. w\<lparr>w_limiter := rl\<rparr>) (e_canon_ip e) (e_now e)"

definition version_handler :: "env \<Rightarrow> world handler" where
  "version_handler e r w =
     (case publicVersionHandler (e_now e) (e_release e) r (w_release w) of (rs, c) \<Rightarrow> (rs, w\<lparr>w_release := c\<rparr>))"

definition profile_handler :: "env \<Rightarrow> world handler" where
  "profile_handler e r w =
     (if req_method r = ''GET'' then Profile e r w
      else if req_method r = ''PATCH'' then
        (if UserRoleFromCtx r = ''viewer'' then (http_error ''forbidden'' 403, w) else UpdateProfileHandler e r w)
      else (method_not_allowed, w))"

definition adminMW :: "env \<Rightarrow> world middleware" where
  "adminMW e h = Auth e (RequireRole [''admin''] h)"

definition writeMW :: "env \<Rightarrow> world middleware" where
  "writeMW e h = Auth e (RequireRole [''admin'', ''operator''] h)"

definition public_routes :: "'f server \<Rightarrow> world table" where
  "public_routes s =
     (let e = sv_env s in
      [(''/api/csrf'', CSRFTokenHandler (e_hmac e) (Some (sv_csrf s)) (e_nonce e)),
       (''/api/public/version'', version_handler e),
       (''/api/login'', loginRL e (Login e)),
       (''/api/logout'', Logout e),
       (''/api/session'', Session e),
       (''/api/branding'', GetBranding e),
       (''/api/oauth/providers'', ProvidersHandler (sv_oauth s)),
       (''/api/oauth/login'', OAuthLoginHandler (sv_oauth_env s) (sv_oauth s) e),
       (''/api/oauth/callback'', CallbackHandler (sv_oauth_env s) (sv_oauth s) e)])"

definition static_dirs :: "string list" where
  "static_dirs = [''css'', ''app'', ''media'', ''assets'', ''static'', ''vendor'', ''webfonts'', ''fonts'']"

definition static_files :: "string list" where
  "static_files = [''/favicon.ico'', ''/robots.txt'', ''/sitemap.xml'', ''/manifest.json'', ''/sw.js'']"

definition strip_prefix :: "string \<Rightarrow> (request \<Rightarrow> response) \<Rightarrow> request \<Rightarrow> response" where
  "strip_prefix p h r = (if has_prefix (path r) p then h (r\<lparr>path := trim_prefix (path r) p\<rparr>) else not_found)"

definition static_routes :: "'f server \<Rightarrow> world table" where
  "static_routes s =
     (let a = sv_assets s; dirs = (if sv_assets_dir s \<noteq> [] then static_dirs
                                   else filter (\<lambda>d. d \<in> set (as_subdirs a)) static_dirs)
      in map (\<lambda>d. (''/'' @ d @ ''/'', pure_handler (mimeFixFS (strip_prefix (''/'' @ d @ ''/'') (as_serve_sub a d))))) dirs @
         map (\<lambda>f. (f, pure_handler (mimeFixFS (as_serve a)))) static_files @
         [(''/'', pure_handler (if sv_assets_dir s \<noteq> [] then spaFallbackDir a (sv_assets_dir s) else spaFallback a))])"

text \<open>The handlers behind the session middleware, by the roles they are open to.\<close>

definition session_handlers :: "'f server \<Rightarrow> world table" where
  "session_handlers s =
     (let e = sv_env s; b = sv_broker s in
      [(''/sse/system'', pure_handler (api_stream b)), (''/api/system'', pure_handler (api_system b)),
       (''/api/versions'', versions_route b), (''/api/reboots'', reboots_route b),
       (''/api/bios'', pure_handler (api_bios b)), (''/api/modules'', pure_handler (api_modules b)),
       (''/api/gpus'', pure_handler (api_gpus b)), (''/api/packages'', pure_handler (api_packages b)),
       (''/api/services'', pure_handler (api_services b)), (''/api/security'', pure_handler (api_security b)),
       (''/api/logs'', pure_handler (api_logs b)), (''/api/logs/tail'', pure_handler (api_logs_tail b)),
       (''/api/xen/info'', XenInfo (sv_xen s)), (''/api/xen/domains'', Domains (sv_xen s)),
       (''/api/profile'', profile_handler e)])"

definition write_handlers :: "'f server \<Rightarrow> world table" where
  "write_handlers s =
     [(''/api/xen/domains/'', DomainAction (sv_xen s)), (''/api/profile/password'', UpdatePasswordHandler (sv_env s))]"

definition admin_handlers :: "'f server \<Rightarrow> world table" where
  "admin_handlers s =
     (let e = sv_env s in
      [(''/api/xen/domains/create'', XenCreate (sv_xen s)), (''/api/branding/update'', UpdateBranding e),
       (''/api/branding/reset'', ResetBranding e), (''/api/admin/users'', AdminUsers e),
       (''/api/admin/users/'', AdminUserByEmail e)])"

definition wrap :: "'w middleware \<Rightarrow> 'w table \<Rightarrow> 'w table" where
  "wrap mw tbl = map (\<lambda>(pat, h). (pat, mw h)) tbl"

definition setupRoutes :: "'f server \<Rightarrow> world table" where
  "setupRoutes s =
     public_routes s @ static_routes s @ wrap (Auth (sv_env s)) (session_handlers s) @
     wrap (writeMW (sv_env s)) (write_handlers s) @ wrap (adminMW (sv_env s)) (admin_handlers s)"

end
