(* ===== verification/NetIP.thy ===== *)
theory NetIP
  imports GoPrelude
begin

text \<open>
  IP addresses as \<open>net.ParseIP\<close> reads them (dotted decimal without leading zeros, IPv6 with one
  ellipsis and an embedded IPv4 tail, no zone), as the list of the 16 bytes of the address, and the
  test of \<open>sse/metrics.go\<close> for a public IPv4 neighbour.
\<close>

section \<open>Parsing\<close>

text \<open>One octet: at most 255, no leading zero.\<close>

definition parse_octet :: "string \<Rightarrow> int option" where
  "parse_octet s =
     (if s = [] \<or> \<not> list_all is_digit_byte s \<or> (hd s = CHR ''0'' \<and> 1 < length s) \<or> 3 < length s then None
      else let v = foldl (\<lambda>a c. 10 * a + (of_char c - 48)) 0 s in if v \<le> 255 then Some v else None)"

definition parse_ip4 :: "string \<Rightarrow> int list option" where
  "parse_ip4 s =
     (let vs = map parse_octet (split_on CHR ''.'' s)
      in if length vs = 4 \<and> list_all (\<lambda>v. v \<noteq> None) vs then Some (map the vs) else None)"

definition hex_val :: "char \<Rightarrow> int" where
  "hex_val c = (if is_digit_byte c then of_char c - 48 else if in_range 97 102 c then of_char c - 87 else of_char c - 55)"

text \<open>
  The groups of an IPv6 address from byte \<open>i\<close> on: \<open>acc\<close> holds the bytes read so far, \<open>ell\<close> the
  position of the ellipsis. The fuel is the number of 16-bit groups that may still come, at most eight.
\<close>

fun ip6_groups :: "nat \<Rightarrow> string \<Rightarrow> int list \<Rightarrow> nat option \<Rightarrow> (int list \<times> nat option) option" where
  "ip6_groups 0 s acc ell = (if s = [] then Some (acc, ell) else None)"
| "ip6_groups (Suc k) s acc ell =
     (let h = takeWhile is_hex_byte s; rest = dropWhile is_hex_byte s;
          v = foldl (\<lambda>a c. 16 * a + hex_val c) 0 h; acc' = acc @ [v div 256, v mod 256]
      in if h = [] \<or> 4 < length h then None
         else case rest of
           [] \<Rightarrow> Some (acc', ell)
         | c # r \<Rightarrow>
             if c = CHR ''.'' then
               (if (ell = None \<and> length acc \<noteq> 12) \<or> 16 < length acc + 4 then None
                else map_option (\<lambda>v4. (acc @ v4, ell)) (parse_ip4 s))
             else if c \<noteq> CHR '':'' \<or> r = [] then None
             else if hd r = CHR '':'' then
               (if ell \<noteq> None then None
                else if tl r = [] then Some (acc', Some (length acc'))
                else ip6_groups k (tl r) acc' (Some (length acc')))
             else ip6_groups k r acc' ell)"

definition parse_ip6 :: "string \<Rightarrow> int list option" where
  "parse_ip6 s =
     (let lead = has_prefix s ''::''; s' = (if lead then drop 2 s else s)
      in if lead \<and> s' = [] then Some (replicate 16 0)
         else case ip6_groups 8 s' [] (if lead then Some 0 else None) of
           None \<Rightarrow> None
         | Some (bs, None) \<Rightarrow> if length bs = 16 then Some bs else None
         | Some (bs, Some e) \<Rightarrow>
             if length bs < 16 then Some (take e bs @ replicate (16 - length bs) 0 @ drop e bs) else None)"

definition v4_prefix :: "int list" where
  "v4_prefix = replicate 10 0 @ [255, 255]"

text \<open>\<open>net.ParseIP\<close>: the first of \<open>.\<close>, \<open>:\<close> and \<open>%\<close> decides; a zone is refused.\<close>

definition parse_ip :: "string \<Rightarrow> int list option" where
  "parse_ip s =
     (case List.find (\<lambda>c. c \<in> {CHR ''.'', CHR '':'', CHR ''%''}) s of
        None \<Rightarrow> None
      | Some c \<Rightarrow>
          if c = CHR ''.'' then map_option (\<lambda>v4. v4_prefix @ v4) (parse_ip4 s)
          else if c = CHR '':'' \<and> CHR ''%'' \<notin> set s then parse_ip6 s
          else None)"

text \<open>\<open>To4\<close>.\<close>

definition to4 :: "int list \<Rightarrow> int list option" where
  "to4 ip = (if take 12 ip = v4_prefix then Some (drop 12 ip) else None)"

section \<open>Public neighbours\<close>

definition is_private4 :: "int list \<Rightarrow> bool" where
  "is_private4 ip \<longleftrightarrow>
     ip ! 0 = 10 \<or> (ip ! 0 = 172 \<and> 16 \<le> ip ! 1 \<and> ip ! 1 \<le> 31) \<or> (ip ! 0 = 192 \<and> ip ! 1 = 168)"

text \<open>\<open>IsGlobalUnicast\<close> on an IPv4 address: not broadcast, unspecified, loopback, multicast or link-local.\<close>

definition is_global_unicast4 :: "int list \<Rightarrow> bool" where
  "is_global_unicast4 ip \<longleftrightarrow>
     ip \<noteq> [255, 255, 255, 255] \<and> ip \<noteq> [0, 0, 0, 0] \<and> ip ! 0 \<noteq> 127 \<and>
     \<not> (224 \<le> ip ! 0 \<and> ip ! 0 \<le> 239) \<and> \<not> (ip ! 0 = 169 \<and> ip ! 1 = 254)"

definition in_cgnat :: "int list \<Rightarrow> bool" where
  "in_cgnat ip \<longleftrightarrow> ip ! 0 = 100 \<and> 64 \<le> ip ! 1 \<and> ip ! 1 \<le> 127"

definition isPublicNeighborIP :: "string \<Rightarrow> bool" where
  "isPublicNeighborIP value =
     (case Option.bind (parse_ip (trim_space value)) to4 of
        None \<Rightarrow> False
      | Some ip \<Rightarrow> is_global_unicast4 ip \<and> \<not> is_private4 ip \<and> \<not> in_cgnat ip)"

section \<open>Facts\<close>

lemma parse_octet_bound: "parse_octet s = Some v \<Longrightarrow> v \<le> 255"
  by (auto simp: parse_octet_def Let_def split: if_splits)

lemma parse_ip4_octets: "parse_ip4 s = Some ip \<Longrightarrow> length ip = 4 \<and> (\<forall>b \<in> set ip. b \<le> 255)"
  by (fastforce simp: parse_ip4_def Let_def list_all_iff split: if_splits dest: parse_octet_bound)

lemma to4_v4 [simp]: "to4 (v4_prefix @ ip) = Some ip"
  by (simp add: to4_def v4_prefix_def)

lemma parse_ip_examples:
  "parse_ip ''192.168.1.20'' = Some (v4_prefix @ [192, 168, 1, 20])" "parse_ip ''192.168.01.20'' = None"
  "parse_ip ''::ffff:8.8.8.8'' = Some (v4_prefix @ [8, 8, 8, 8])" "parse_ip ''fe80::1%eth0'' = None"
  "parse_ip ''12:b::1'' = Some [0, 18, 0, 11, 0, 0, 0, 0, 0, 0, 0, 0, 0, 0, 0, 1]"
  "parse_ip ''::'' = Some (replicate 16 0)" "parse_ip ''1:2:3:4:5:6:7:8::'' = None" "parse_ip '':'' = None"
  "parse_ip ''1:2:3:4:5:6:7::'' \<noteq> None" "parse_ip ''1.2.3.4.5'' = None" "parse_ip ''256.1.1.1'' = None"
  by code_simp+

end
