(* ===== verification/Interfaces.thy ===== *)
theory Interfaces
  imports NetIP
begin

text \<open>
  The addresses of the host (\<open>defaultTrustedOrigins\<close> in \<open>server/server.go\<close> reads them): the addresses of the network interfaces in the notation of CIDR, as \<open>net.ParseCIDR\<close> takes
  them apart, and the text \<open>net.IP.String\<close> gives for one.
\<close>

section \<open>Addresses\<close>

text \<open>The mask is a number of digits only and at most the number of bits of the address; \<open>net.ParseCIDR\<close> yields the sixteen bytes before the mask.\<close>

definition cidr_mask :: "string \<Rightarrow> int option" where
  "cidr_mask s = (if s \<noteq> [] \<and> list_all is_digit_byte s then Some (foldl (\<lambda>a c. 10 * a + (of_char c - 48)) 0 s) else None)"

definition ParseCIDR :: "string \<Rightarrow> int list option" where
  "ParseCIDR s =
     (if CHR ''/'' \<notin> set s then None
      else
        let addr = takeWhile (\<lambda>c. c \<noteq> CHR ''/'') s; mask = drop (Suc (length addr)) s
        in case (parse_ip addr, cidr_mask mask) of
             (Some ip, Some n) \<Rightarrow> if n \<le> (if CHR '':'' \<in> set addr then 128 else 32) then Some ip else None
           | _ \<Rightarrow> None)"

definition IsLoopback :: "int list \<Rightarrow> bool" where
  "IsLoopback ip =
     (case to4 ip of Some v \<Rightarrow> v ! 0 = 127 | None \<Rightarrow> ip = replicate 15 0 @ [1])"

section \<open>Text\<close>

definition hex_char :: "int \<Rightarrow> char" where
  "hex_char n = (if n < 10 then char_of (48 + nat n) else char_of (87 + nat n))"

function int_to_hex :: "int \<Rightarrow> string" where
  "int_to_hex n = (if n < 16 then [hex_char n] else int_to_hex (n div 16) @ [hex_char (n mod 16)])"
  by pat_completeness auto
termination
  by (relation "measure nat") auto

declare int_to_hex.simps [simp del]

fun byte_pairs :: "int list \<Rightarrow> int list" where
  "byte_pairs (a # b # bs) = (256 * a + b) # byte_pairs bs"
| "byte_pairs _ = []"

text \<open>The longest run of two or more zero groups, the first of the longest.\<close>

definition zeros_at :: "int list \<Rightarrow> nat \<Rightarrow> nat" where
  "zeros_at gs i = length (takeWhile (\<lambda>g. g = 0) (drop i gs))"

definition longest_zeros :: "int list \<Rightarrow> nat \<times> nat" where
  "longest_zeros gs = foldl (\<lambda>(bi, bn) i. if bn < zeros_at gs i then (i, zeros_at gs i) else (bi, bn)) (0, 1) [0..<length gs]"

definition ip_string :: "int list \<Rightarrow> string" where
  "ip_string ip =
     (case to4 ip of
        Some v \<Rightarrow> join ''.'' (map itoa v)
      | None \<Rightarrow>
          (let gs = byte_pairs ip; txt = (\<lambda>l. join '':'' (map int_to_hex l))
           in case longest_zeros gs of (i, n) \<Rightarrow>
                if n < 2 then txt gs else txt (take i gs) @ ''::'' @ txt (drop (i + n) gs)))"

section \<open>The interfaces\<close>

text \<open>An interface that is down is passed over; \<open>None\<close> stands for the error of \<open>Addrs\<close>.\<close>

record host_iface =
  hi_up :: bool
  hi_addrs :: "string list option"

definition iface_hosts :: "host_iface \<Rightarrow> string list" where
  "iface_hosts i =
     (if \<not> hi_up i then []
      else case hi_addrs i of
        None \<Rightarrow> []
      | Some as \<Rightarrow>
          List.map_filter (\<lambda>a. case ParseCIDR a of None \<Rightarrow> None | Some ip \<Rightarrow> if IsLoopback ip then None else Some (ip_string ip)) as)"

text \<open>\<open>None\<close> stands for the error of \<open>net.Interfaces\<close>.\<close>

definition host_addrs :: "host_iface list option \<Rightarrow> string list" where
  "host_addrs ifs = (case ifs of None \<Rightarrow> [] | Some is \<Rightarrow> concat (map iface_hosts is))"

section \<open>Facts\<close>

text \<open>The text of an address is made of digits, letters, dots and colons.\<close>

definition no_slash :: "string \<Rightarrow> bool" where
  "no_slash s \<longleftrightarrow> CHR ''/'' \<notin> set s"

lemma no_slash_simps [simp]:
  "no_slash []" "no_slash (c # s) \<longleftrightarrow> c \<noteq> CHR ''/'' \<and> no_slash s" "no_slash (s @ t) \<longleftrightarrow> no_slash s \<and> no_slash t"
  by (auto simp: no_slash_def)

lemma no_slash_join: "no_slash sep \<Longrightarrow> list_all no_slash ss \<Longrightarrow> no_slash (join sep ss)"
  by (induction sep ss rule: join.induct) auto

lemma no_slash_itoa [simp]: "no_slash (itoa i)"
proof -
  have "no_slash (nat_to_dec n)" for n
    using nat_to_dec_digits [of n] by (auto simp: no_slash_def list_all_iff is_digit_byte_def in_range_def)
  then show ?thesis by (simp add: itoa_def)
qed

lemma hex_char_no_slash: "n < 16 \<Longrightarrow> hex_char n \<noteq> CHR ''/''"
proof -
  assume "n < 16"
  then have "nat n < 16" "byte (hex_char n) = (if n < 10 then 48 + nat n else 87 + nat n)" by (auto simp: hex_char_def)
  then show ?thesis by (auto split: if_splits)
qed

lemma no_slash_hex [simp]: "no_slash (int_to_hex n)"
proof (induction n rule: int_to_hex.induct)
  case (1 n)
  then show ?case by (subst int_to_hex.simps) (auto simp: hex_char_no_slash)
qed

lemma no_slash_ip: "no_slash (ip_string ip)"
proof -
  have "list_all no_slash (map itoa v)" "list_all no_slash (map int_to_hex l)" for v l
    by (auto simp: list_all_iff)
  then show ?thesis by (auto simp: ip_string_def Let_def no_slash_join split: option.split prod.split)
qed

lemma host_addrs_no_slash: "\<forall>a \<in> set (host_addrs ifs). no_slash a"
proof -
  have "\<forall>a \<in> set (iface_hosts i). no_slash a" for i
    by (auto simp: iface_hosts_def List.map_filter_def no_slash_ip split: option.splits if_splits)
  then show ?thesis by (auto simp: host_addrs_def split: option.split)
qed

text \<open>The usual addresses: printed as they are written, the loopback ones left out.\<close>

lemma ParseCIDR_examples:
  "ParseCIDR ''127.0.0.1/8'' = Some (v4_prefix @ [127, 0, 0, 1])"
  "ParseCIDR ''10.0.0.7/33'' = None"
  "ParseCIDR ''2001:db8::1:0:0:1/64'' = Some [0x20, 1, 0x0D, 0xB8, 0, 0, 0, 0, 0, 1, 0, 0, 0, 0, 0, 1]"
  by code_simp+

lemma ip_string_examples:
  "ip_string (v4_prefix @ [192, 168, 1, 20]) = ''192.168.1.20''"
  "ip_string [0x20, 1, 0x0D, 0xB8, 0, 0, 0, 0, 0, 1, 0, 0, 0, 0, 0, 1] = ''2001:db8::1:0:0:1''"
  by code_simp+

end
