(* ===== verification/Server.thy ===== *)
theory Server
  imports Routes Interfaces
begin

text \<open>
  The assembly of the server, \<open>backend/server/server.go\<close>: the trusted origins, the services built
  from the settings, and the chain \<open>Secure\<close>, \<open>CSRFBypass\<close>, \<open>CSRFProtect\<close>, multiplexer through
  which every request passes.
\<close>

section \<open>Trusted origins\<close>

fun normalize_from :: "string list \<Rightarrow> string list \<Rightarrow> string list" where
  "normalize_from seen [] = []"
| "normalize_from seen (o0 # rest) =
     (let orig = trim_space o0
      in if orig = [] then normalize_from seen rest
         else
           let h = (case url_parse orig of Some (s, h) \<Rightarrow> if h \<noteq> [] then h else orig | None \<Rightarrow> orig)
           in if h \<in> set seen then normalize_from seen rest
              else h # normalize_from (h # seen) rest)"

definition normalizeTrustedOrigins :: "string list \<Rightarrow> string list" where
  "normalizeTrustedOrigins origins = normalize_from [] origins"

definition JoinHostPort :: "string \<Rightarrow> string \<Rightarrow> string" where
  "JoinHostPort h port =
     (if CHR '':'' \<in> set h \<or> CHR ''%'' \<in> set h then ''['' @ h @ '']:'' @ port else h @ '':'' @ port)"

definition defaultTrustedOrigins :: "host_iface list option \<Rightarrow> string \<Rightarrow> string list" where
  "defaultTrustedOrigins ifs port =
     rev (fold (\<lambda>h out. let orig = JoinHostPort h port in if orig \<in> set out then out else orig # out)
            ([''localhost'', ''127.0.0.1'', ''::1''] @ host_addrs ifs) [])"

definition trusted_origins :: "settings \<Rightarrow> host_iface list option \<Rightarrow> string \<Rightarrow> string list" where
  "trusted_origins st ifs port =
     (let t = normalizeTrustedOrigins (TrustedOrigins (Security2 st))
      in if t = [] then defaultTrustedOrigins ifs port else t)"

section \<open>The chain\<close>

definition serve :: "'f server \<Rightarrow> world handler" where
  "serve s r w =
     (let chain = Secure (sv_https s)
                    (CSRFBypass (CSRFProtect (e_hmac (sv_env s)) (sv_csrf s) (sv_trusted s) (sv_https s)
                       (serve_mux (setupRoutes s))));
          p = chain r w
      in case sv_alt_svc s of None \<Rightarrow> p | Some v \<Rightarrow> (preset ''Alt-Svc'' v (fst p), snd p))"

text \<open>A run of the server: each request meets the server in its own environment.\<close>

definition serve_all :: "('f server \<times> request) list \<Rightarrow> world \<Rightarrow> world" where
  "serve_all reqs w = fold (\<lambda>(s, r) w. snd (serve s r w)) reqs w"

section \<open>Start-up\<close>

datatype startup_panic =
    BadJWT jwt_error | BadUsers store_error | BadBranding branding_error | BadPort string | BadCSRFSecret

text \<open>What the system tells \<open>New\<close>: the environment variables, the files and the interfaces.\<close>

record 'f startup =
  su_port :: string
  su_assets :: string
  su_admin_password :: string
  su_users_file :: users_file
  su_users_order :: "string list"
  su_branding_file :: branding_file
  su_ifaces :: "host_iface list option"    \<comment> \<open>\<open>net.Interfaces\<close>\<close>
  su_cert_ok :: bool
  su_env :: env
  su_oauth_env :: oauth_env
  su_xen :: "'f xen_env"
  su_broker :: broker_api
  su_files :: assets

definition session_ttl :: "settings \<Rightarrow> int" where
  "session_ttl st =
     (let t = SessionTimeoutMins (Security2 st) * minute in if t \<le> 0 then hour else t)"

definition login_attempts :: "settings \<Rightarrow> int" where
  "login_attempts st = (let n = RateLimitLogin (Security2 st) in if n \<le> 0 then 5 else n)"

definition http_port :: "string \<Rightarrow> int option" where
  "http_port v =
     (let value = trim_space v
      in if value = [] then Some 8800
         else case atoi value of (p, ok) \<Rightarrow> if \<not> ok \<or> p < 1 \<or> 65535 < p then None else Some p)"

text \<open>The listening address, and whether HTTP/3 is served beside it.\<close>

record listener =
  li_addr :: string
  li_http3 :: bool
  li_redirect :: bool

definition listeners :: "settings \<Rightarrow> bool \<Rightarrow> int \<Rightarrow> listener" where
  "listeners st cert_ok port =
     (let h = HTTP3 st
      in \<lparr>li_addr = '':'' @ itoa (if http3_Enabled h then http3_Port h else port),
          li_http3 = http3_Enabled h \<and> CertFile h \<noteq> [] \<and> KeyFile h \<noteq> [] \<and> cert_ok,
          li_redirect = http3_Enabled h \<and> RedirectHTTP h\<rparr>)"

definition alt_svc_header :: "settings \<Rightarrow> string" where
  "alt_svc_header st = ''h3='' @ [CHR 0x22] @ '':'' @ itoa (http3_Port (HTTP3 st)) @ [CHR 0x22] @ ''; ma=86400''"

definition redirect_target :: "settings \<Rightarrow> request \<Rightarrow> string \<Rightarrow> response" where
  "redirect_target st r uri = redirect (''https://'' @ host r @ '':'' @ itoa (http3_Port (HTTP3 st)) @ uri) 301"

definition New ::
  "oauth_clients \<Rightarrow> settings \<Rightarrow> 'f startup \<Rightarrow> startup_panic + ('f server \<times> world \<times> listener)" where
  "New cfg st su =
     (case NewJWTServiceWithOpts (JWTSecret (Security st)) (session_ttl st) (HTTPS (Security2 st)) of
        Inl x \<Rightarrow> Inl (BadJWT x)
      | Inr jwt \<Rightarrow>
     (case NewUserStore (e_gen (su_env su)) (e_save (su_env su)) (su_admin_password su) (e_now (su_env su))
             (su_users_order su) (su_users_file su) of
        (_, Inl x) \<Rightarrow> Inl (BadUsers x)
      | (store, Inr _) \<Rightarrow>
     (case NewBrandingStore (su_branding_file su) of
        (_, Inl x) \<Rightarrow> Inl (BadBranding x)
      | (branding, Inr _) \<Rightarrow>
     (case http_port (su_port su) of
        None \<Rightarrow> Inl (BadPort (trim_space (su_port su)))
      | Some port \<Rightarrow>
     (case new_csrf_manager st of
        None \<Rightarrow> Inl BadCSRFSecret
      | Some m \<Rightarrow>
          let li = listeners st (su_cert_ok su) port in
          Inr (\<lparr>sv_env = (su_env su)\<lparr>e_jwt := jwt, e_mailer := Some (NewMailer st)\<rparr>,
                sv_oauth = NewOAuthService cfg (Some st) (HTTPS (Security2 st)), sv_oauth_env = su_oauth_env su,
                sv_xen = su_xen su, sv_broker = su_broker su, sv_assets = su_files su, sv_assets_dir = su_assets su,
                sv_csrf = m, sv_trusted = trusted_origins st (su_ifaces su) (itoa port),
                sv_https = HTTPS (Security2 st),
                sv_alt_svc = (if li_http3 li then Some (alt_svc_header st) else None)\<rparr>,
               \<lparr>w_store = store, w_branding = branding, w_limiter = NewLoginRateLimiter (login_attempts st),
                w_mails = [], w_release = empty_release_cache, w_xl = [],
                w_versions = empty_versions, w_warns = []\<rparr>, li))))))"

section \<open>Facts on the multiplexer\<close>

lemma fold_better_route:
  "fold (better_route p) tbl best = Some (pat, h) \<Longrightarrow>
     best = Some (pat, h) \<or> ((pat, h) \<in> set tbl \<and> subtree pat \<and> has_prefix p pat)"
proof (induction tbl arbitrary: best)
  case (Cons x tbl)
  obtain pat' h' where x: "x = (pat', h')" by (cases x)
  from Cons.prems have "fold (better_route p) tbl (better_route p x best) = Some (pat, h)" by simp
  from Cons.IH [OF this] x show ?case by (auto split: if_splits)
qed simp

lemma longest_Some: "longest tbl p = Some (pat, h) \<Longrightarrow> (pat, h) \<in> set tbl \<and> subtree pat \<and> has_prefix p pat"
  using fold_better_route [of p tbl None pat h] by (simp add: longest_def)

lemma serve_mux_cases:
  obtains (none) "snd (serve_mux tbl r w) = w"
  | (route) pat h where "(pat, h) \<in> set tbl" "serve_mux tbl r w = h r w"
      "pat = path r \<or> (subtree pat \<and> has_prefix (path r) pat)"
proof (cases "map_of tbl (cleanPath (path r))")
  case (Some h)
  show ?thesis
  proof (cases "cleanPath (path r) = path r")
    case True
    with Some have "(path r, h) \<in> set tbl" "serve_mux tbl r w = h r w"
      by (auto simp: serve_mux_def dest: map_of_SomeD)
    then show ?thesis by (rule route) simp
  next
    case False
    with Some show ?thesis by (intro none) (simp add: serve_mux_def)
  qed
next
  case None
  show ?thesis
  proof (cases "longest tbl (cleanPath (path r))")
    case None': None
    with None show ?thesis by (intro none) (auto simp: serve_mux_def Let_def split: if_splits option.splits)
  next
    case (Some q)
    obtain pat h where q: "q = (pat, h)" by (cases q)
    show ?thesis
    proof (cases "snd (serve_mux tbl r w) = w")
      case True
      then show ?thesis by (rule none)
    next
      case False
      then have "serve_mux tbl r w = h r w" "cleanPath (path r) = path r"
        using None Some q by (auto simp: serve_mux_def Let_def split: if_splits)
      with longest_Some [of tbl "cleanPath (path r)" pat h] Some q show ?thesis by (intro route) auto
    qed
  qed
qed

end
