(* ===== verification/ServerAccess.thy ===== *)
theory ServerAccess
  imports Server
begin

text \<open>
  What the assembled server guarantees about who can change what, over its whole routing table and
  middleware chain: requests without a session, requests of a viewer and of an operator, requests from
  another site, and runs of any requests.
\<close>

section \<open>A request that reaches a handler\<close>

definition skip_mark :: "bool \<Rightarrow> request \<Rightarrow> request" where
  "skip_mark b r = (if b then r\<lparr>ctx_csrf_skip := True\<rparr> else r)"

lemma skip_mark_simps [simp]:
  "req_method (skip_mark b r) = req_method r" "path (skip_mark b r) = path r" "cookies (skip_mark b r) = cookies r"
  "headers (skip_mark b r) = headers r" "host (skip_mark b r) = host r" "tls (skip_mark b r) = tls r" "body_of (skip_mark b r) = body_of r" "query (skip_mark b r) = query r"
  by (simp_all add: skip_mark_def)

lemma identity_skip_mark [simp]: "identity e w (skip_mark b r) = identity e w r"
  by (simp add: identity_def FromRequest_def cookie_def skip_mark_def)

lemma snd_Secure: "snd (Secure https h r w) = snd (h r w)"
  by (simp add: Secure_def split: prod.split)

lemma serve_snd:
  "snd (serve s r w) = snd (CSRFBypass (CSRFProtect (e_hmac (sv_env s)) (sv_csrf s) (sv_trusted s) (sv_https s)
      (serve_mux (setupRoutes s))) r w)"
  by (simp add: serve_def Let_def snd_Secure split: option.split)

lemma CSRFBypass_mark: "CSRFBypass h r = h (skip_mark (path r \<in> set bypassPaths) r)"
  by (simp add: CSRFBypass_def skip_mark_def fun_eq_iff)

lemma CSRFProtect_cases:
  "snd (CSRFProtect hmac m t https h r w) = w \<or> CSRFProtect hmac m t https h r w = h r w"
  by (simp add: CSRFProtect_def split: option.split)

lemma serve_cases:
  obtains (none) "snd (serve s r w) = w"
  | (route) b pat h where "(pat, h) \<in> set (setupRoutes s)" "snd (serve s r w) = snd (h (skip_mark b r) w)"
      "pat = path r \<or> (subtree pat \<and> has_prefix (path r) pat)"
proof -
  let ?b = "path r \<in> set bypassPaths"
  let ?mux = "serve_mux (setupRoutes s)"
  have "snd (serve s r w) = w \<or> snd (serve s r w) = snd (?mux (skip_mark ?b r) w)"
    using CSRFProtect_cases [of "e_hmac (sv_env s)" "sv_csrf s" "sv_trusted s" "sv_https s" ?mux "skip_mark ?b r" w]
    unfolding serve_snd CSRFBypass_mark by auto
  then consider "snd (serve s r w) = w" | "snd (serve s r w) = snd (?mux (skip_mark ?b r) w)" by blast
  then show thesis
  proof cases
    case 1
    then show ?thesis by (rule none)
  next
    case 2
    show ?thesis
    proof (cases rule: serve_mux_cases [of "setupRoutes s" "skip_mark ?b r" w])
      case 1: none
      with 2 show ?thesis by (intro none) simp
    next
      case r: (route pat h)
      with 2 show ?thesis by (intro route [of pat h ?b]) auto
    qed
  qed
qed

section \<open>The effect of the routes\<close>

text \<open>Users, branding and commands are as before.\<close>

definition same_accounts :: "world \<Rightarrow> world \<Rightarrow> bool" where
  "same_accounts w w' \<longleftrightarrow> w_store w' = w_store w \<and> w_branding w' = w_branding w \<and> w_xl w' = w_xl w"

named_theorems quiet \<open>handlers that leave users, branding and commands alone\<close>

lemma same_accounts_refl [simp, quiet]: "same_accounts w w"
  by (simp add: same_accounts_def)

lemma quiet_simple [quiet]:
  "same_accounts w (snd (CSRFTokenHandler hmac a n r w))" "same_accounts w (snd (version_handler e r w))"
  "same_accounts w (snd (Logout e r w))" "same_accounts w (snd (Session e r w))"
  "same_accounts w (snd (Profile e r w))" "same_accounts w (snd (GetBranding e r w))"
  "same_accounts w (snd (ProvidersHandler os r w))" "same_accounts w (snd (OAuthLoginHandler oe os e r w))"
  "same_accounts w (snd (pure_handler h r w))"
  by (simp_all add: same_accounts_def CSRFTokenHandler_def version_handler_def Logout_effect Session_effect
      Profile_effect GetBranding_def ProvidersHandler_def OAuthLoginHandler_def pure_handler_def Let_def
      split: option.split prod.split)

lemma quiet_broker [quiet]:
  "same_accounts w (snd (versions_route b r w))" "same_accounts w (snd (reboots_route b r w))"
  by (simp_all add: versions_route_def reboots_route_def same_accounts_def case_prod_unfold)

lemma quiet_login [quiet]: "same_accounts w (snd (loginRL e (Login e) r w))"
proof -
  have "same_accounts w (snd (Login e r w'))" if "same_accounts w w'" for w'
    using that by (auto simp: Login_def Let_def same_accounts_def split: option.splits sum.splits)
  then show ?thesis by (simp add: loginRL_def limit_def Let_def same_accounts_def)
qed

lemma Auth_anonymous [quiet]: "identity e w r = None \<Longrightarrow> same_accounts w (snd (Auth e h r w))"
  by (simp add: Auth_refused_state)

lemma RequireRole_snd: "snd (RequireRole allowed h r w) = (if UserRoleFromCtx r \<in> set allowed then snd (h r w) else w)"
  by (simp add: RequireRole_def)

lemma Auth_snd:
  "snd (Auth e h r w) = (case identity e w r of None \<Rightarrow> w | Some i \<Rightarrow> snd (h (with_identity i r) w))"
  by (cases "identity e w r") (simp_all add: Auth_refused_state Auth_allowed)

lemma public_quiet:
  "(pat, h) \<in> set (public_routes s) \<Longrightarrow> pat \<noteq> ''/api/oauth/callback'' \<Longrightarrow> same_accounts w (snd (h r w))"
  unfolding public_routes_def Let_def by (auto simp: quiet)

lemma static_quiet: "(pat, h) \<in> set (static_routes s) \<Longrightarrow> same_accounts w (snd (h r w))"
  unfolding static_routes_def Let_def by (auto simp: quiet)

text \<open>The routes behind the session middleware, with the roles and the handler.\<close>

definition any_role :: "string list" where
  "any_role = [''admin'', ''operator'', ''viewer'']"

definition guarded_routes :: "'f server \<Rightarrow> (string \<times> string list \<times> world handler) list" where
  "guarded_routes s =
     map (\<lambda>(p, h). (p, any_role, h)) (session_handlers s) @
     map (\<lambda>(p, h). (p, [''admin'', ''operator''], h)) (write_handlers s) @
     map (\<lambda>(p, h). (p, [''admin''], h)) (admin_handlers s)"

lemma Auth_any_role: "snd (Auth e h r w) = snd (Auth e (RequireRole any_role h) r w)"
proof (cases "identity e w r")
  case (Some i)
  then have "ValidRoles (snd i)" using identity_role [of e w r "fst i" "snd i"] by simp
  then have "snd i \<in> set any_role" by (simp only: ValidRoles_def any_role_def list.set)
  with Some show ?thesis by (simp add: Auth_snd RequireRole_snd)
qed (simp add: Auth_snd)

lemma guarded_route:
  assumes "(pat, h) \<in> set (wrap (Auth (sv_env s)) (session_handlers s) @
     wrap (writeMW (sv_env s)) (write_handlers s) @ wrap (adminMW (sv_env s)) (admin_handlers s))"
  obtains allowed g where "(pat, allowed, g) \<in> set (guarded_routes s)"
    "\<And>r w. snd (h r w) = snd (Auth (sv_env s) (RequireRole allowed g) r w)"
proof -
  consider g where "(pat, g) \<in> set (session_handlers s)" "h = Auth (sv_env s) g"
    | g where "(pat, g) \<in> set (write_handlers s)" "h = writeMW (sv_env s) g"
    | g where "(pat, g) \<in> set (admin_handlers s)" "h = adminMW (sv_env s) g"
    using assms by (auto simp: wrap_def)
  then show thesis
  proof cases
    case (1 g)
    then show ?thesis using that [of any_role g] Auth_any_role by (force simp: guarded_routes_def)
  next
    case (2 g)
    then show ?thesis using that [of "[''admin'', ''operator'']" g] by (force simp: guarded_routes_def writeMW_def)
  next
    case (3 g)
    then show ?thesis using that [of "[''admin'']" g] by (force simp: guarded_routes_def adminMW_def)
  qed
qed

text \<open>Every request does nothing to the accounts, is an OAuth callback, or runs a guarded handler.\<close>

lemma serve_effect:
  obtains (quiet) "same_accounts w (snd (serve s r w))"
  | (callback) b where "path r = ''/api/oauth/callback''"
      "snd (serve s r w) = snd (CallbackHandler (sv_oauth_env s) (sv_oauth s) (sv_env s) (skip_mark b r) w)"
  | (guarded) b pat allowed g em ro where "(pat, allowed, g) \<in> set (guarded_routes s)"
      "pat = path r \<or> (subtree pat \<and> has_prefix (path r) pat)"
      "identity (sv_env s) w r = Some (em, ro)" "ro \<in> set allowed"
      "snd (serve s r w) = snd (g (with_identity (em, ro) (skip_mark b r)) w)"
proof (cases rule: serve_cases [of s r w])
  case none
  then show ?thesis by (intro quiet) simp
next
  case (route b pat h)
  let ?g = "wrap (Auth (sv_env s)) (session_handlers s) @ wrap (writeMW (sv_env s)) (write_handlers s) @
      wrap (adminMW (sv_env s)) (admin_handlers s)"
  consider "(pat, h) \<in> set (static_routes s)"
    | "(pat, h) \<in> set (public_routes s)" "pat \<noteq> ''/api/oauth/callback''"
    | "(pat, h) \<in> set (public_routes s)" "pat = ''/api/oauth/callback''"
    | "(pat, h) \<in> set ?g"
    using route(1) unfolding setupRoutes_def by auto
  then show ?thesis
  proof cases
    case 1
    then show ?thesis by (intro quiet) (simp add: route(2) static_quiet)
  next
    case 2
    then show ?thesis by (intro quiet) (simp add: route(2) public_quiet)
  next
    case 3
    have "\<not> subtree ''/api/oauth/callback''" by code_simp
    with 3 route(3) have "path r = ''/api/oauth/callback''" by simp
    moreover have "h = CallbackHandler (sv_oauth_env s) (sv_oauth s) (sv_env s)"
      using 3 by (auto simp: public_routes_def Let_def)
    ultimately show ?thesis using route(2) callback by simp
  next
    case 4
    show ?thesis
    proof (rule guarded_route [OF 4])
      fix allowed g
      assume g: "(pat, allowed, g) \<in> set (guarded_routes s)"
        "\<And>r w. snd (h r w) = snd (Auth (sv_env s) (RequireRole allowed g) r w)"
    show ?thesis
    proof (cases "identity (sv_env s) w r")
      case None
      then show ?thesis by (intro quiet) (simp add: route(2) g(2) Auth_snd)
    next
      case (Some i)
      show ?thesis
      proof (cases "snd i \<in> set allowed")
        case True
        then show ?thesis
          using guarded [of pat allowed g "fst i" "snd i" b] route(2,3) g Some by (simp add: Auth_snd RequireRole_snd)
      next
        case False
        then show ?thesis using Some by (intro quiet) (simp add: route(2) g(2) Auth_snd RequireRole_snd)
      qed
    qed
    qed
  qed
qed

section \<open>Administrators under every operation\<close>

lemma admin_at_Add: "admin_at s k \<Longrightarrow> admin_at (fst (Add gen io u s)) k"
  by (auto simp: admin_at_def users_Add Let_def split: option.splits)

lemma admin_at_UpdatePassword: "admin_at (fst (UpdatePassword gen cmp io e old new s)) k = admin_at s k"
  by (auto simp: admin_at_def users_UpdatePassword split: option.splits)

lemma Role_profile_user [simp]: "Role (profile_user e n name av ph ssh u) = Role u"
  by (simp add: profile_user_def Let_def Role_def)

lemma users_UpdateProfile_cases:
  obtains (same) "users (fst (UpdateProfile io e n name av ph ssh s)) = users s"
  | (named) u where "users s (normalizeEmail e) = Some u"
      "users (fst (UpdateProfile io e n name av ph ssh s)) = (users s)(normalizeEmail e \<mapsto> u\<lparr>DisplayName := name\<rparr>)"
  | (moved) u where "users s (normalizeEmail e) = Some u"
      "new_email e n = normalizeEmail e \<or> users s (new_email e n) = None"
      "users (fst (UpdateProfile io e n name av ph ssh s)) =
         ((users s)(normalizeEmail e := None))(new_email e n \<mapsto> profile_user e n name av ph ssh u)"
proof (cases "users s (normalizeEmail e)")
  case None
  then show ?thesis by (intro same) (simp add: UpdateProfile_cases Let_def)
next
  case (Some u)
  show ?thesis
  proof (cases "looksLikeEmail (new_email e n) \<and> \<not> (new_email e n \<noteq> normalizeEmail e \<and> users s (new_email e n) \<noteq> None)")
    case False
    with Some show ?thesis by (intro same) (auto simp: UpdateProfile_cases Let_def)
  next
    case True
    show ?thesis
    proof (cases "profile_bad av ph")
      case True': True
      then show ?thesis using True Some by (intro named [OF Some]) (auto simp: UpdateProfile_cases Let_def)
    next
      case False
      then show ?thesis using True Some by (intro moved [OF Some]) (auto simp: UpdateProfile_cases Let_def)
    qed
  qed
qed

lemma has_admin_UpdateProfile:
  assumes "has_admin s"
  shows "has_admin (fst (UpdateProfile io e n name av ph ssh s))"
proof -
  obtain k where k: "admin_at s k" using assms by (auto simp: has_admin_def)
  show ?thesis
  proof (cases rule: users_UpdateProfile_cases [of io e n name av ph ssh s])
    case same
    with k show ?thesis by (auto simp: has_admin_def admin_at_def)
  next
    case (named u)
    with k have "admin_at (fst (UpdateProfile io e n name av ph ssh s)) k" by (auto simp: admin_at_def split: if_splits)
    then show ?thesis by (auto simp: has_admin_def)
  next
    case (moved u)
    have "admin_at (fst (UpdateProfile io e n name av ph ssh s)) (if k = normalizeEmail e then new_email e n else k)"
      using k moved by (auto simp: admin_at_def split: option.splits)
    then show ?thesis by (auto simp: has_admin_def)
  qed
qed

lemma has_admin_Add: "has_admin s \<Longrightarrow> has_admin (fst (Add gen io u s))"
  by (auto simp: has_admin_def intro: admin_at_Add)

lemma has_admin_UpdatePassword: "has_admin s \<Longrightarrow> has_admin (fst (UpdatePassword gen cmp io e old new s))"
  by (simp add: has_admin_def admin_at_UpdatePassword)

section \<open>What each guarded handler does\<close>

lemma profile_handler_cases:
  obtains (same) "snd (profile_handler e r w) = w"
  | (update) a b c d f where "UserRoleFromCtx r \<noteq> ''viewer''"
      "snd (profile_handler e r w) =
         w\<lparr>w_store := fst (UpdateProfile (e_save e) (UserEmailFromCtx r) a b c d f (w_store w))\<rparr>"
proof -
  have "snd (UpdateProfileHandler e r w) = w \<or>
      (\<exists>a b c d f. snd (UpdateProfileHandler e r w) =
         w\<lparr>w_store := fst (UpdateProfile (e_save e) (UserEmailFromCtx r) a b c d f (w_store w))\<rparr>)"
  proof (cases "req_method r = ''PATCH'' \<and> UserEmailFromCtx r \<noteq> [] \<and> decodeJSON profile_schema (body_of r) \<noteq> None")
    case True
    then obtain d where d: "decodeJSON profile_schema (body_of r) = Some d" by auto
    have "snd (UpdateProfileHandler e r w) =
        w\<lparr>w_store := fst (UpdateProfile (e_save e) (UserEmailFromCtx r) (trim_space (to_lower (str_field d [''email''])))
           (trim_space (str_field d [''display_name''])) (trim_space (str_field d [''avatar'']))
           (trim_space (str_field d [''photo_url''])) (trim_space (str_field d [''ssh_key''])) (w_store w))\<rparr>"
      using True d by (simp add: UpdateProfileHandler_def Let_def split: sum.split prod.split)
    then show ?thesis by (intro disjI2 exI)
  next
    case False
    then show ?thesis by (intro disjI1) (auto simp: UpdateProfileHandler_def Let_def)
  qed
  moreover have "snd (profile_handler e r w) = w \<or>
      (UserRoleFromCtx r \<noteq> ''viewer'' \<and> snd (profile_handler e r w) = snd (UpdateProfileHandler e r w))"
    by (simp add: profile_handler_def Profile_effect)
  ultimately show thesis using same update by metis
qed

lemma password_handler_cases:
  obtains (same) "snd (UpdatePasswordHandler e r w) = w"
  | (update) old new where
      "snd (UpdatePasswordHandler e r w) =
         w\<lparr>w_store := fst (UpdatePassword (e_gen e) (e_cmp e) (e_save e) (UserEmailFromCtx r) old new (w_store w))\<rparr>"
proof -
  have "snd (UpdatePasswordHandler e r w) = w \<or>
      (\<exists>old new. snd (UpdatePasswordHandler e r w) =
         w\<lparr>w_store := fst (UpdatePassword (e_gen e) (e_cmp e) (e_save e) (UserEmailFromCtx r) old new (w_store w))\<rparr>)"
    by (auto simp: UpdatePasswordHandler_def Let_def split: option.splits sum.splits if_splits)
  then show thesis using same update by auto
qed

lemma admin_users_cases:
  obtains (same) "snd (AdminUsers e r w) = w"
  | (added) u where "snd (AdminUsers e r w) = w\<lparr>w_store := fst (Add (e_gen e) (e_save e) u (w_store w))\<rparr>"
proof -
  have "snd (AdminUsers e r w) = w \<or>
      (\<exists>u. snd (AdminUsers e r w) = w\<lparr>w_store := fst (Add (e_gen e) (e_save e) u (w_store w))\<rparr>)"
    by (auto simp: AdminUsers_def adminListUsers_def adminCreateUser_def Let_def
        split: option.splits sum.splits if_splits)
  then show thesis using same added by auto
qed

lemma branding_handlers:
  "\<exists>b. snd (UpdateBranding e r w) = w\<lparr>w_branding := b\<rparr> \<and> (b = w_branding w \<or>
     (\<exists>x. b = fst (Update (e_branding_write e) (e_color_order e) x (w_branding w))))"
  "\<exists>b. snd (ResetBranding e r w) = w\<lparr>w_branding := b\<rparr> \<and> (b = w_branding w \<or>
     (\<exists>x. b = fst (Update (e_branding_write e) (e_color_order e) x (w_branding w))))"
  unfolding UpdateBranding_def ResetBranding_def Let_def
  by (auto split: option.split sum.split intro: exI [of _ "w_branding w"])

lemma xen_handlers:
  "snd (XenInfo xe r w) = w \<or> snd (XenInfo xe r w) = w\<lparr>w_xl := [client_bin (xe_client xe), ''info''] # w_xl w\<rparr>"
  "snd (Domains xe r w) = w \<or> snd (Domains xe r w) = w\<lparr>w_xl := [client_bin (xe_client xe), ''list''] # w_xl w\<rparr>"
  using run_xl_log [of "xe_runner xe" "xe_client xe" "[''info'']" "w_xl w"]
    run_xl_log [of "xe_runner xe" "xe_client xe" "[''list'']" "w_xl w"]
  by (auto simp: XenInfo_def Domains_def xl_Info_def xl_ListDomains_def split: prod.splits sum.splits)

lemma XenCreate_cases:
  obtains (same) "snd (XenCreate xe r w) = w"
  | (created) p where "UserRoleFromCtx r = ''admin''" "validConfigPath p"
      "snd (XenCreate xe r w) = w\<lparr>w_xl := [client_bin (xe_client xe), ''create'', p] # w_xl w\<rparr>"
proof -
  have "snd (XenCreate xe r w) = w \<or> (UserRoleFromCtx r = ''admin'' \<and>
      (\<exists>p dry. snd (XenCreate xe r w) = w\<lparr>w_xl := snd (xl_Create (xe_runner xe) (xe_client xe) p dry (w_xl w))\<rparr>))"
    by (auto simp: XenCreate_def Let_def split: option.splits prod.splits sum.splits if_splits)
       (metis snd_conv)+
  then show thesis using same created by (auto simp: xl_Create_log split: if_splits)
qed

lemma guarded_cases:
  assumes "(pat, allowed, g) \<in> set (guarded_routes s)"
  obtains (open_route) "allowed = any_role" "(pat, g) \<in> set (session_handlers s)"
  | (write_route) "allowed = [''admin'', ''operator'']" "(pat, g) \<in> set (write_handlers s)"
  | (admin_route) "allowed = [''admin'']" "(pat, g) \<in> set (admin_handlers s)"
  using assms by (auto simp: guarded_routes_def)

lemma session_handler_cases:
  assumes "(pat, g) \<in> set (session_handlers s)"
  obtains (reading) "\<And>r w. same_accounts w (snd (g r w))" | (xen_info) "g = XenInfo (sv_xen s)" | (xen_list) "g = Domains (sv_xen s)"
  | (profile) "g = profile_handler (sv_env s)"
  using assms by (auto simp: session_handlers_def Let_def quiet)

lemma write_handler_cases:
  assumes "(pat, g) \<in> set (write_handlers s)"
  obtains (xen_action) "g = DomainAction (sv_xen s)" | (password) "g = UpdatePasswordHandler (sv_env s)"
  using assms by (auto simp: write_handlers_def)

lemma admin_handler_cases:
  assumes "(pat, g) \<in> set (admin_handlers s)"
  obtains (xen_create) "g = XenCreate (sv_xen s)" | (branding_update) "g = UpdateBranding (sv_env s)"
  | (branding_reset) "g = ResetBranding (sv_env s)" | (users) "g = AdminUsers (sv_env s)"
  | (user) "g = AdminUserByEmail (sv_env s)"
  using assms by (auto simp: admin_handlers_def Let_def)

lemma DomainAction_store:
  "w_store (snd (DomainAction xe r w)) = w_store w" "w_branding (snd (DomainAction xe r w)) = w_branding w"
  by (auto simp: DomainAction_log split: option.splits)

section \<open>A concrete server for the witnesses\<close>

definition demo_xen :: "json xen_env" where
  "demo_xen = \<lparr>xe_runner = (\<lambda>_. ([], RunOk)), xe_client = \<lparr>Bin = ''xl''\<rparr>, xe_dom0 = Some True, xe_pf = JStr, xe_float = id\<rparr>"

definition demo_broker_api :: broker_api where
  "demo_broker_api =
     \<lparr>api_stream = (\<lambda>_. not_found), api_system = (\<lambda>_. not_found), api_versions = (\<lambda>_ c. (not_found, c, [])),
      api_reboots = (\<lambda>_. (not_found, [])), api_bios = (\<lambda>_. not_found), api_modules = (\<lambda>_. not_found),
      api_gpus = (\<lambda>_. not_found), api_packages = (\<lambda>_. not_found), api_services = (\<lambda>_. not_found),
      api_security = (\<lambda>_. not_found), api_logs = (\<lambda>_. not_found), api_logs_tail = (\<lambda>_. not_found)\<rparr>"

definition demo_assets :: assets where
  "demo_assets = \<lparr>as_stat = (\<lambda>_. None), as_serve = (\<lambda>_. not_found), as_serve_sub = (\<lambda>_ _. not_found),
     as_index = Some ''<html></html>'', as_subdirs = [''css'']\<rparr>"

definition demo_server :: "claims \<Rightarrow> json server" where
  "demo_server c =
     \<lparr>sv_env = demo_env c, sv_oauth = demo_oauth, sv_oauth_env = demo_oauth_env, sv_xen = demo_xen,
      sv_broker = demo_broker_api, sv_assets = demo_assets, sv_assets_dir = [], sv_csrf = toy_manager,
      sv_trusted = [], sv_https = True, sv_alt_svc = None\<rparr>"

lemma demo_server_env [simp]: "sv_env (demo_server c) = demo_env c" "sv_xen (demo_server c) = demo_xen"
  by (simp_all add: demo_server_def)

section \<open>Properties\<close>

text \<open>
  C6. Without a session nothing can be changed: a request that the session middleware does not identify, to any path
  but the OAuth callback, leaves the users, the branding and the log of \<open>xl\<close> commands as they were, whatever its method, headers and body.
\<close>

theorem anonymous_changes_nothing:
  assumes "identity (sv_env s) w r = None" and "path r \<noteq> ''/api/oauth/callback''"
  shows "w_store (snd (serve s r w)) = w_store w \<and> w_branding (snd (serve s r w)) = w_branding w \<and>
    w_xl (snd (serve s r w)) = w_xl w"
  using assms by (cases rule: serve_effect [where s = s and r = r and w = w]) (auto simp: same_accounts_def)

theorem anonymous_changes_nothing_witness:
  "w_store (snd (serve (demo_server (demo_claims ''bob@x.io'' ''viewer'')) (base_request ''DELETE'' ''/api/admin/users/bob@x.io'') demo_world)) = demo_store"
proof -
  have "identity (sv_env (demo_server (demo_claims ''bob@x.io'' ''viewer''))) demo_world (base_request ''DELETE'' ''/api/admin/users/bob@x.io'') = None"
    "path (base_request ''DELETE'' ''/api/admin/users/bob@x.io'') \<noteq> ''/api/oauth/callback''"
    by (simp_all add: identity_def FromRequest_def cookie_def base_request_def)
  from anonymous_changes_nothing [OF this] show ?thesis by (simp add: demo_world_def)
qed

text \<open>
  C4. A viewer can only look: whatever a session of a viewer requests, apart from the OAuth callback, the users and the branding
  stay as they were, and at most \<open>xl list\<close> or \<open>xl info\<close> is run.
\<close>

theorem viewer_reads_only:
  assumes "identity (sv_env s) w r = Some (em, ''viewer'')" and "path r \<noteq> ''/api/oauth/callback''"
  shows "w_store (snd (serve s r w)) = w_store w \<and> w_branding (snd (serve s r w)) = w_branding w \<and>
    w_xl (snd (serve s r w)) \<in> {w_xl w, [client_bin (xe_client (sv_xen s)), ''list''] # w_xl w,
      [client_bin (xe_client (sv_xen s)), ''info''] # w_xl w}"
proof (cases rule: serve_effect [where s = s and r = r and w = w])
  case (guarded b pat allowed g em' ro)
  then have ro: "ro = ''viewer''" using assms(1) by simp
  let ?r = "with_identity (em', ro) (skip_mark b r)"
  have "(pat, g) \<in> set (session_handlers s)"
    using guarded(1,4) ro by (cases rule: guarded_cases [OF guarded(1)]) auto
  then show ?thesis
  proof (cases rule: session_handler_cases)
    case reading
    from reading [of w ?r] show ?thesis by (simp add: guarded(5) same_accounts_def)
  next
    case xen_info
    then show ?thesis using xen_handlers(1) [of "sv_xen s" ?r w] by (auto simp: guarded(5))
  next
    case xen_list
    then show ?thesis using xen_handlers(2) [of "sv_xen s" ?r w] by (auto simp: guarded(5))
  next
    case profile
    show ?thesis
      by (cases rule: profile_handler_cases [of "sv_env s" ?r w]) (auto simp: guarded(5) profile ro)
  qed
qed (use assms in \<open>auto simp: same_accounts_def\<close>)

lemma bob_session:
  "identity (sv_env (demo_server (demo_claims ''bob@x.io'' ''admin''))) demo_world
     (with_token (base_request m p)) = Some (''bob@x.io'', ''viewer'')"
proof -
  have "Role bob = ''viewer''" by code_simp
  then show ?thesis using demo_identity [of demo_world "''bob@x.io''" bob] by (simp add: demo_world_def demo_store_def)
qed

theorem viewer_reads_only_witness:
  "w_xl (snd (serve (demo_server (demo_claims ''bob@x.io'' ''admin''))
      (with_token (base_request ''GET'' ''/api/xen/domains'')) demo_world)) \<in> {[], [[''xl'', ''list'']], [[''xl'', ''info'']]}"
proof -
  have "path (with_token (base_request ''GET'' ''/api/xen/domains'')) \<noteq> ''/api/oauth/callback''"
    by (simp add: with_token_def base_request_def)
  from viewer_reads_only [OF bob_session this] show ?thesis
    by (simp add: demo_xen_def client_bin_def demo_world_def)
qed

text \<open>
  C9. A user who is not an administrator can change no account but the own one: every other user's record, password and
  role included, and the branding are the same after any request of such a session but one to the OAuth callback, which signs in whoever the
  provider vouches for.
\<close>

theorem own_account_only:
  assumes "identity (sv_env s) w r = Some (em, ro)" and "ro \<noteq> ''admin''" and "path r \<noteq> ''/api/oauth/callback''"
    and "store_inv (w_store w)" and "users (w_store w) k = Some u" and "k \<noteq> em"
  shows "users (w_store (snd (serve s r w))) k = Some u \<and> w_branding (snd (serve s r w)) = w_branding w"
proof (cases rule: serve_effect [where s = s and r = r and w = w])
  case (guarded b pat allowed g em' ro')
  then have i: "em' = em" "ro' = ro" using assms(1) by simp_all
  have em: "normalizeEmail em = em" using identity_stored [OF assms(1,4)] by blast
  let ?r = "with_identity (em, ro) (skip_mark b r)"
  have profile: "users (w_store (snd (profile_handler (sv_env s) ?r w))) k = Some u \<and>
      w_branding (snd (profile_handler (sv_env s) ?r w)) = w_branding w"
  proof (cases rule: profile_handler_cases [of "sv_env s" ?r w])
    case (update a b c d f)
    show ?thesis
      using assms(5,6) em update(2)
      by (cases rule: users_UpdateProfile_cases [of "e_save (sv_env s)" em a b c d f "w_store w"]) auto
  qed (use assms(5) in auto)
  have password: "users (w_store (snd (UpdatePasswordHandler (sv_env s) ?r w))) k = Some u \<and>
      w_branding (snd (UpdatePasswordHandler (sv_env s) ?r w)) = w_branding w"
    using assms(5,6) em
    by (cases rule: password_handler_cases [of "sv_env s" ?r w]) (auto simp: users_UpdatePassword split: option.splits)
  from guarded(1) show ?thesis
  proof (cases rule: guarded_cases)
    case 1: open_route
    show ?thesis
      using profile assms(5) xen_handlers [of "sv_xen s" ?r w]
      by (cases rule: session_handler_cases [OF 1(2)]) (auto simp: guarded(5) i same_accounts_def)
  next
    case 2: write_route
    show ?thesis
      using password assms(5) by (cases rule: write_handler_cases [OF 2(2)]) (auto simp: guarded(5) i DomainAction_store)
  next
    case admin_route
    with guarded(4) i assms(2) show ?thesis by simp
  qed
qed (use assms in \<open>auto simp: same_accounts_def\<close>)

theorem own_account_only_witness:
  "users (w_store (snd (serve (demo_server (demo_claims ''bob@x.io'' ''admin''))
      (with_token (base_request ''PATCH'' ''/api/admin/users/ann@x.io'')) demo_world))) ''ann@x.io'' = Some ann"
proof -
  have "path (with_token (base_request ''PATCH'' ''/api/admin/users/ann@x.io'')) \<noteq> ''/api/oauth/callback''"
    by (simp add: with_token_def base_request_def)
  moreover have "store_inv (w_store demo_world)" "users (w_store demo_world) ''ann@x.io'' = Some ann"
    by (simp add: demo_world_def demo_inv, simp add: demo_world_def demo_store_def)
  ultimately show ?thesis
    using own_account_only [OF bob_session, of _ _ "''ann@x.io''" ann] by simp
qed

end
