(* ===== verification/ServerRun.thy ===== *)
theory ServerRun
  imports ServerAccess
begin

text \<open>
  Runs of the whole server from its first start: the invariants of users and branding that hold after
  any sequence of requests, and the fate of requests from other sites.
\<close>

section \<open>The invariant\<close>

definition server_ok :: "(string \<Rightarrow> string option) \<Rightarrow> world \<Rightarrow> bool" where
  "server_ok gen w \<longleftrightarrow>
     store_inv (w_store w) \<and> hashed gen (w_store w) \<and> has_admin (w_store w) \<and>
     colors_ok (current (w_branding w)) \<and> logo_ok (current (w_branding w))"

lemma server_ok_same: "same_accounts w w' \<Longrightarrow> server_ok gen w \<Longrightarrow> server_ok gen w'"
  by (simp add: same_accounts_def server_ok_def)

lemma server_ok_store:
  "server_ok gen w \<Longrightarrow> w_branding w' = w_branding w \<Longrightarrow> store_inv (w_store w') \<Longrightarrow> hashed gen (w_store w') \<Longrightarrow>
     has_admin (w_store w') \<Longrightarrow> server_ok gen w'"
  by (simp add: server_ok_def)

lemma server_ok_xl [simp]: "server_ok gen (w\<lparr>w_xl := log\<rparr>) = server_ok gen w"
  by (simp add: server_ok_def)

lemma server_ok_Add: "server_ok gen w \<Longrightarrow> server_ok gen (w\<lparr>w_store := fst (Add gen io u (w_store w))\<rparr>)"
  by (simp add: server_ok_def store_inv_Add hashed_Add has_admin_Add)

lemma server_ok_profile:
  "server_ok gen w \<Longrightarrow> server_ok gen (w\<lparr>w_store := fst (UpdateProfile io e n a b c d (w_store w))\<rparr>)"
  by (simp add: server_ok_def store_inv_UpdateProfile hashed_UpdateProfile has_admin_UpdateProfile)

lemma server_ok_password:
  "server_ok gen w \<Longrightarrow> server_ok gen (w\<lparr>w_store := fst (UpdatePassword gen cmp io e old new (w_store w))\<rparr>)"
  by (simp add: server_ok_def store_inv_UpdatePassword hashed_UpdatePassword has_admin_UpdatePassword)

lemma server_ok_branding:
  assumes "server_ok gen w" and "set order = set color_names"
    and "b = w_branding w \<or> (\<exists>x. b = fst (Update ok order x (w_branding w)))"
  shows "server_ok gen (w\<lparr>w_branding := b\<rparr>)"
  using assms update_keeps [OF assms(2)] by (auto simp: server_ok_def)

lemma server_ok_admin:
  assumes "server_ok (e_gen e) w" and "identity e w r = Some (em, ''admin'')"
  shows "server_ok (e_gen e) (snd (AdminUserByEmail e (with_identity (em, ''admin'') (skip_mark b r)) w))"
proof -
  let ?r = "with_identity (em, ''admin'') (skip_mark b r)"
  have a: "admin_at (w_store w) em" "normalizeEmail em = em"
    using identity_admin [OF assms(2)] assms(1) by (simp_all add: server_ok_def)
  have "admin_at (w_store (snd (AdminUserByEmail e ?r w))) em"
    by (rule admin_kept [OF a(1) _ a(2)]) simp
  moreover have "w_branding (snd (AdminUserByEmail e ?r w)) = w_branding w"
    by (cases rule: AdminUserByEmail_cases [of e ?r w]) simp_all
  ultimately show ?thesis
    using assms(1) AdminUserByEmail_effect [of e w ?r] store_effect_inv store_effect_hashed
    by (intro server_ok_store [OF assms(1)]) (auto simp: server_ok_def has_admin_def)
qed

lemma server_ok_callback:
  assumes "server_ok (e_gen e) w"
  shows "server_ok (e_gen e) (snd (CallbackHandler oe os e r w))"
proof (cases rule: CallbackHandler_cases [of oe os e r w])
  case (finished conf token email0)
  let ?f = "snd (oauth_finish os e (normalizeEmail email0) r w)"
  have b: "w_branding ?f = w_branding w"
    by (auto simp: oauth_finish_def Let_def split: sum.splits)
  show ?thesis
    using oauth_finish_store [of os e "normalizeEmail email0" r w] assms finished(9) b
    by (auto simp: server_ok_def store_inv_Add hashed_Add has_admin_Add)
qed (use assms in simp)

lemma server_ok_serve:
  assumes "server_ok (e_gen (sv_env s)) w" and "set (e_color_order (sv_env s)) = set color_names"
  shows "server_ok (e_gen (sv_env s)) (snd (serve s r w))"
proof (cases rule: serve_effect [where s = s and r = r and w = w])
  case quiet
  then show ?thesis using assms(1) by (rule server_ok_same)
next
  case (callback b)
  then show ?thesis using server_ok_callback [OF assms(1)] by simp
next
  case (guarded b pat allowed g em ro)
  let ?r = "with_identity (em, ro) (skip_mark b r)"
  from guarded(1) show ?thesis
  proof (cases rule: guarded_cases)
    case open_route
    from open_route(2) show ?thesis
    proof (cases rule: session_handler_cases)
      case reading
      from server_ok_same [OF reading assms(1)] show ?thesis by (simp add: guarded(5))
    next
      case profile
      then show ?thesis
        using assms(1) server_ok_profile
        by (cases rule: profile_handler_cases [of "sv_env s" ?r w]) (simp_all add: guarded(5))
    qed (use assms(1) xen_handlers [of "sv_xen s" ?r w] in \<open>auto simp: guarded(5)\<close>)
  next
    case write_route
    from write_route(2) show ?thesis
    proof (cases rule: write_handler_cases)
      case xen_action
      then show ?thesis using assms(1) by (auto simp: guarded(5) DomainAction_log split: option.split)
    next
      case password
      then show ?thesis
        using assms(1) server_ok_password
        by (cases rule: password_handler_cases [of "sv_env s" ?r w]) (simp_all add: guarded(5))
    qed
  next
    case admin_route
    then have ro: "ro = ''admin''" using guarded(4) by simp
    from admin_route(2) show ?thesis
    proof (cases rule: admin_handler_cases)
      case xen_create
      then show ?thesis
        using assms(1) by (cases rule: XenCreate_cases [of "sv_xen s" ?r w]) (simp_all add: guarded(5))
    next
      case branding_update
      obtain bb where "snd (g ?r w) = w\<lparr>w_branding := bb\<rparr>" "bb = w_branding w \<or>
          (\<exists>x. bb = fst (Update (e_branding_write (sv_env s)) (e_color_order (sv_env s)) x (w_branding w)))"
        using branding_handlers(1) [of "sv_env s" ?r w] branding_update by blast
      with server_ok_branding [OF assms] show ?thesis by (simp only: guarded(5))
    next
      case branding_reset
      obtain bb where "snd (g ?r w) = w\<lparr>w_branding := bb\<rparr>" "bb = w_branding w \<or>
          (\<exists>x. bb = fst (Update (e_branding_write (sv_env s)) (e_color_order (sv_env s)) x (w_branding w)))"
        using branding_handlers(2) [of "sv_env s" ?r w] branding_reset by blast
      with server_ok_branding [OF assms] show ?thesis by (simp only: guarded(5))
    next
      case users
      then show ?thesis
        using assms(1) server_ok_Add
        by (cases rule: admin_users_cases [of "sv_env s" ?r w]) (simp_all add: guarded(5))
    next
      case user
      then show ?thesis using server_ok_admin [OF assms(1)] guarded(3) ro by (simp add: guarded(5))
    qed
  qed
qed

lemma server_ok_serve_all:
  "server_ok gen w \<Longrightarrow>
   \<forall>(s, r) \<in> set reqs. e_gen (sv_env s) = gen \<and> set (e_color_order (sv_env s)) = set color_names \<Longrightarrow>
     server_ok gen (serve_all reqs w)"
proof (induction reqs arbitrary: w)
  case (Cons p reqs)
  then show ?case using server_ok_serve by (cases p) (auto simp: serve_all_def)
qed (simp add: serve_all_def)

section \<open>The first start\<close>

lemma seedAdmin_ok:
  assumes "seedAdmin gen io pw now False s = (s', Inr ())" and "users s = Map.empty" and "pw = [] \<or> 8 \<le> length pw"
  shows "store_inv s' \<and> hashed gen s' \<and> has_admin s'"
proof -
  obtain h where h: "gen (if pw = [] then defaultAdminPassword else pw) = Some h"
    using assms(1) by (auto simp: seedAdmin_def Let_def split: option.splits)
  have l: "8 \<le> length (if pw = [] then defaultAdminPassword else pw)"
    using assms(3) by (auto simp: defaultAdminPassword_def)
  have u: "users s' = [DefaultAdminEmail \<mapsto> \<lparr>ID = DefaultAdminEmail, Email = DefaultAdminEmail, Password = h,
      Roles = [''admin''], DisplayName = ''UnyPort Admin'', Avatar = [], PhotoURL = [], SSHKey = [], TwoFA = False,
      CreatedAt = now\<rparr>]"
    using assms(1,2) h saveLocked_ok by (fastforce simp: seedAdmin_def Let_def)
  have "Role (\<lparr>ID = DefaultAdminEmail, Email = DefaultAdminEmail, Password = h,
      Roles = [''admin''], DisplayName = ''UnyPort Admin'', Avatar = [], PhotoURL = [], SSHKey = [], TwoFA = False,
      CreatedAt = now\<rparr>) = ''admin''"
    by (simp add: Role_def ValidRoles_fixed [of "''admin''"] ValidRoles_def)
  then have "has_admin s'" by (auto simp: has_admin_def admin_at_def u)
  moreover have "store_inv s'" by (auto simp: store_inv_def map_inv_def u split: if_splits)
  moreover have "hashed gen s'" using h l by (auto simp: hashed_def u)
  ultimately show ?thesis by blast
qed

lemma New_ok:
  assumes "New cfg st su = Inr (s, w, li)" and "su_users_file su = Missing" and "su_branding_file su = NoBrandingFile"
    and "su_admin_password su = [] \<or> 8 \<le> length (su_admin_password su)"
  shows "server_ok (e_gen (su_env su)) w"
proof -
  obtain store where store: "NewUserStore (e_gen (su_env su)) (e_save (su_env su)) (su_admin_password su)
      (e_now (su_env su)) (su_users_order su) (su_users_file su) = (store, Inr ())" "w_store w = store"
    "w_branding w = fst (NewBrandingStore NoBrandingFile)"
    using assms(1,3) by (auto simp: New_def Let_def split: sum.splits prod.splits option.splits)
  have "store_inv store \<and> hashed (e_gen (su_env su)) store \<and> has_admin store"
  proof (rule seedAdmin_ok [OF _ _ assms(4)])
    show "seedAdmin (e_gen (su_env su)) (e_save (su_env su)) (su_admin_password su) (e_now (su_env su)) False
        \<lparr>users = Map.empty, disk = Missing\<rparr> = (store, Inr ())"
      using store(1) assms(2) by (simp add: NewUserStore_def load_def)
  qed simp
  then show ?thesis
    using store(2,3) default_branding_ok by (simp add: server_ok_def NewBrandingStore_def)
qed

section \<open>Origins\<close>

definition hostless :: "string \<Rightarrow> bool" where
  "hostless o0 \<longleftrightarrow> (case url_parse o0 of None \<Rightarrow> True | Some (s, h) \<Rightarrow> h = [])"

lemma no_slash_hostless: "CHR ''/'' \<notin> set o0 \<Longrightarrow> hostless o0"
  using url_parse_host(2) by (auto simp: hostless_def split: option.split)

lemma normalize_hostless: "h \<in> set (normalize_from seen os) \<Longrightarrow> hostless h"
proof (induction os arbitrary: seen)
  case (Cons o0 rest)
  define orig where "orig = trim_space o0"
  define hh where "hh = (case url_parse orig of Some (s, h) \<Rightarrow> if h \<noteq> [] then h else orig | None \<Rightarrow> orig)"
  have hh: "hostless hh"
  proof (cases "\<exists>s h. url_parse orig = Some (s, h) \<and> h \<noteq> []")
    case True
    then obtain s h where u: "url_parse orig = Some (s, h)" "h \<noteq> []" by blast
    then have "hh = h" by (simp add: hh_def)
    with no_slash_hostless [OF url_parse_host(1) [OF u]] show ?thesis by simp
  next
    case False
    then have "hh = orig" by (auto simp: hh_def split: option.split)
    with False show ?thesis by (auto simp: hostless_def split: option.split)
  qed
  show ?case
    using Cons hh unfolding normalize_from.simps Let_def orig_def [symmetric] hh_def [symmetric]
    by (auto split: if_splits)
qed simp

lemma originSet_hostless: "\<forall>h \<in> set os. hostless h \<Longrightarrow> originSet os = {}"
  by (induction os) (auto simp: originSet_def hostless_def List.map_filter_simps split: option.splits)

lemma default_origins_hostless:
  assumes "CHR ''/'' \<notin> set port"
  shows "\<forall>h \<in> set (defaultTrustedOrigins ifs port). hostless h"
proof -
  let ?f = "\<lambda>h out. let orig = JoinHostPort h port in if orig \<in> set out then out else orig # out"
  have j: "CHR ''/'' \<notin> set (JoinHostPort a port)" if "CHR ''/'' \<notin> set a" for a
    using that assms by (simp add: JoinHostPort_def)
  have "\<forall>h \<in> set (fold ?f hs out). CHR ''/'' \<notin> set h"
    if "\<forall>a \<in> set hs. CHR ''/'' \<notin> set a" "\<forall>h \<in> set out. CHR ''/'' \<notin> set h" for hs out
    using that
  proof (induction hs arbitrary: out)
    case (Cons a hs)
    have "\<forall>h \<in> set (?f a out). CHR ''/'' \<notin> set h" using Cons.prems j by (simp add: Let_def)
    with Cons.IH [of "?f a out"] Cons.prems(1) show ?case by simp
  qed simp
  from this [of "[''localhost'', ''127.0.0.1'', ''::1''] @ host_addrs ifs" "[]"] host_addrs_no_slash [of ifs]
  have "\<forall>h \<in> set (defaultTrustedOrigins ifs port). CHR ''/'' \<notin> set h"
    unfolding defaultTrustedOrigins_def by (simp add: Let_def no_slash_def)
  then show ?thesis using no_slash_hostless by blast
qed

lemma trusted_hostless:
  assumes "CHR ''/'' \<notin> set port"
  shows "originSet (trusted_origins st ifs port) = {}"
proof -
  have "\<forall>h \<in> set (trusted_origins st ifs port). hostless h"
    using default_origins_hostless [OF assms] normalize_hostless [where seen = "[]"]
    unfolding trusted_origins_def normalizeTrustedOrigins_def Let_def by (simp split: if_split)
  then show ?thesis by (rule originSet_hostless)
qed

lemma serve_403:
  "\<not> validOrigin r (originSet (sv_trusted s)) (sv_https s) \<Longrightarrow>
     status (fst (serve s r w)) = 403 \<and> snd (serve s r w) = w"
proof -
  assume v: "\<not> validOrigin r (originSet (sv_trusted s)) (sv_https s)"
  have m: "validOrigin (skip_mark b r) t h = validOrigin r t h" for b t h
  proof -
    have hd: "header (skip_mark b r) k = header r k" for k by (simp add: header_def)
    have "requestScheme (skip_mark b r) h = requestScheme r h" by (simp add: requestScheme_def hd)
    then show ?thesis by (simp only: validOrigin_def hd skip_mark_simps)
  qed
  have p: "status (preset k x rs) = status rs" for k x rs by (simp add: preset_def)
  have c: "CSRFBypass (CSRFProtect (e_hmac (sv_env s)) (sv_csrf s) (sv_trusted s) (sv_https s) (serve_mux (setupRoutes s))) r w =
      (writeCSRFError 403 ''csrf_origin_forbidden'', w)"
    using v by (simp add: CSRFBypass_mark CSRFProtect_def m)
  show ?thesis unfolding serve_def Let_def Secure_def c by (simp add: p writeCSRFError_def split: option.split)
qed

section \<open>A concrete first start\<close>

definition demo_settings :: "string list \<Rightarrow> settings" where
  "demo_settings os = zero_settings\<lparr>Security2 := (Security2 zero_settings)\<lparr>TrustedOrigins := os\<rparr>, Security := \<lparr>
     CSRFSecret = ''YWFhYWFhYWFhYWFhYWFhYWFhYWFhYWFhYWFhYWFhYWE='',
     JWTSecret = ''YWFhYWFhYWFhYWFhYWFhYWFhYWFhYWFhYWFhYWFhYWFh''\<rparr>\<rparr>"

definition demo_startup :: "string \<Rightarrow> json startup" where
  "demo_startup email =
     \<lparr>su_port = [], su_assets = [], su_admin_password = [], su_users_file = Missing, su_users_order = [],
      su_branding_file = NoBrandingFile, su_ifaces = None, su_cert_ok = False,
      su_env = (demo_env (demo_claims email ''admin''))\<lparr>e_color_order := color_names\<rparr>,
      su_oauth_env = demo_oauth_env, su_xen = demo_xen, su_broker = demo_broker_api, su_files = demo_assets\<rparr>"

definition demo_services :: "string list \<Rightarrow> string \<Rightarrow> json server \<times> world \<times> listener" where
  "demo_services os email = projr (New [] (demo_settings os) (demo_startup email))"

lemma demo_New_any:
  assumes "Security st = Security (demo_settings [])"
  shows "\<exists>x. New [] st (demo_startup email) = Inr x"
proof -
  have secrets: "b64_decode StdAlphabet True (JWTSecret (Security st)) = Some (replicate 33 CHR ''a'')"
    "b64_decode StdAlphabet True (CSRFSecret (Security st)) = Some (replicate 32 CHR ''a'')"
    unfolding assms by (simp_all add: demo_settings_def) code_simp+
  have j: "JWTSecret (Security st) \<noteq> []" by (simp add: assms demo_settings_def)
  have p: "http_port [] = Some 8800" by (simp add: http_port_def)
  have g: "\<exists>h. toy_gen defaultAdminPassword = Some h" by (simp add: toy_gen_def defaultAdminPassword_def)
  then obtain h where h: "toy_gen defaultAdminPassword = Some h" ..
  show ?thesis
    by (simp add: New_def NewJWTServiceWithOpts_def j secrets demo_startup_def demo_env_def NewUserStore_def load_def
        seedAdmin_def h Let_def NewBrandingStore_def p new_csrf_manager_def)
qed

lemma demo_New: "New [] (demo_settings os) (demo_startup email) = Inr (demo_services os email)"
  using demo_New_any [of "demo_settings os" email] by (auto simp: demo_services_def demo_settings_def)

lemma demo_serve_env:
  "sv_env (fst (demo_services os email)) = (su_env (demo_startup email))\<lparr>e_jwt := e_jwt (sv_env (fst (demo_services os email))),
      e_mailer := e_mailer (sv_env (fst (demo_services os email)))\<rparr>"
proof -
  have "New [] (demo_settings os) (demo_startup email) = Inr (s, w, li) \<Longrightarrow>
      sv_env s = (su_env (demo_startup email))\<lparr>e_jwt := e_jwt (sv_env s), e_mailer := e_mailer (sv_env s)\<rparr>" for s w li
    by (auto simp: New_def Let_def split: sum.splits prod.splits option.splits)
  from this [of "fst (demo_services os email)" "fst (snd (demo_services os email))" "snd (snd (demo_services os email))"]
  show ?thesis using demo_New [of os email] by simp
qed

section \<open>Properties\<close>

text \<open>
  C2. From its first start on, whatever requests the server handles one after the other, there is always an
  administrator, every user is filed under its normalised email, every stored password is empty or the
  hash of at least eight bytes, and the public branding is safe to inject.
\<close>

theorem server_invariant:
  assumes "New cfg st su = Inr (s0, w0, li)" and "su_users_file su = Missing" and "su_branding_file su = NoBrandingFile"
    and "su_admin_password su = [] \<or> 8 \<le> length (su_admin_password su)"
    and "\<forall>(s, r) \<in> set reqs. e_gen (sv_env s) = e_gen (su_env su) \<and> set (e_color_order (sv_env s)) = set color_names"
  shows "has_admin (w_store (serve_all reqs w0)) \<and> store_inv (w_store (serve_all reqs w0)) \<and>
    hashed (e_gen (su_env su)) (w_store (serve_all reqs w0)) \<and>
    colors_ok (current (w_branding (serve_all reqs w0))) \<and> logo_ok (current (w_branding (serve_all reqs w0)))"
  using server_ok_serve_all [OF New_ok [OF assms(1-4)] assms(5)] by (simp add: server_ok_def)

theorem server_invariant_witness:
  "has_admin (w_store (serve_all
     [(fst (demo_services [] DefaultAdminEmail), with_token (base_request ''DELETE'' (''/api/admin/users/'' @ DefaultAdminEmail))),
      (fst (demo_services [] DefaultAdminEmail), login_request DefaultAdminEmail defaultAdminPassword)]
     (fst (snd (demo_services [] DefaultAdminEmail)))))"
proof -
  let ?d = "demo_services [] DefaultAdminEmail"
  have n: "New [] (demo_settings []) (demo_startup DefaultAdminEmail) = Inr (fst ?d, fst (snd ?d), snd (snd ?d))"
    by (simp add: demo_New)
  have e: "e_gen (sv_env (fst ?d)) = e_gen (su_env (demo_startup DefaultAdminEmail))"
    "e_color_order (sv_env (fst ?d)) = color_names"
    by (subst demo_serve_env, simp add: demo_startup_def)+
  show ?thesis
    using server_invariant [OF n, of "[(fst ?d, with_token (base_request ''DELETE'' (''/api/admin/users/'' @ DefaultAdminEmail))),
      (fst ?d, login_request DefaultAdminEmail defaultAdminPassword)]"] e
    by (simp add: demo_startup_def)
qed

text \<open>
  C21. The trusted origins of the configuration have no effect: whatever list is configured, a request that can change
  something and names a foreign origin, one that differs in scheme or host from the request's own, is answered 403 without effect on every
  path, the ones that bypass the token included. The list is stripped of its schemes before it is looked up with them.
\<close>

theorem configured_origins_ignored:
  assumes "New cfg st su = Inr (s, w0, li)" and "\<not> isSafeMethod (req_method r)" and "header r ''Origin'' \<noteq> []"
    and "url_parse (header r ''Origin'') \<noteq> Some (requestScheme r (sv_https s), host r)"
  shows "status (fst (serve s r w)) = 403 \<and> snd (serve s r w) = w"
proof (rule serve_403)
  obtain port where port: "http_port (su_port su) = Some port" "sv_trusted s = trusted_origins st (su_ifaces su) (itoa port)"
    using assms(1) by (auto simp: New_def Let_def split: sum.splits prod.splits option.splits)
  have "CHR ''/'' \<notin> set (itoa port)" using no_slash_itoa [of port] by (simp add: no_slash_def)
  then have "originSet (sv_trusted s) = {}" using trusted_hostless port(2) by simp
  then show "\<not> validOrigin r (originSet (sv_trusted s)) (sv_https s)"
    using assms(2-4) by (auto simp: validOrigin_def Let_def split: option.split)
qed

theorem configured_origins_ignored_witness:
  "status (fst (serve (fst (demo_services [''https://portal.example.org''] ''ann@x.io''))
     ((base_request ''POST'' ''/api/login'')\<lparr>headers := [(''Origin'', ''https://portal.example.org'')]\<rparr>) demo_world)) = 403"
proof -
  let ?d = "demo_services [''https://portal.example.org''] ''ann@x.io''"
  let ?r = "(base_request ''POST'' ''/api/login'')\<lparr>headers := [(''Origin'', ''https://portal.example.org'')]\<rparr>"
  have n: "New [] (demo_settings [''https://portal.example.org'']) (demo_startup ''ann@x.io'') = Inr (fst ?d, fst (snd ?d), snd (snd ?d))"
    by (simp add: demo_New)
  have r: "\<not> isSafeMethod (req_method ?r)" "header ?r ''Origin'' = ''https://portal.example.org''" "host ?r = ''unyport.test''"
    by (simp_all add: isSafeMethod_def base_request_def header_def)
  have u: "url_parse ''https://portal.example.org'' = Some (''https'', ''portal.example.org'')" by code_simp
  show ?thesis
    using configured_origins_ignored [OF n r(1), of demo_world] by (simp add: r(2,3) u)
qed

end
