(* ===== verification/Machine.thy ===== *)
theory Machine
  imports GoPrelude
begin

text \<open>
  What the collectors of \<open>sse\<close> see of the machine: the functions of the packages \<open>os\<close>,
  \<open>path/filepath\<close>, \<open>net\<close> and \<open>os/exec\<close> they call, each as a function of a path or a command line.
  A machine is a snapshot: a collector reads it and does not change it.
\<close>

section \<open>The machine\<close>

record dir_entry =
  entry_name :: string
  entry_dir :: bool              \<comment> \<open>\<open>IsDir\<close>\<close>
  entry_info :: "int option"     \<comment> \<open>\<open>Info().ModTime()\<close>, \<open>None\<close> when \<open>Info\<close> fails\<close>

record net_interface =
  itf_name :: string
  itf_up :: bool
  itf_ip4s :: "(string \<times> bool) list"   \<comment> \<open>the IPv4 addresses in order, with \<open>IsLoopback\<close>\<close>

text \<open>\<open>syscall.Statfs\<close>: block size, blocks, free blocks, available blocks.\<close>

record statfs =
  st_bsize :: nat
  st_blocks :: nat
  st_bfree :: nat
  st_bavail :: nat

record machine =
  m_read :: "string \<Rightarrow> string option"            \<comment> \<open>\<open>os.ReadFile\<close>\<close>
  m_mtime :: "string \<Rightarrow> int option"              \<comment> \<open>\<open>os.Stat\<close>, the modification time\<close>
  m_dir :: "string \<Rightarrow> dir_entry list option"     \<comment> \<open>\<open>os.ReadDir\<close>\<close>
  m_link :: "string \<Rightarrow> string option"            \<comment> \<open>\<open>os.Readlink\<close>\<close>
  m_look :: "string \<Rightarrow> bool"                     \<comment> \<open>\<open>exec.LookPath\<close>\<close>
  m_run :: "string list \<Rightarrow> string option"        \<comment> \<open>the output of a command, \<open>None\<close> when it fails\<close>
  m_env :: "string \<Rightarrow> string"                    \<comment> \<open>\<open>os.Getenv\<close>\<close>
  m_ifaces :: "net_interface list"               \<comment> \<open>\<open>net.Interfaces\<close>\<close>
  m_statfs :: "string \<Rightarrow> statfs option"
  m_size :: "string \<Rightarrow> nat"                      \<comment> \<open>\<open>os.Stat\<close> of a file that exists: its size and its permissions\<close>
  m_mode :: "string \<Rightarrow> nat"

definition fileExists :: "machine \<Rightarrow> string \<Rightarrow> bool" where
  "fileExists m p \<longleftrightarrow> m_mtime m p \<noteq> None"

definition commandExists :: "machine \<Rightarrow> string \<Rightarrow> bool" where
  "commandExists m name = m_look m name"

text \<open>A file that cannot be read is the empty one where the code ignores the error.\<close>

definition read_or_empty :: "machine \<Rightarrow> string \<Rightarrow> string" where
  "read_or_empty m p = (case m_read m p of None \<Rightarrow> [] | Some d \<Rightarrow> d)"

definition lines_of :: "string \<Rightarrow> string list" where
  "lines_of s = split_on CHR 0x0A s"

lemma split_on_append_break: "split_on d (s @ d # t) = split_on d s @ split_on d t"
  by (induction s) (auto simp: Let_def split: list.splits)

lemma last_split_on: "s \<noteq> [] \<Longrightarrow> last (split_on d s) = [] \<longleftrightarrow> last s = d"
proof (induction s rule: rev_induct)
  case (snoc c s)
  show ?case
  proof (cases "c = d")
    case True
    then show ?thesis using split_on_append_break [of d s "[]"] by simp
  next
    case False
    have "last (split_on d (s @ [c])) \<noteq> []" if "c \<noteq> d" for s
      using that by (induction s) (auto simp: Let_def split: list.splits if_splits)
    with False show ?thesis by simp
  qed
qed simp

section \<open>Shared readers\<close>

fun readFirstFile :: "machine \<Rightarrow> string list \<Rightarrow> string" where
  "readFirstFile m [] = []"
| "readFirstFile m (p # ps) = (case m_read m p of None \<Rightarrow> readFirstFile m ps | Some d \<Rightarrow> trim_space d)"

definition readIntFile :: "machine \<Rightarrow> string \<Rightarrow> int" where
  "readIntFile m p = (case m_read m p of None \<Rightarrow> 0 | Some d \<Rightarrow> fst (atoi (trim_space d)))"

definition parseKB :: "string \<Rightarrow> int" where
  "parseKB line = (let fs = GoPrelude.fields line in if length fs < 2 then 0 else parse_uint64 (fs ! 1))"

definition parseU64 :: "string \<Rightarrow> int" where
  "parseU64 s = parse_uint64 s"

definition parseUint64Fields :: "string list \<Rightarrow> int list" where
  "parseUint64Fields fs = map parse_uint64 fs"

text \<open>\<open>filepath.Base\<close>.\<close>

definition base_name :: "string \<Rightarrow> string" where
  "base_name p = (let t = rev (dropWhile (\<lambda>c. c = CHR ''/'') (rev p))
                  in if p = [] then ''.'' else if t = [] then ''/'' else last (split_on CHR ''/'' t))"

text \<open>A machine on which nothing can be read.\<close>

definition bare_machine :: machine where
  "bare_machine = \<lparr>m_read = \<lambda>_. None, m_mtime = \<lambda>_. None, m_dir = \<lambda>_. None, m_link = \<lambda>_. None,
     m_look = \<lambda>_. False, m_run = \<lambda>_. None, m_env = \<lambda>_. [], m_ifaces = [], m_statfs = \<lambda>_. None,
     m_size = \<lambda>_. 0, m_mode = \<lambda>_. 0\<rparr>"

end
