(* ===== verification/HostRole.thy ===== *)
theory HostRole
  imports Machine
begin

text \<open>
  What the host is (\<open>sse/metrics.go\<close>): the container probes, the Xen and DMI probes, the
  control capabilities, and the composition of the role.
\<close>

section \<open>The role\<close>

record host_capabilities =
  XenControl :: bool
  DockerControl :: bool
  PodmanControl :: bool
  QEMUControl :: bool

record host_layer =
  Kind :: string
  layer_Runtime :: string
  layer_Role :: string
  layer_Label :: string
  layer_Verified :: bool

record host_role =
  hr_Role :: string
  Runtime :: string
  Label :: string
  Verified :: bool
  Environment :: string
  Virtualization :: string
  VirtualizationRole :: string
  ContainerRuntime :: string
  ParentRuntime :: string
  Capabilities :: host_capabilities
  Layers :: "host_layer list"

definition no_capabilities :: host_capabilities where
  "no_capabilities = \<lparr>XenControl = False, DockerControl = False, PodmanControl = False, QEMUControl = False\<rparr>"

text \<open>A role with the fields in the order of the struct; capabilities and layers are filled in later.\<close>

definition role_of ::
  "string \<Rightarrow> string \<Rightarrow> string \<Rightarrow> string \<Rightarrow> string \<Rightarrow> string \<Rightarrow> string \<Rightarrow> string \<Rightarrow> host_role" where
  "role_of role runtime label env virt vrole cr parent =
     \<lparr>hr_Role = role, Runtime = runtime, Label = label, Verified = True, Environment = env, Virtualization = virt,
      VirtualizationRole = vrole, ContainerRuntime = cr, ParentRuntime = parent,
      Capabilities = no_capabilities, Layers = []\<rparr>"

text \<open>The separator of the labels, a middle dot in UTF-8.\<close>

definition middle_dot :: string where
  "middle_dot = [CHR '' '', CHR 0xC2, CHR 0xB7, CHR '' '']"

definition alpineBaremetalRole :: host_role where
  "alpineBaremetalRole =
     role_of ''Alpine'' ''native'' (''Alpine Linux'' @ middle_dot @ ''Baremetal'') ''host'' ''none'' ''host'' ''none'' ''native''"

definition hostLayer :: "host_role \<Rightarrow> host_layer" where
  "hostLayer r =
     \<lparr>Kind = Environment r, layer_Runtime = Runtime r, layer_Role = hr_Role r, layer_Label = Label r,
      layer_Verified = Verified r\<rparr>"

section \<open>Capabilities\<close>

definition dockerControlAvailable :: "machine \<Rightarrow> bool" where
  "dockerControlAvailable m \<longleftrightarrow> fileExists m ''/var/run/docker.sock'' \<or> fileExists m ''/run/docker.sock''"

definition podmanControlAvailable :: "machine \<Rightarrow> bool" where
  "podmanControlAvailable m \<longleftrightarrow>
     fileExists m ''/run/podman/podman.sock'' \<or> fileExists m ''/var/run/podman/podman.sock'' \<or> commandExists m ''podman''"

definition qemuControlAvailable :: "machine \<Rightarrow> bool" where
  "qemuControlAvailable m \<longleftrightarrow>
     fileExists m ''/dev/kvm'' \<and>
     (fileExists m ''/run/libvirt/libvirt-sock'' \<or> fileExists m ''/var/run/libvirt/libvirt-sock'' \<or>
      commandExists m ''virsh'' \<or> commandExists m ''qemu-system-x86_64'')"

definition detectHostCapabilities :: "machine \<Rightarrow> host_role \<Rightarrow> host_capabilities" where
  "detectHostCapabilities m r =
     (let inContainer = (Environment r = ''container'')
      in \<lparr>XenControl = (\<not> inContainer \<and> Virtualization r = ''xen'' \<and> VirtualizationRole r = ''dom0''),
          DockerControl = dockerControlAvailable m,
          PodmanControl = podmanControlAvailable m,
          QEMUControl = (\<not> inContainer \<and> qemuControlAvailable m)\<rparr>)"

definition composeHostRole :: "machine \<Rightarrow> host_role option \<Rightarrow> host_role option \<Rightarrow> host_role" where
  "composeHostRole m container virtualization =
     (let base0 = (case virtualization of None \<Rightarrow> alpineBaremetalRole | Some v \<Rightarrow> v);
          base = base0\<lparr>Layers := [hostLayer base0]\<rparr>
      in case container of
           None \<Rightarrow> base\<lparr>Capabilities := detectHostCapabilities m base\<rparr>
         | Some c \<Rightarrow>
             let role = c\<lparr>Environment := ''container'', ContainerRuntime := Runtime c,
                          ParentRuntime := (if Runtime base = [] then ''native'' else Runtime base),
                          Virtualization := Virtualization base, VirtualizationRole := VirtualizationRole base,
                          Layers := [hostLayer c, hostLayer base],
                          Label := (if virtualization \<noteq> None then Label c @ '' on '' @ Label base else Label c)\<rparr>
             in role\<lparr>Capabilities := detectHostCapabilities m role\<rparr>)"

section \<open>Containers\<close>

text \<open>The PID between the first parenthesis and the next comma of the first line.\<close>

definition sched_pid :: "string \<Rightarrow> int option" where
  "sched_pid d =
     (case cut CHR ''('' (hd (lines_of d)) of
        (_, rest, ok) \<Rightarrow>
          if \<not> ok then None
          else case cut CHR '','' rest of
            (p, _, ok2) \<Rightarrow>
              if \<not> ok2 then None
              else (case atoi (trim_space p) of (n, ok3) \<Rightarrow> if ok3 then Some n else None))"

definition readSchedPID :: "machine \<Rightarrow> string \<Rightarrow> int option" where
  "readSchedPID m p = Option.bind (m_read m p) sched_pid"

definition cgroup_patterns :: "(string list \<times> string) list" where
  "cgroup_patterns =
     [([''libpod-''], ''podman''), ([''/podman/'', ''/podman-''], ''podman''), ([''/docker/'', ''/docker-''], ''docker''),
      ([''cri-containerd-'', ''kubepods''], ''containerd''), ([''/containerd-''], ''containerd''),
      ([''/lxc/'', ''/lxc-''], ''lxc''), ([''buildah-''], ''buildah'')]"

text \<open>The heuristic on the first line of the unified hierarchy.\<close>

definition unified_path :: "string \<Rightarrow> string option" where
  "unified_path content =
     (case List.find (\<lambda>l. has_prefix l ''0::'') (map trim_space (lines_of content)) of
        None \<Rightarrow> None
      | Some l \<Rightarrow>
          let p = trim_prefix l ''0::''
          in if p = [] \<or> p = ''/'' \<or> has_prefix p ''/init.scope'' \<or> has_prefix p ''/system.slice/init'' \<or>
                has_prefix p ''/user.slice/user-''
             then None else Some ''container'')"

definition cgroup_runtime :: "string \<Rightarrow> string option" where
  "cgroup_runtime content =
     (case List.find (\<lambda>(ps, _). list_ex (contains content) ps) cgroup_patterns of
        Some (_, rt) \<Rightarrow> Some rt
      | None \<Rightarrow> unified_path content)"

definition cgroupPath :: "machine \<Rightarrow> string option" where
  "cgroupPath m = Option.bind (m_read m ''/proc/1/cgroup'') (\<lambda>d. cgroup_runtime (to_lower d))"

definition procEnvVar :: "machine \<Rightarrow> int \<Rightarrow> string \<Rightarrow> string" where
  "procEnvVar m pid key =
     (case m_read m (''/proc/'' @ itoa pid @ ''/environ'') of
        None \<Rightarrow> []
      | Some d \<Rightarrow>
          (case List.find (\<lambda>e. has_prefix e (key @ ''='')) (split_on CHR 0x00 d) of
             None \<Rightarrow> [] | Some e \<Rightarrow> trim_prefix e (key @ ''='')))"

definition identifyContainerRuntime :: "machine \<Rightarrow> string" where
  "identifyContainerRuntime m =
     (case cgroupPath m of
        Some rt \<Rightarrow> rt
      | None \<Rightarrow>
          if fileExists m ''/run/.containerenv'' then ''podman''
          else if fileExists m ''/.dockerenv'' then ''docker''
          else if procEnvVar m 1 ''CONTAINER'' \<noteq> [] then to_lower (procEnvVar m 1 ''CONTAINER'')
          else ''container'')"

definition containerLabel :: "string \<Rightarrow> string" where
  "containerLabel rt =
     (case map_of [(''docker'', ''Docker''), (''podman'', ''Podman''), (''containerd'', ''containerd''), (''lxc'', ''LXC''),
                   (''buildah'', ''Buildah''), (''systemd-nspawn'', ''systemd-nspawn'')] rt of
        Some n \<Rightarrow> ''Container'' @ middle_dot @ n
      | None \<Rightarrow> if rt = [] \<or> rt = ''container'' then ''Container'' else ''Container'' @ middle_dot @ rt)"

definition container_role :: "string \<Rightarrow> host_role" where
  "container_role rt = role_of ''Container'' rt (containerLabel rt) ''container'' ''none'' ''none'' rt []"

definition probeContainer :: "machine \<Rightarrow> host_role option" where
  "probeContainer m =
     (let sched = readSchedPID m ''/proc/1/sched''
      in if sched \<noteq> None \<and> sched \<noteq> Some 1 then Some (container_role (identifyContainerRuntime m))
         else case cgroupPath m of
           Some rt \<Rightarrow> Some (container_role rt)
         | None \<Rightarrow>
             if fileExists m ''/run/.containerenv'' then Some (container_role ''podman'')
             else if fileExists m ''/.dockerenv'' then Some (container_role ''docker'')
             else None)"

section \<open>Virtual machines\<close>

definition domu_role :: host_role where
  "domu_role = role_of ''DomU'' ''xen'' (''Xen DomU'' @ middle_dot @ ''VM Alpine'') ''vm'' ''xen'' ''domu'' ''none'' ''xen''"

definition dom0_role :: host_role where
  "dom0_role =
     role_of ''Dom0'' ''xen'' (''Xen Dom0'' @ middle_dot @ ''Hyperviseur'') ''hypervisor'' ''xen'' ''dom0'' ''none'' ''native''"

definition probeXen :: "machine \<Rightarrow> host_role option" where
  "probeXen m =
     (case m_read m ''/proc/xen/capabilities'' of
        Some d \<Rightarrow> Some (if contains d ''control_d'' then dom0_role else domu_role)
      | None \<Rightarrow>
          (case m_read m ''/sys/hypervisor/type'' of
             Some d \<Rightarrow> if equal_fold (trim_space d) ''xen'' then Some domu_role else None
           | None \<Rightarrow> None))"

definition dmi_matches :: "(string \<times> string \<times> string) list" where
  "dmi_matches =
     [(''qemu'', ''qemu-kvm'', ''QEMU/KVM VM''), (''kvm'', ''qemu-kvm'', ''QEMU/KVM VM''), (''bochs'', ''qemu-kvm'', ''QEMU/KVM VM''),
      (''vmware'', ''vmware'', ''VMware VM''), (''virtualbox'', ''virtualbox'', ''VirtualBox VM''),
      (''microsoft corporation'', ''hyper-v'', ''Hyper-V VM''), (''hyper-v'', ''hyper-v'', ''Hyper-V VM'')]"

definition virtualMachineFromDMI :: "string \<Rightarrow> host_role option" where
  "virtualMachineFromDMI dmi0 =
     (let dmi = to_lower dmi0
      in map_option (\<lambda>(needle, rt, label). role_of ''DomU'' rt label ''vm'' rt ''guest'' ''none'' rt)
           (List.find (\<lambda>(needle, _). contains dmi needle) dmi_matches))"

definition probeDMIHypervisor :: "machine \<Rightarrow> host_role option" where
  "probeDMIHypervisor m =
     virtualMachineFromDMI
       (to_lower (join '' '' (map (\<lambda>f. readFirstFile m [''/sys/class/dmi/id/'' @ f])
                                [''product_name'', ''sys_vendor'', ''board_vendor'', ''bios_vendor''])))"

definition probeVirtualization :: "machine \<Rightarrow> host_role option" where
  "probeVirtualization m = (case probeXen m of Some r \<Rightarrow> Some r | None \<Rightarrow> probeDMIHypervisor m)"

definition DetectHostRole :: "machine \<Rightarrow> host_role" where
  "DetectHostRole m = composeHostRole m (probeContainer m) (probeVirtualization m)"

definition localXenControlAvailable :: "machine \<Rightarrow> bool" where
  "localXenControlAvailable m \<longleftrightarrow>
     probeContainer m = None \<and>
     (case m_read m ''/proc/xen/capabilities'' of None \<Rightarrow> False | Some d \<Rightarrow> contains d ''control_d'')"

section \<open>Facts\<close>

lemma role_of_simps [simp]:
  "hr_Role (role_of a b c d e f g h) = a" "Runtime (role_of a b c d e f g h) = b" "Label (role_of a b c d e f g h) = c"
  "Environment (role_of a b c d e f g h) = d" "Virtualization (role_of a b c d e f g h) = e"
  "VirtualizationRole (role_of a b c d e f g h) = f" "ContainerRuntime (role_of a b c d e f g h) = g"
  "ParentRuntime (role_of a b c d e f g h) = h"
  by (simp_all add: role_of_def)

lemmas role_defs = alpineBaremetalRole_def container_role_def domu_role_def dom0_role_def

lemma probeContainer_role: "probeContainer m = Some c \<Longrightarrow> \<exists>rt. c = container_role rt"
  by (auto simp: probeContainer_def Let_def split: if_splits option.splits)

lemma probeDMI_role:
  "probeDMIHypervisor m = Some v \<Longrightarrow>
     hr_Role v = ''DomU'' \<and> Environment v = ''vm'' \<and> VirtualizationRole v = ''guest'' \<and> ContainerRuntime v = ''none''"
  by (auto simp: probeDMIHypervisor_def virtualMachineFromDMI_def Let_def case_prod_beta)

lemma probeVirtualization_cases:
  obtains (none) "probeVirtualization m = None" "m_read m ''/proc/xen/capabilities'' = None"
  | (dom0) d where "probeVirtualization m = Some dom0_role" "m_read m ''/proc/xen/capabilities'' = Some d" "contains d ''control_d''"
  | (domu) "probeVirtualization m = Some domu_role"
      "\<forall>d. m_read m ''/proc/xen/capabilities'' = Some d \<longrightarrow> \<not> contains d ''control_d''"
  | (guest) v where "probeVirtualization m = Some v" "probeDMIHypervisor m = Some v" "m_read m ''/proc/xen/capabilities'' = None"
proof (cases "m_read m ''/proc/xen/capabilities''")
  case (Some d)
  then have "probeVirtualization m = Some (if contains d ''control_d'' then dom0_role else domu_role)"
    by (simp add: probeVirtualization_def probeXen_def)
  with Some that(2,3) show ?thesis by (cases "contains d ''control_d''") auto
next
  case None
  show ?thesis
  proof (cases "probeXen m")
    case None
    with \<open>m_read m _ = None\<close> that(1,4) show ?thesis
      by (cases "probeDMIHypervisor m") (auto simp: probeVirtualization_def)
  next
    case (Some r)
    then have "r = domu_role" using None by (auto simp: probeXen_def split: option.splits if_splits)
    with Some None that(3) show ?thesis by (simp add: probeVirtualization_def)
  qed
qed

section \<open>Properties\<close>

lemma xen_control: "XenControl (Capabilities (DetectHostRole m)) = localXenControlAvailable m"
  by (cases rule: probeVirtualization_cases [of m])
     (auto simp: DetectHostRole_def composeHostRole_def detectHostCapabilities_def localXenControlAvailable_def role_defs
        hostLayer_def Let_def split: option.split dest: probeContainer_role probeDMI_role)

text \<open>
  C35. Control of Xen is granted on the real control domain and nowhere else: the capability in the detected role holds
  exactly if no container probe fires and the kernel's Xen file says \<open>control_d\<close>, so it agrees with the check that
  guards \<open>xl dmesg\<close>; and the role is \<open>Container\<close> if a probe fires, else \<open>Dom0\<close>, \<open>DomU\<close> or \<open>Alpine\<close> in this order of the evidence.
\<close>

theorem host_role_priority:
  "XenControl (Capabilities (DetectHostRole m)) = localXenControlAvailable m \<and>
   hr_Role (DetectHostRole m) =
     (if probeContainer m \<noteq> None then ''Container''
      else if localXenControlAvailable m then ''Dom0''
      else if probeVirtualization m \<noteq> None then ''DomU'' else ''Alpine'') \<and>
   Kind (last (Layers (DetectHostRole m))) \<noteq> ''container''"
proof (cases "probeContainer m")
  case None
  show ?thesis
  proof (cases rule: probeVirtualization_cases [of m])
    case none
    then show ?thesis using None
      by (simp add: DetectHostRole_def composeHostRole_def detectHostCapabilities_def localXenControlAvailable_def role_defs hostLayer_def Let_def)
  next
    case (dom0 d)
    then show ?thesis using None
      by (simp add: DetectHostRole_def composeHostRole_def detectHostCapabilities_def localXenControlAvailable_def role_defs hostLayer_def Let_def)
  next
    case domu
    then show ?thesis using None
      by (simp add: DetectHostRole_def composeHostRole_def detectHostCapabilities_def localXenControlAvailable_def role_defs hostLayer_def Let_def
          split: option.split)
  next
    case (guest v)
    then show ?thesis using None probeDMI_role [OF guest(2)]
      by (simp add: DetectHostRole_def composeHostRole_def detectHostCapabilities_def localXenControlAvailable_def hostLayer_def Let_def)
  qed
next
  case (Some c)
  then obtain rt where c: "c = container_role rt" using probeContainer_role by blast
  have "Environment (case probeVirtualization m of None \<Rightarrow> alpineBaremetalRole | Some v \<Rightarrow> v) \<noteq> ''container''"
    by (cases rule: probeVirtualization_cases [of m]) (auto simp: role_defs dest: probeDMI_role)
  then show ?thesis using Some c
    by (simp add: DetectHostRole_def composeHostRole_def detectHostCapabilities_def localXenControlAvailable_def
        container_role_def hostLayer_def Let_def)
qed

end
