(* ===== verification/GoSort.thy ===== *)
theory GoSort
  imports GoPrelude "HOL-Library.Multiset"
begin

text \<open>
  The sorts of the collectors: the insertion sort that is written out for cores and used by
  \<open>sort.Slice\<close> on up to twelve elements, and the exchange sort of the process list.
\<close>

section \<open>Insertion from the right\<close>

text \<open>A new last element moves left past the elements it is less than.\<close>

definition place :: "('a \<Rightarrow> 'a \<Rightarrow> bool) \<Rightarrow> 'a \<Rightarrow> 'a list \<Rightarrow> 'a list" where
  "place lt x xs =
     (let gt = takeWhile (\<lambda>y. lt x y) (rev xs)
      in rev (dropWhile (\<lambda>y. lt x y) (rev xs)) @ x # rev gt)"

definition insertion_sort :: "('a \<Rightarrow> 'a \<Rightarrow> bool) \<Rightarrow> 'a list \<Rightarrow> 'a list" where
  "insertion_sort lt xs = fold (place lt) xs []"

lemma mset_place [simp]: "mset (place lt x xs) = add_mset x (mset xs)"
proof -
  have "mset (takeWhile (\<lambda>y. lt x y) (rev xs)) + mset (dropWhile (\<lambda>y. lt x y) (rev xs)) = mset (rev xs)"
    by (metis mset_append takeWhile_dropWhile_id)
  then show ?thesis by (simp add: place_def Let_def add.commute)
qed

lemma mset_insertion_sort [simp]: "mset (insertion_sort lt xs) = mset xs"
proof -
  have "mset (fold (place lt) xs acc) = mset xs + mset acc" for acc
    by (induction xs arbitrary: acc) simp_all
  then show ?thesis by (simp add: insertion_sort_def)
qed

lemma set_insertion_sort [simp]: "set (insertion_sort lt xs) = set xs"
  by (metis mset_insertion_sort set_mset_mset)

lemma length_insertion_sort [simp]: "length (insertion_sort lt xs) = length xs"
  by (metis mset_insertion_sort size_mset)

text \<open>With a strict weak order the result is sorted: no element is less than one before it.\<close>

locale weak_order =
  fixes lt :: "'a \<Rightarrow> 'a \<Rightarrow> bool" and D :: "'a set"
  assumes asym: "x \<in> D \<Longrightarrow> y \<in> D \<Longrightarrow> lt x y \<Longrightarrow> \<not> lt y x"
    and ntrans: "x \<in> D \<Longrightarrow> y \<in> D \<Longrightarrow> z \<in> D \<Longrightarrow> \<not> lt y x \<Longrightarrow> \<not> lt z y \<Longrightarrow> \<not> lt z x"
begin

abbreviation ordered :: "'a list \<Rightarrow> bool" where
  "ordered \<equiv> sorted_wrt (\<lambda>a b. \<not> lt b a)"

lemma ordered_place:
  assumes "ordered xs" and "set (x # xs) \<subseteq> D"
  shows "ordered (place lt x xs)"
  using assms
proof (induction xs rule: rev_induct)
  case Nil
  then show ?case by (simp add: place_def)
next
  case (snoc y xs)
  from snoc.prems have s: "ordered xs" "\<forall>a \<in> set xs. \<not> lt y a" "x \<in> D" "y \<in> D" "set xs \<subseteq> D"
    by (auto simp: sorted_wrt_append)
  show ?case
  proof (cases "lt x y")
    case True
    have p: "place lt x (xs @ [y]) = place lt x xs @ [y]"
      using True by (simp add: place_def Let_def)
    have "set (place lt x xs) = insert x (set xs)"
      by (metis mset_place set_mset_add_mset_insert set_mset_mset)
    with snoc.IH [OF s(1)] s True asym [OF s(3,4)] show ?thesis
      by (auto simp: p sorted_wrt_append)
  next
    case False
    then have p: "place lt x (xs @ [y]) = (xs @ [y]) @ [x]" by (simp add: place_def)
    have "\<not> lt x a" if "a \<in> set xs" for a
      using ntrans [of a y x] s that False by blast
    with False snoc.prems(1) show ?thesis by (auto simp: p sorted_wrt_append)
  qed
qed

lemma ordered_insertion_sort: "set xs \<subseteq> D \<Longrightarrow> ordered (insertion_sort lt xs)"
proof -
  have "ordered (fold (place lt) xs acc)" if "ordered acc" "set xs \<union> set acc \<subseteq> D" for acc
    using that
  proof (induction xs arbitrary: acc)
    case (Cons x xs)
    have "set (place lt x acc) = insert x (set acc)"
      by (metis mset_place set_mset_add_mset_insert set_mset_mset)
    with Cons ordered_place [of acc x] show ?case by simp
  qed simp
  from this [of "[]"] show "set xs \<subseteq> D \<Longrightarrow> ?thesis" by (simp add: insertion_sort_def)
qed

end

section \<open>Sorting by a key\<close>

definition by_key :: "('a \<Rightarrow> int) \<Rightarrow> 'a \<Rightarrow> 'a \<Rightarrow> bool" where
  "by_key f a b \<longleftrightarrow> f a < f b"

interpretation keyed: weak_order "by_key f" UNIV for f :: "'a \<Rightarrow> int"
  by unfold_locales (auto simp: by_key_def)

lemma sorted_by_key: "sorted (map f (insertion_sort (by_key f) xs))"
  using keyed.ordered_insertion_sort [of xs f] by (simp add: by_key_def sorted_map not_less)

section \<open>Strings\<close>

text \<open>The order of Go strings, byte by byte.\<close>

fun str_less :: "string \<Rightarrow> string \<Rightarrow> bool" where
  "str_less xs [] = False"
| "str_less [] (y # ys) = True"
| "str_less (x # xs) (y # ys) = (byte x < byte y \<or> x = y \<and> str_less xs ys)"

lemma str_less_irrefl [simp]: "\<not> str_less xs xs"
  by (induction xs) simp_all

lemma str_less_trans: "str_less xs ys \<Longrightarrow> str_less ys zs \<Longrightarrow> str_less xs zs"
proof (induction xs zs arbitrary: ys rule: str_less.induct)
  case (2 z zs)
  then show ?case by (cases ys) auto
next
  case (3 x xs z zs)
  then show ?case by (cases ys) auto
qed simp

lemma str_less_total: "xs = ys \<or> str_less xs ys \<or> str_less ys xs"
proof (induction xs ys rule: str_less.induct)
  case (3 x xs y ys)
  have "x = y" if "byte x = (byte y :: nat)" using that by simp
  then show ?case using 3 by (cases "byte x < (byte y :: nat)"; cases "byte y < (byte x :: nat)") auto
next
  case (1 xs)
  then show ?case by (cases xs) simp_all
qed simp

interpretation strings: weak_order str_less UNIV
  by unfold_locales (metis str_less_irrefl str_less_trans, metis str_less_total str_less_trans)

section \<open>The exchange sort\<close>

text \<open>One pass: the first element is swapped with every later one that belongs before it; the result is the first and the rest.\<close>

fun exchange_pass :: "('a \<Rightarrow> 'a \<Rightarrow> bool) \<Rightarrow> 'a \<Rightarrow> 'a list \<Rightarrow> 'a \<times> 'a list" where
  "exchange_pass lt x [] = (x, [])"
| "exchange_pass lt x (y # ys) =
     (if lt y x then (let r = exchange_pass lt y ys in (fst r, x # snd r))
      else (let r = exchange_pass lt x ys in (fst r, y # snd r)))"

lemma length_exchange_pass [simp]: "length (snd (exchange_pass lt x ys)) = length ys"
  by (induction lt x ys rule: exchange_pass.induct) (simp_all add: Let_def)

function exchange_sort :: "('a \<Rightarrow> 'a \<Rightarrow> bool) \<Rightarrow> 'a list \<Rightarrow> 'a list" where
  "exchange_sort lt [] = []"
| "exchange_sort lt (x # xs) =
     fst (exchange_pass lt x xs) # exchange_sort lt (snd (exchange_pass lt x xs))"
  by pat_completeness auto
termination
  by (relation "measure (\<lambda>(lt, xs). length xs)") auto

lemma mset_exchange_pass:
  "add_mset (fst (exchange_pass lt x ys)) (mset (snd (exchange_pass lt x ys))) = add_mset x (mset ys)"
  by (induction lt x ys rule: exchange_pass.induct) (auto simp: Let_def add_mset_commute)

lemma set_exchange_pass: "insert (fst (exchange_pass lt x ys)) (set (snd (exchange_pass lt x ys))) = set (x # ys)"
  by (metis mset_exchange_pass set_mset_add_mset_insert set_mset_mset list.simps(15))

lemma mset_exchange_sort [simp]: "mset (exchange_sort lt xs) = mset xs"
proof (induction lt xs rule: exchange_sort.induct)
  case (2 lt x xs)
  then show ?case using mset_exchange_pass [of lt x xs] by simp
qed simp

lemma length_exchange_sort [simp]: "length (exchange_sort lt xs) = length xs"
  by (metis mset_exchange_sort size_mset)

lemma set_exchange_sort [simp]: "set (exchange_sort lt xs) = set xs"
  by (metis mset_exchange_sort set_mset_mset)

context weak_order
begin

lemma exchange_pass_first:
  "set (x # ys) \<subseteq> D \<Longrightarrow> z \<in> set (x # ys) \<Longrightarrow> \<not> lt z (fst (exchange_pass lt x ys))"
proof (induction ys arbitrary: x z)
  case Nil
  then show ?case using asym [of x x] by auto
next
  case (Cons y ys)
  show ?case
  proof (cases "lt y x")
    case True
    let ?f = "fst (exchange_pass lt y ys)"
    have ih: "\<not> lt z ?f" if "z \<in> set (y # ys)" for z using Cons.IH [of y z] Cons.prems(1) that by simp
    have "?f \<in> set (y # ys)" using set_exchange_pass [of lt y ys] by blast
    then have "?f \<in> D" using Cons.prems(1) by auto
    then have "\<not> lt x ?f" using ntrans [of ?f y x] asym [of y x] ih [of y] True Cons.prems(1) by simp
    with ih True Cons.prems(2) show ?thesis by (auto simp: Let_def)
  next
    case False
    let ?f = "fst (exchange_pass lt x ys)"
    have ih: "\<not> lt z ?f" if "z \<in> set (x # ys)" for z using Cons.IH [of x z] Cons.prems(1) that by simp
    have "?f \<in> set (x # ys)" using set_exchange_pass [of lt x ys] by blast
    then have "?f \<in> D" using Cons.prems(1) by auto
    then have "\<not> lt y ?f" using ntrans [of ?f x y] ih [of x] False Cons.prems(1) by simp
    with ih False Cons.prems(2) show ?thesis by (auto simp: Let_def)
  qed
qed

lemma ordered_exchange_sort: "set xs \<subseteq> D \<Longrightarrow> ordered (exchange_sort lt xs)"
proof (induction "length xs" arbitrary: xs)
  case (Suc n)
  then obtain x ys where xs: "xs = x # ys" by (cases xs) auto
  let ?p = "exchange_pass lt x ys"
  have s: "insert (fst ?p) (set (snd ?p)) = set xs" using set_exchange_pass [of lt x ys] by (simp add: xs)
  then have "set (snd ?p) \<subseteq> D" using Suc.prems by blast
  moreover have "n = length (snd ?p)" using Suc.hyps(2) by (simp add: xs)
  ultimately have "ordered (exchange_sort lt (snd ?p))" using Suc.hyps(1) by blast
  moreover have "\<not> lt b (fst ?p)" if "b \<in> set (snd ?p)" for b
    by (rule exchange_pass_first) (use Suc.prems s that in \<open>auto simp: xs\<close>)
  ultimately show ?case by (simp add: xs)
qed simp

end

text \<open>Downwards by a number.\<close>

definition down_by :: "('a \<Rightarrow> int) \<Rightarrow> 'a \<Rightarrow> 'a \<Rightarrow> bool" where
  "down_by f b a \<longleftrightarrow> f a < f b"

interpretation down: weak_order "down_by f" UNIV for f :: "'a \<Rightarrow> int"
  by unfold_locales (auto simp: down_by_def)

lemma exchange_sort_desc: "sorted_wrt (\<lambda>a b. f b \<le> f a) (exchange_sort (down_by f) xs)"
  using down.ordered_exchange_sort [of xs f] by (simp add: down_by_def not_less)

lemma exchange_sort_strings: "sorted_wrt (\<lambda>a b. \<not> str_less b a) (exchange_sort str_less xs)"
  by (rule strings.ordered_exchange_sort) simp

end
