(* ===== verification/CpuMetrics.thy ===== *)
theory CpuMetrics
  imports Complex_Main HostRole GoSort
begin

text \<open>
  CPU usage, frequencies and memory (\<open>sse/metrics.go\<close>). Counters are \<open>uint64\<close> values, integers with the
  wrap-around written out; the \<open>float64\<close> ratios are exact rationals (their rounding is not modelled). A Go map that is ranged
  over is an association list in the order of the range.
\<close>

definition u64 :: "int \<Rightarrow> int" where
  "u64 x = x mod 2 ^ 64"

section \<open>CPU times\<close>

record cpu_times =
  idle :: int
  total :: int

type_synonym cpu_table = "(string \<times> cpu_times) list"

definition cpu_line :: "string \<Rightarrow> (string \<times> cpu_times) option" where
  "cpu_line line =
     (if \<not> has_prefix line ''cpu'' \<or> has_prefix line ''cpu '' then None
      else
        let fs = GoPrelude.fields line; vals = parseUint64Fields (tl fs)
        in if length fs < 9 then None
           else Some (hd fs, \<lparr>idle = u64 (vals ! 3 + vals ! 4), total = u64 (sum_list (take 8 vals))\<rparr>))"

fun put :: "string \<Rightarrow> 'a \<Rightarrow> (string \<times> 'a) list \<Rightarrow> (string \<times> 'a) list" where
  "put k v [] = [(k, v)]"
| "put k v ((k', v') # m) = (if k = k' then (k, v) # m else (k', v') # put k v m)"

definition readCPUTimes :: "machine \<Rightarrow> cpu_table" where
  "readCPUTimes m =
     fold (\<lambda>(k, v). put k v) (List.map_filter cpu_line (lines_of (read_or_empty m ''/proc/stat''))) []"

text \<open>The differences of two readings, wrapped around as \<open>uint64\<close>, before the conversion to \<open>float64\<close>.\<close>

definition deltas :: "cpu_table \<Rightarrow> cpu_table \<Rightarrow> (string \<times> int \<times> int) list" where
  "deltas t1 t2 =
     List.map_filter
       (\<lambda>(name, a). case map_of t2 name of
          None \<Rightarrow> None
        | Some b \<Rightarrow>
            let dIdle = u64 (idle b - idle a); dTotal = u64 (total b - total a)
            in if dTotal \<le> 0 then None else Some (name, dIdle, dTotal)) t1"

definition busy :: "int \<Rightarrow> int \<Rightarrow> rat" where
  "busy dIdle dTotal = 1 - of_int dIdle / of_int dTotal"

definition core_of :: "string \<times> int \<times> int \<Rightarrow> (int \<times> rat) option" where
  "core_of c =
     (case c of (name, dIdle, dTotal) \<Rightarrow>
        case atoi (trim_prefix name ''cpu'') of
          (idx, ok) \<Rightarrow> if ok then Some (idx, busy dIdle dTotal * 100) else None)"

definition average :: "rat list \<Rightarrow> rat" where
  "average xs = (if xs = [] then 0 else sum_list xs / of_nat (length xs))"

definition cpuPercentAll :: "cpu_table \<Rightarrow> cpu_table \<Rightarrow> rat \<times> (int \<times> rat) list" where
  "cpuPercentAll t1 t2 =
     (let ds = deltas t1 t2
      in (average (map (\<lambda>(name, dIdle, dTotal). busy dIdle dTotal * 100) ds),
          insertion_sort (by_key fst) (List.map_filter core_of ds)))"

text \<open>The conversion of a \<open>float64\<close> to an \<open>int\<close> drops the fraction; so does integer division.\<close>

definition trunc :: "rat \<Rightarrow> int" where
  "trunc r = (if 0 \<le> r then \<lfloor>r\<rfloor> else \<lceil>r\<rceil>)"

definition go_quot :: "int \<Rightarrow> int \<Rightarrow> int" where
  "go_quot a b = (if 0 \<le> a then a div b else - ((- a) div b))"

definition computeEffectiveFreq :: "cpu_table \<Rightarrow> cpu_table \<Rightarrow> int \<Rightarrow> int" where
  "computeEffectiveFreq t1 t2 freqMax =
     (if freqMax \<le> 0 then 0
      else
        let ds = filter (\<lambda>(name, _). has_prefix name ''cpu'' \<and> name \<noteq> ''cpu'') (deltas t1 t2)
        in if ds = [] then 0
           else trunc (average (map (\<lambda>(name, dIdle, dTotal). busy dIdle dTotal) ds) * of_int freqMax))"

section \<open>Frequencies\<close>

definition cpu_dir :: string where
  "cpu_dir = ''/sys/devices/system/cpu/''"

record core_freq =
  cf_idx :: int
  cf_mhz :: int
  cf_max :: int

definition read_core_freq :: "machine \<Rightarrow> dir_entry \<Rightarrow> core_freq option" where
  "read_core_freq m e =
     (let name = entry_name e; base = cpu_dir @ name @ ''/cpufreq/'';
          c1 = readIntFile m (base @ ''scaling_cur_freq'');
          cur = (if c1 = 0 then readIntFile m (base @ ''cpuinfo_cur_freq'') else c1)
      in if \<not> has_prefix name ''cpu'' \<or> length name \<le> 3 then None
         else case atoi (trim_prefix name ''cpu'') of
           (idx, ok) \<Rightarrow>
             if \<not> ok \<or> cur \<le> 0 then None
             else Some \<lparr>cf_idx = idx, cf_mhz = cur div 1000,
                        cf_max = go_quot (readIntFile m (base @ ''cpuinfo_max_freq'')) 1000\<rparr>)"

text \<open>The text after the first occurrence of a needle.\<close>

fun after :: "string \<Rightarrow> string \<Rightarrow> string option" where
  "after needle [] = (if needle = [] then Some [] else None)"
| "after needle (c # s) =
     (if has_prefix (c # s) needle then Some (drop (length needle) (c # s)) else after needle s)"

definition xen_max :: "string \<Rightarrow> int option" where
  "xen_max line =
     (if \<not> contains line ''CPU0:'' then None
      else case after ''max:'' line of
        None \<Rightarrow> None
      | Some rest \<Rightarrow>
          (case GoPrelude.fields (trim_space rest) of
             [] \<Rightarrow> None
           | w # _ \<Rightarrow> (case atoi w of (v, ok) \<Rightarrow> if ok \<and> 0 < v then Some v else None)))"

definition readXenFreqMax :: "machine \<Rightarrow> int" where
  "readXenFreqMax m =
     (if \<not> localXenControlAvailable m then 0
      else
        case (case m_read m ''/var/run/xen/xen-dmesg'' of Some d \<Rightarrow> Some d | None \<Rightarrow> m_run m [''xl'', ''dmesg'']) of
          None \<Rightarrow> 0
        | Some out \<Rightarrow> (case List.map_filter xen_max (lines_of out) of [] \<Rightarrow> 0 | v # _ \<Rightarrow> v))"

definition readCPPCMaxFreq :: "machine \<Rightarrow> int" where
  "readCPPCMaxFreq m =
     (let base = cpu_dir @ ''cpu0/acpi_cppc/'';
          highest = readIntFile m (base @ ''highest_perf''); nominal = readIntFile m (base @ ''nominal_perf'');
          nomFreq = readIntFile m (base @ ''nominal_freq''); refPerf = readIntFile m (base @ ''reference_perf'')
      in if 0 < highest \<and> 0 < nominal \<and> 0 < nomFreq
         then trunc (of_int highest / of_int nominal * of_int nomFreq)
         else if 0 < highest \<and> 0 < refPerf \<and> 0 < nomFreq
         then trunc (of_int highest / of_int refPerf * of_int nomFreq)
         else 0)"

text \<open>The clock of one line of \<open>/proc/cpuinfo\<close>; \<open>pf\<close> is \<open>strconv.ParseFloat\<close>.\<close>

definition cpuinfo_mhz :: "(string \<Rightarrow> rat option) \<Rightarrow> string \<Rightarrow> int option" where
  "cpuinfo_mhz pf line =
     (if \<not> has_prefix line ''cpu MHz'' then None
      else case cut CHR '':'' line of (_, v, ok) \<Rightarrow>
        if ok then map_option trunc (pf (trim_space v)) else None)"

definition max_from :: "int \<Rightarrow> int list \<Rightarrow> int" where
  "max_from a xs = fold max xs a"

definition readFreqsPerCore :: "(string \<Rightarrow> rat option) \<Rightarrow> machine \<Rightarrow> int \<times> int \<times> int list" where
  "readFreqsPerCore pf m =
     (let cf = (case m_dir m cpu_dir of None \<Rightarrow> [] | Some es \<Rightarrow> List.map_filter (read_core_freq m) es)
      in if cf \<noteq> [] then
           let perCore = map cf_mhz (insertion_sort (by_key cf_idx) cf)
           in (sum_list perCore div int (length cf), max_from 0 (map cf_max cf), perCore)
         else
           let freqs = List.map_filter (cpuinfo_mhz pf) (lines_of (read_or_empty m ''/proc/cpuinfo''));
               mx = max_from 0 freqs; xenMax = readXenFreqMax m
           in (if freqs = [] then 0 else go_quot (sum_list freqs) (int (length freqs)),
               if mx < xenMax then xenMax else mx, freqs))"

section \<open>Memory\<close>

record mem_raw =
  mr_total :: int
  mr_free :: int
  mr_buffers :: int
  mr_cached :: int

definition mem_line :: "string \<Rightarrow> mem_raw \<Rightarrow> mem_raw" where
  "mem_line line r =
     (if has_prefix line ''MemTotal:'' then r\<lparr>mr_total := parseKB line\<rparr>
      else if has_prefix line ''MemFree:'' then r\<lparr>mr_free := parseKB line\<rparr>
      else if has_prefix line ''Buffers:'' then r\<lparr>mr_buffers := parseKB line\<rparr>
      else if has_prefix line ''Cached:'' then r\<lparr>mr_cached := parseKB line\<rparr>
      else r)"

text \<open>\<open>total\<close>, \<open>free\<close>, \<open>cached\<close>, \<open>used\<close>.\<close>

definition mem_parts :: "mem_raw \<Rightarrow> int \<times> int \<times> int \<times> int" where
  "mem_parts r =
     (let cached = u64 (mr_buffers r + mr_cached r);
          used = (if u64 (mr_free r + cached) < mr_total r then u64 (mr_total r - mr_free r - cached) else 0)
      in (mr_total r, mr_free r, cached, used))"

definition readMemFull :: "machine \<Rightarrow> int \<times> int \<times> int \<times> int" where
  "readMemFull m =
     mem_parts (fold mem_line (lines_of (read_or_empty m ''/proc/meminfo''))
       \<lparr>mr_total = 0, mr_free = 0, mr_buffers = 0, mr_cached = 0\<rparr>)"

text \<open>The percentage of the snapshot: computed in \<open>uint64\<close>, converted to \<open>uint8\<close>, then capped.\<close>

definition mem_pct :: "int \<Rightarrow> int \<Rightarrow> int" where
  "mem_pct part whole =
     (if whole \<le> 0 then 0 else let p = (u64 (part * 100) div whole) mod 256 in if 100 < p then 100 else p)"

section \<open>Bounds\<close>

lemma u64_bounds [simp]: "0 \<le> u64 x" "u64 x < 2 ^ 64"
  by (simp_all add: u64_def)

lemma u64_id: "0 \<le> x \<Longrightarrow> x < 2 ^ 64 \<Longrightarrow> u64 x = x"
  by (simp add: u64_def)

lemma busy_bounds: "0 < t \<Longrightarrow> 0 \<le> i \<Longrightarrow> i \<le> t \<Longrightarrow> 0 \<le> busy i t \<and> busy i t \<le> 1"
  by (simp add: busy_def)

lemma average_bounds: "(\<And>x. x \<in> set xs \<Longrightarrow> 0 \<le> x \<and> x \<le> b) \<Longrightarrow> 0 \<le> b \<Longrightarrow> 0 \<le> average xs \<and> average xs \<le> (b :: rat)"
proof -
  assume a: "\<And>x. x \<in> set xs \<Longrightarrow> 0 \<le> x \<and> x \<le> b" "0 \<le> b"
  have "0 \<le> sum_list xs \<and> sum_list xs \<le> b * of_nat (length xs)"
    using a(1) by (induction xs) (auto simp: distrib_left add_mono)
  then show ?thesis using a(2) by (auto simp: average_def divide_le_eq mult.commute)
qed

text \<open>A machine whose counters do not go back between two readings.\<close>

definition counters_ok :: "cpu_table \<Rightarrow> cpu_table \<Rightarrow> bool" where
  "counters_ok t1 t2 \<longleftrightarrow>
     list_all (\<lambda>(name, a). case map_of t2 name of
       None \<Rightarrow> True
     | Some b \<Rightarrow> 0 \<le> idle a \<and> idle a \<le> idle b \<and> idle b - idle a \<le> total b - total a \<and>
         0 \<le> total a \<and> total b < 2 ^ 64) t1"

lemma deltas_ok:
  assumes "counters_ok t1 t2" and "(name, dIdle, dTotal) \<in> set (deltas t1 t2)"
  shows "0 < dTotal \<and> 0 \<le> dIdle \<and> dIdle \<le> dTotal"
proof -
  obtain a b where ab: "(name, a) \<in> set t1" "map_of t2 name = Some b"
      "dIdle = u64 (idle b - idle a)" "dTotal = u64 (total b - total a)" "0 < dTotal"
    using assms(2) by (auto simp: deltas_def map_filter_mem Let_def split: option.splits if_splits)
  have ok: "0 \<le> idle a" "idle a \<le> idle b" "idle b - idle a \<le> total b - total a" "0 \<le> total a" "total b < 2 ^ 64"
    using assms(1) ab(1,2) by (auto simp: counters_ok_def list_all_iff)
  have "dTotal = total b - total a" unfolding ab(4) by (rule u64_id) (use ok in linarith)+
  moreover have "dIdle = idle b - idle a" unfolding ab(3) by (rule u64_id) (use ok in linarith)+
  ultimately show ?thesis using ab(5) ok by simp
qed

text \<open>
  The usage figures are percentages: when no counter goes back and the idle time grows no faster than the total, the
  global usage and that of every core lie between 0 and 100, the cores come in numeric order, and the effective frequency lies between 0 and the maximum.
\<close>

theorem cpu_usage_bounds:
  assumes "counters_ok t1 t2" and "cpuPercentAll t1 t2 = (usage, perCore)" and "0 \<le> freqMax"
  shows "0 \<le> usage \<and> usage \<le> 100 \<and> (\<forall>(i, p) \<in> set perCore. 0 \<le> p \<and> p \<le> 100) \<and> sorted (map fst perCore) \<and>
    0 \<le> computeEffectiveFreq t1 t2 freqMax \<and> computeEffectiveFreq t1 t2 freqMax \<le> freqMax"
proof -
  have b: "0 \<le> busy i t \<and> busy i t \<le> 1" if "(n, i, t) \<in> set (deltas t1 t2)" for n i t
    using deltas_ok [OF assms(1) that] by (intro busy_bounds) simp_all
  then have b100: "0 \<le> busy i t * 100 \<and> busy i t * 100 \<le> 100" if "(n, i, t) \<in> set (deltas t1 t2)" for n i t
    using that by fastforce
  have "usage = average (map (\<lambda>(name, dIdle, dTotal). busy dIdle dTotal * 100) (deltas t1 t2))"
    using assms(2) by (simp add: cpuPercentAll_def Let_def)
  then have u: "0 \<le> usage \<and> usage \<le> 100" using b100 by (auto intro!: average_bounds)
  have p: "perCore = insertion_sort (by_key fst) (List.map_filter core_of (deltas t1 t2))"
    using assms(2) by (simp add: cpuPercentAll_def Let_def)
  have core: "\<exists>n j t. d = (n, j, t) \<and> x = busy j t * 100" if "core_of d = Some (i, x)" for d i x
    using that by (cases d) (auto simp: core_of_def split: prod.splits if_splits)
  have c: "\<forall>(i, p) \<in> set perCore. 0 \<le> p \<and> p \<le> 100"
  proof (intro ballI, clarify)
    fix i x
    assume "(i, x) \<in> set perCore"
    then obtain d where "d \<in> set (deltas t1 t2)" "core_of d = Some (i, x)" by (auto simp: p map_filter_mem)
    with core [of d i x] b100 show "0 \<le> x \<and> x \<le> 100" by auto
  qed
  let ?ds = "filter (\<lambda>(name, _). has_prefix name ''cpu'' \<and> name \<noteq> ''cpu'') (deltas t1 t2)"
  let ?a = "average (map (\<lambda>(name, dIdle, dTotal). busy dIdle dTotal) ?ds)"
  have a: "0 \<le> ?a \<and> ?a \<le> 1" using b by (intro average_bounds) auto
  then have "0 \<le> ?a * of_int freqMax" "?a * of_int freqMax \<le> of_int freqMax"
    using assms(3) by (simp_all add: mult_left_le_one_le)
  then have "0 \<le> trunc (?a * of_int freqMax) \<and> trunc (?a * of_int freqMax) \<le> freqMax"
    by (simp add: trunc_def le_floor_iff floor_le_iff)
  then show ?thesis
    using u c sorted_by_key [of fst] assms(3) by (auto simp: p computeEffectiveFreq_def Let_def)
qed

theorem cpu_usage_bounds_witness:
  "0 \<le> computeEffectiveFreq [(''cpu0'', \<lparr>idle = 10, total = 20\<rparr>)] [(''cpu0'', \<lparr>idle = 11, total = 24\<rparr>)] 3200 \<and>
   computeEffectiveFreq [(''cpu0'', \<lparr>idle = 10, total = 20\<rparr>)] [(''cpu0'', \<lparr>idle = 11, total = 24\<rparr>)] 3200 \<le> 3200"
proof -
  have "counters_ok [(''cpu0'', \<lparr>idle = 10, total = 20\<rparr>)] [(''cpu0'', \<lparr>idle = 11, total = 24\<rparr>)]"
    by (simp add: counters_ok_def)
  from cpu_usage_bounds [OF this prod.collapse [symmetric], of 3200] show ?thesis by simp
qed

text \<open>
  The memory figures add up only as long as the parts fit: used, cached and free memory sum to the total if free and
  cached together do not exceed it; otherwise used is 0 and the parts exceed the total. In both cases the used percentage is one.
\<close>

theorem memory_adds_up:
  assumes "mem_parts r = (tot, free, cached, used)" and "0 \<le> mr_free r" and "0 \<le> mr_buffers r" and "0 \<le> mr_cached r"
    and "mr_free r + mr_buffers r + mr_cached r < 2 ^ 64" and "0 \<le> mr_total r" and "mr_total r < 2 ^ 57"
  shows "(if free + cached \<le> tot then used + cached + free = tot else used = 0 \<and> tot < free + cached) \<and>
    0 \<le> mem_pct used tot \<and> mem_pct used tot \<le> 100 \<and> (0 < tot \<longrightarrow> mem_pct used tot = used * 100 div tot)"
proof -
  let ?c = "mr_buffers r + mr_cached r"
  have c: "u64 ?c = ?c" "u64 (mr_free r + ?c) = mr_free r + ?c" using assms by (simp_all add: u64_id)
  have v: "tot = mr_total r" "free = mr_free r" "cached = ?c"
    "used = (if mr_free r + ?c < mr_total r then mr_total r - mr_free r - ?c else 0)"
    using assms by (auto simp: mem_parts_def c Let_def u64_id)
  have "0 \<le> used" "used \<le> tot" "tot < 2 ^ 57" using v assms by auto
  have p: "u64 (used * 100) = used * 100" by (rule u64_id) (use \<open>0 \<le> used\<close> \<open>used \<le> tot\<close> \<open>tot < 2 ^ 57\<close> in simp_all)
  have pct: "mem_pct used tot = used * 100 div tot \<and> 0 \<le> used * 100 div tot \<and> used * 100 div tot \<le> 100" if "0 < tot"
  proof -
    have "used * 100 div tot \<le> 100" using that \<open>used \<le> tot\<close> zdiv_mono1 [of "used * 100" "tot * 100" tot] by simp
    moreover have "0 \<le> used * 100 div tot" using that \<open>0 \<le> used\<close> by (simp add: pos_imp_zdiv_nonneg_iff)
    ultimately show ?thesis using that by (simp add: mem_pct_def p Let_def mod_pos_pos_trivial)
  qed
  have "if free + cached \<le> tot then used + cached + free = tot else used = 0 \<and> tot < free + cached"
    using v by auto
  moreover have "0 \<le> mem_pct used tot \<and> mem_pct used tot \<le> 100"
    using pct by (cases "0 < tot") (simp_all add: mem_pct_def)
  ultimately show ?thesis using pct by blast
qed

theorem memory_adds_up_witness:
  "mem_parts \<lparr>mr_total = 100, mr_free = 60, mr_buffers = 30, mr_cached = 20\<rparr> = (100, 60, 50, 0) \<and>
   0 \<le> mem_pct 0 100"
proof -
  have m: "mem_parts \<lparr>mr_total = 100, mr_free = 60, mr_buffers = 30, mr_cached = 20\<rparr> = (100, 60, 50, 0)"
    by (simp add: mem_parts_def u64_def)
  from memory_adds_up [OF m] m show ?thesis by simp
qed

text \<open>Whatever \<open>/proc/meminfo\<close> says, the memory in use does not exceed the total: the difference wraps back into range.\<close>

lemma mem_total_bounds:
  "0 \<le> mr_total r \<and> mr_total r < 2 ^ 64 \<Longrightarrow> 0 \<le> mr_total (fold mem_line ls r) \<and> mr_total (fold mem_line ls r) < 2 ^ 64"
proof (induction ls arbitrary: r)
  case (Cons l ls)
  have "0 \<le> parseKB l \<and> parseKB l < 2 ^ 64" using parse_uint64_bounds by (simp add: parseKB_def Let_def)
  then show ?case using Cons by (simp add: mem_line_def)
qed simp

lemma readMemFull_bounds:
  assumes "readMemFull m = (tot, free, cached, used)"
  shows "0 \<le> used \<and> used \<le> tot \<and> tot < 2 ^ 64"
proof -
  define r where "r = fold mem_line (lines_of (read_or_empty m ''/proc/meminfo''))
       \<lparr>mr_total = 0, mr_free = 0, mr_buffers = 0, mr_cached = 0\<rparr>"
  have t: "0 \<le> mr_total r" "mr_total r < 2 ^ 64"
    using mem_total_bounds [of "\<lparr>mr_total = 0, mr_free = 0, mr_buffers = 0, mr_cached = 0\<rparr>"] by (auto simp: r_def)
  define c where "c = u64 (mr_buffers r + mr_cached r)"
  define x where "x = u64 (mr_free r + c)"
  have u: "tot = mr_total r" "used = (if x < mr_total r then u64 (mr_total r - mr_free r - c) else 0)"
    using assms by (auto simp: readMemFull_def mem_parts_def Let_def r_def [symmetric] c_def [symmetric] x_def [symmetric])
  have "u64 (mr_total r - mr_free r - c) = u64 (mr_total r - x)"
    unfolding x_def u64_def by (simp add: mod_diff_right_eq algebra_simps)
  moreover have x: "0 \<le> x" by (simp add: x_def)
  moreover have "u64 (mr_total r - x) = mr_total r - x" if "x < mr_total r"
    by (rule u64_id) (use that t(2) x in linarith)+
  ultimately show ?thesis using u t by (auto split: if_splits)
qed

lemma mem_pct_bounds: "0 \<le> mem_pct part whole \<and> mem_pct part whole \<le> 100"
  by (simp add: mem_pct_def Let_def)

text \<open>
  The counters of the kernel are read as they are: when the idle time goes back, as the waiting for input and output in it may, the difference wraps
  around and the usage is far below zero.
\<close>

theorem idle_underflow:
  assumes "1 \<le> i" and "0 < d" and "d < 2 ^ 64 - 1"
  shows "fst (cpuPercentAll [(''cpu'', \<lparr>idle = i, total = t\<rparr>)] [(''cpu'', \<lparr>idle = i - 1, total = t + d\<rparr>)]) < 0"
proof -
  have u: "u64 (i - 1 - i) = 2 ^ 64 - 1" "u64 (t + d - t) = d"
    using assms by (simp_all add: u64_def)
  have "deltas [(''cpu'', \<lparr>idle = i, total = t\<rparr>)] [(''cpu'', \<lparr>idle = i - 1, total = t + d\<rparr>)] = [(''cpu'', 2 ^ 64 - 1, d)]"
    unfolding deltas_def using u assms(2) by (simp add: List.map_filter_simps Let_def)
  moreover have "busy (2 ^ 64 - 1) d < 0"
  proof -
    have "(of_int d :: rat) < of_int (2 ^ 64 - 1)" using assms(3) by (simp only: of_int_less_iff)
    moreover have "(0 :: rat) < of_int d" using assms(2) by simp
    ultimately show ?thesis by (simp only: busy_def less_divide_eq_1_pos diff_less_0_iff_less)
  qed
  ultimately show ?thesis by (simp add: cpuPercentAll_def Let_def average_def)
qed

theorem idle_underflow_witness:
  "fst (cpuPercentAll [(''cpu'', \<lparr>idle = 500, total = 9000\<rparr>)] [(''cpu'', \<lparr>idle = 499, total = 9200\<rparr>)]) < 0"
  using idle_underflow [of 500 200 9000] by simp

end
