(* ===== verification/DeviceCatalog.thy ===== *)
theory DeviceCatalog
  imports GoPrelude
begin

text \<open>
  The tables of \<open>sse\<close> that the identification of network neighbours reads: the device types
  with an icon (\<open>validDeviceTypes\<close>, and the generated \<open>validExtendedDeviceTypes\<close> and
  \<open>validStorageDeviceTypes\<close>), the hypervisor prefixes, the embedded OUI groups and the service
  hints. A Go map with value \<open>true\<close> is the list of its keys; a map of strings is an association list.
\<close>

definition validDeviceTypes :: "string list" where
  "validDeviceTypes =
     [''desktop'', ''laptop'', ''server'', ''nas'', ''storage'', ''printer'', ''phone'', ''tablet'',
      ''router'', ''switch'', ''accesspoint'', ''camera'', ''tv'', ''iot'', ''unknown'']"

definition validExtendedDeviceTypes :: "string list" where
  "validExtendedDeviceTypes =
     [''3d_printer'', ''4g_5g_modem'', ''access_point'', ''air_quality_co2'', ''aircraft_transponder'',
      ''airplane'', ''alarm_clock'', ''alarm_control_panel'', ''alarm_siren'', ''arduino_board'',
      ''autonomous_robot_vehicle'', ''backup'', ''battery'', ''bicycle_ebike'', ''ble'', ''bluray'', ''boat'',
      ''breadboard'', ''bridge'', ''bus'', ''camera_module'', ''can_bus'', ''car'', ''cd_dvd'', ''cfexpress'',
      ''cloud'', ''cloud_storage'', ''cluster'', ''das_enclosure'', ''dashcam'', ''database'',
      ''door_contact'', ''drone_controller'', ''edsff_e1s'', ''edsff_e3s'', ''emmc_chip'',
      ''encryption_storage'', ''esp32_board'', ''ev_charger'', ''ev_vehicle'', ''fibre_channel_fabric'',
      ''fibre_link'', ''firewall'', ''fixed_wing_drone'', ''fleet_tracking'', ''floppy'',
      ''garden_irrigation'', ''gateway'', ''gps_module'', ''gps_tracker'', ''gpu_card'', ''gpu_server'',
      ''hdd_25'', ''hdd_35'', ''hdd_enterprise'', ''helicopter'', ''hot_swap_bay'', ''hub_domotique'',
      ''humidity'', ''hypervisor'', ''imu_accelerometer'', ''iot_sensor_module'', ''ip_camera'', ''iscsi'',
      ''jbod_array'', ''jet_ski'', ''light_strip'', ''load_balancer'', ''lorawan'', ''lto_tape'', ''m2_nvme'',
      ''m2_sata'', ''marine_ais'', ''microbit'', ''microcontroller'', ''microsd'', ''motion_pir'',
      ''motorcycle'', ''msata'', ''nas'', ''network_nas'', ''nfc_rfid'', ''nfs_share'', ''nic_ethernet'',
      ''nic_fibre_sfp'', ''nvme_protocol'', ''obd2_diagnostic'', ''object_storage'', ''oled_display'',
      ''partition'', ''pcie_slot'', ''pcie_ssd'', ''quadcopter'', ''rack'', ''radar_lidar'', ''raid_array'',
      ''raid_controller'', ''ram_disk'', ''raspberry_pi'', ''relay_module'', ''replication'',
      ''reverse_proxy'', ''robot'', ''rom_flash_chip'', ''router_wan'', ''rtc_module'', ''sailboat'', ''san'',
      ''sas_backplane'', ''sas_connector'', ''sas_hba'', ''sata_connector'', ''satellite'', ''scooter'',
      ''sd_card'', ''security_shield'', ''server_1u'', ''server_2u'', ''servo_motor'', ''sfp_fibre_channel'',
      ''sfp_module'', ''smart_blind'', ''smart_bulb'', ''smart_doorbell'', ''smart_garage'', ''smart_helmet'',
      ''smart_home'', ''smart_lock'', ''smart_meter'', ''smart_plug'', ''smart_speaker'', ''smart_switch'',
      ''smart_tv'', ''smart_valve'', ''smb_share'', ''smoke_detector'', ''snapshot'', ''solar_panel'',
      ''ssd_nvme_25'', ''ssd_sata_25'', ''stepper_motor'', ''stm32_board'', ''storage_array'',
      ''storage_gateway'', ''storage_monitor'', ''storage_pool'', ''storage_rack'', ''switch_16_ports'',
      ''switch_24_ports'', ''switch_48_ports'', ''switch_8_ports'', ''tape_library'', ''telemetry_module'',
      ''temperature'', ''terminal'', ''thermostat'', ''thermostatic_valve'', ''thread'', ''thunderbolt'',
      ''tire_pressure_tpms'', ''train'', ''truck'', ''u2_ssd'', ''u3_ssd'', ''ufs_chip'', ''usb_c_storage'',
      ''usb_flash_drive'', ''usb_storage'', ''vehicle_charging_station'', ''vehicle_ecu'', ''vif'',
      ''virtual_machine'', ''volume'', ''vpn_tunnel'', ''wall_clock'', ''water_leak'', ''weather_station'',
      ''xfs_filesystem'', ''zigbee'', ''zwave'']"

definition validStorageDeviceTypes :: "string list" where
  "validStorageDeviceTypes =
     [''backup'', ''bluray'', ''cd_dvd'', ''cfexpress'', ''cloud_storage'', ''das_enclosure'', ''edsff_e1s'',
      ''edsff_e3s'', ''emmc_chip'', ''encryption_storage'', ''fibre_channel_fabric'', ''floppy'', ''hdd_25'',
      ''hdd_35'', ''hdd_enterprise'', ''hot_swap_bay'', ''iscsi'', ''jbod_array'', ''lto_tape'', ''m2_nvme'',
      ''m2_sata'', ''microsd'', ''msata'', ''nas'', ''nfs_share'', ''nvme_protocol'', ''object_storage'',
      ''partition'', ''pcie_slot'', ''pcie_ssd'', ''raid_array'', ''raid_controller'', ''ram_disk'',
      ''replication'', ''rom_flash_chip'', ''san'', ''sas_backplane'', ''sas_connector'', ''sas_hba'',
      ''sata_connector'', ''sd_card'', ''sfp_fibre_channel'', ''smb_share'', ''snapshot'', ''ssd_nvme_25'',
      ''ssd_sata_25'', ''storage_gateway'', ''storage_monitor'', ''storage_pool'', ''storage_rack'',
      ''tape_library'', ''thunderbolt'', ''u2_ssd'', ''u3_ssd'', ''ufs_chip'', ''usb_c_storage'',
      ''usb_flash_drive'', ''usb_storage'', ''volume'', ''xfs_filesystem'']"

definition virtualOUIs :: "(string \<times> string) list" where
  "virtualOUIs =
     [(''00:16:3e'', ''Xen''), (''00:05:69'', ''VMware''), (''00:0c:29'', ''VMware''),
      (''00:1c:14'', ''VMware''), (''00:50:56'', ''VMware''), (''08:00:27'', ''VirtualBox''),
      (''52:54:00'', ''QEMU/KVM''), (''00:15:5d'', ''Microsoft Hyper-V''), (''00:1c:42'', ''Parallels'')]"

record oui_group =
  group_vendor :: string
  group_type :: string
  group_prefixes :: "string list"

definition oui_group_of :: "string \<Rightarrow> string \<Rightarrow> string list \<Rightarrow> oui_group" where
  "oui_group_of v t ps = \<lparr>group_vendor = v, group_type = t, group_prefixes = ps\<rparr>"

definition embeddedOUIGroups :: "oui_group list" where
  "embeddedOUIGroups =
     [oui_group_of ''Raspberry Pi Foundation'' ''raspberry_pi''
         [''b8:27:eb'', ''dc:a6:32'', ''e4:5f:01'', ''2c:cf:67'', ''d8:3a:dd'', ''28:cd:c1''],
      oui_group_of ''Espressif'' ''esp32_board''
         [''24:0a:c4'', ''24:6f:28'', ''30:ae:a4'', ''3c:61:05'', ''3c:71:bf'', ''40:91:51'', ''44:17:93'',
          ''48:27:e2'', ''4c:11:ae'', ''54:5a:a6'', ''5c:cf:7f'', ''60:01:94'', ''68:c6:3a'', ''7c:9e:bd'',
          ''7c:df:a1'', ''84:0d:8e'', ''84:cc:a8'', ''84:f3:eb'', ''8c:aa:b5'', ''90:38:0c'', ''94:b5:55'',
          ''a0:20:a6'', ''a4:cf:12'', ''ac:67:b2'', ''b4:e6:2d'', ''bc:dd:c2'', ''c4:4f:33'', ''cc:50:e3'',
          ''d8:a0:1d'', ''d8:bf:c0'', ''dc:4f:22'', ''e8:68:e7'', ''e8:db:84'', ''ec:fa:bc'', ''f0:08:d1'',
          ''f4:cf:a2'', ''fc:f5:c4''],
      oui_group_of ''Arduino'' ''arduino_board''
         [''90:a2:da'', ''60:45:bd'', ''74:c2:46'', ''a8:61:0a''],
      oui_group_of ''Hikvision'' ''camera''
         [''44:19:b6'', ''bc:ad:28'', ''4c:bd:8f'', ''a4:14:37''],
      oui_group_of ''Dahua'' ''camera''
         [''3c:ef:8c'', ''90:02:a9'', ''e0:50:8b''],
      oui_group_of ''Axis Communications'' ''camera''
         [''00:40:8c''],
      oui_group_of ''Wyze'' ''camera''
         [''2c:aa:8e'', ''7c:78:b2''],
      oui_group_of ''Sonos'' ''smart_speaker''
         [''00:0e:58'', ''5c:aa:fd'', ''78:28:ca'', ''94:9f:3e'', ''b8:e9:37''],
      oui_group_of ''Signify (Philips Hue)'' ''smart_bulb''
         [''00:17:88''],
      oui_group_of ''Roku'' ''streaming_player''
         [''b0:a7:37'', ''cc:6d:a0'', ''dc:3a:5e''],
      oui_group_of ''Synology'' ''nas''
         [''00:11:32'', ''90:09:d0''],
      oui_group_of ''QNAP'' ''nas''
         [''24:5e:be'', ''00:08:9b''],
      oui_group_of ''Western Digital'' ''nas''
         [''00:90:a9'', ''00:14:ee''],
      oui_group_of ''Brother Industries'' ''printer''
         [''00:80:77'', ''30:05:5c''],
      oui_group_of ''Seiko Epson'' ''printer''
         [''00:00:48'', ''38:9d:92''],
      oui_group_of ''Lexmark'' ''printer''
         [''00:04:00'', ''00:21:b7''],
      oui_group_of ''Zebra Technologies'' ''printer''
         [''00:07:4d''],
      oui_group_of ''MikroTik'' ''router''
         [''4c:5e:0c'', ''6c:3b:6b'', ''2c:c8:1b'', ''74:4d:28'', ''18:fd:74''],
      oui_group_of ''Aruba Networks'' ''accesspoint''
         [''00:0b:86'', ''24:de:c6''],
      oui_group_of ''Ruckus Wireless'' ''accesspoint''
         [''24:c9:a1'', ''c4:01:7c''],
      oui_group_of ''Fortinet'' ''firewall''
         [''00:09:0f'', ''70:4c:a5''],
      oui_group_of ''Sophos'' ''firewall''
         [''00:1a:8c''],
      oui_group_of ''Supermicro'' ''server''
         [''00:25:90'', ''3c:ec:ef'', ''ac:1f:6b''],
      oui_group_of ''Tuya Smart'' ''iot''
         [''18:69:d8'', ''50:02:91'', ''68:57:2d''],
      oui_group_of ''TP-Link'' ''''
         [''00:1d:0f'', ''14:cc:20'', ''30:b5:c2'', ''50:c7:bf'', ''54:c8:0f'', ''60:32:b1'', ''a4:2b:b0'',
          ''ac:84:c6'', ''c0:06:c3'', ''c4:6e:1f'', ''ec:08:6b'', ''f4:f2:6d''],
      oui_group_of ''Ubiquiti'' ''''
         [''04:18:d6'', ''24:a4:3c'', ''44:d9:e7'', ''68:d7:9a'', ''74:ac:b9'', ''78:45:58'', ''80:2a:a8'',
          ''b4:fb:e4'', ''dc:9f:db'', ''f0:9f:c2''],
      oui_group_of ''Apple'' ''''
         [''00:03:93'', ''3c:22:fb'', ''a4:83:e7'', ''d0:81:7a'', ''f0:18:98''],
      oui_group_of ''Samsung Electronics'' ''''
         [''00:12:fb'', ''34:23:ba'', ''5c:0a:5b'', ''78:1f:db'', ''8c:77:12'', ''e4:7c:f9''],
      oui_group_of ''LG Electronics'' ''''
         [''00:1c:62'', ''2c:54:cf'', ''58:a2:b5'', ''a8:16:b2''],
      oui_group_of ''Amazon Technologies'' ''''
         [''44:65:0d'', ''68:37:e9'', ''74:c2:46'', ''f0:27:2d''],
      oui_group_of ''Google'' ''''
         [''3c:5a:b4'', ''54:60:09'', ''f4:f5:d8''],
      oui_group_of ''NETGEAR'' ''''
         [''20:4e:7f'', ''a0:40:a0'', ''00:14:6c''],
      oui_group_of ''Cisco Systems'' ''''
         [''00:00:0c'', ''00:1b:0c'', ''00:1e:13''],
      oui_group_of ''Dell'' ''''
         [''00:14:22'', ''b8:2a:72'', ''f8:bc:12''],
      oui_group_of ''Hewlett Packard'' ''''
         [''00:1e:0b'', ''3c:d9:2b'', ''9c:b6:54''],
      oui_group_of ''Intel Corporate'' ''''
         [''00:1b:21'', ''3c:97:0e'', ''7c:5c:f8'']]"

definition serviceDeviceHints :: "(string \<times> string) list" where
  "serviceDeviceHints =
     [(''ipp'', ''printer''), (''ipps'', ''printer''), (''printer'', ''printer''),
      (''jetdirect'', ''printer''), (''9100'', ''printer''), (''rtsp'', ''camera''), (''onvif'', ''camera''),
      (''554'', ''camera''), (''smb'', ''nas''), (''afp'', ''nas''), (''nfs'', ''nas''), (''445'', ''nas''),
      (''airplay'', ''smart_speaker''), (''raop'', ''smart_speaker''), (''sonos'', ''smart_speaker''),
      (''hue'', ''smart_bulb''), (''zigbee'', ''smart_bulb''), (''mqtt'', ''iot''), (''coap'', ''iot''),
      (''ssh'', ''server''), (''rdp'', ''desktop''), (''googlecast'', ''streaming_player''),
      (''chromecast'', ''streaming_player'')]"

end
