(* ===== verification/Neighbors.thy ===== *)
theory Neighbors
  imports Machine NetIP
begin

text \<open>
  The names of network neighbours (\<open>sse/metrics.go\<close>): the device type a hostname suggests, and
  the metadata the collector gathers from the Kea leases, the Kea reservations and the hosts file.
\<close>

section \<open>Hostnames\<close>

definition normalizeMAC :: "string \<Rightarrow> string" where
  "normalizeMAC mac = to_lower (replace_byte CHR ''-'' CHR '':'' (trim_space mac))"

definition token_sep :: "char \<Rightarrow> bool" where
  "token_sep c \<longleftrightarrow> c \<in> {CHR ''-'', CHR ''.'', CHR '':'', CHR ''/''}"

definition hostnameContainsToken :: "string \<Rightarrow> string \<Rightarrow> bool" where
  "hostnameContainsToken name token =
     (if token = ''cam-'' then has_prefix name token
      else token \<in> set (fields_func token_sep name) \<or> (contains name token \<and> 5 \<le> length token))"

definition hostname_patterns :: "(string \<times> string list) list" where
  "hostname_patterns =
     [(''reverse_proxy'', [''reverse-proxy'', ''reverseproxy'']),
      (''smart_tv'', [''hisense'', ''bravia'', ''webos'', ''smarttv'']),
      (''tv'', [''tv'', ''television'']),
      (''phone'', [''phone'', ''iphone'', ''android'', ''xiaomi'', ''pixel'', ''galaxy'', ''mobile'']),
      (''printer'', [''printer'', ''brother'', ''laserjet'', ''deskjet'', ''officejet'']),
      (''nas'', [''nas'', ''synology'', ''qnap'']),
      (''accesspoint'', [''access-point'', ''accesspoint'', ''unifi'', ''airport'']),
      (''router'', [''router'', ''gateway'', ''firewall'']),
      (''camera'', [''camera'', ''webcam'', ''doorbell'', ''cam-'']),
      (''laptop'', [''laptop'', ''notebook'', ''macbook'']),
      (''desktop'', [''workstation'', ''desktop'', ''windows-pc'', ''computer'', ''trinity-install'']),
      (''server'', [''server'', ''hypervisor'', ''proxmox'', ''truenas''])]"

definition canonical_hostname :: "string \<Rightarrow> string" where
  "canonical_hostname hostname =
     map (\<lambda>c. if c = CHR ''_'' \<or> c = CHR '' '' then CHR ''-'' else c)
       (to_lower (trim_cutset (trim_space hostname) ''.''))"

definition deviceTypeForHostname :: "string \<Rightarrow> string" where
  "deviceTypeForHostname hostname =
     (case List.find (\<lambda>(ty, ws). list_ex (hostnameContainsToken (canonical_hostname hostname)) ws) hostname_patterns of
        None \<Rightarrow> ''unknown''
      | Some (ty, _) \<Rightarrow> ty)"

definition containsString :: "string list \<Rightarrow> string \<Rightarrow> bool" where
  "containsString vs wanted \<longleftrightarrow> list_ex (\<lambda>v. equal_fold v wanted) vs"

section \<open>Metadata\<close>

record neighbor_metadata =
  nm_hostname :: string
  nm_ip :: string
  nm_mac :: string

definition no_metadata :: neighbor_metadata where
  "no_metadata = \<lparr>nm_hostname = [], nm_ip = [], nm_mac = []\<rparr>"

type_synonym metadata = "string \<Rightarrow> neighbor_metadata option"

definition ip_key :: "string \<Rightarrow> string" where
  "ip_key ip = ''ip:'' @ ip"

definition mac_key :: "string \<Rightarrow> string" where
  "mac_key mac = ''mac:'' @ mac"

definition metadataForNeighbor :: "metadata \<Rightarrow> string \<Rightarrow> string \<Rightarrow> neighbor_metadata" where
  "metadataForNeighbor md ip mac =
     (case md (ip_key ip) of
        Some m \<Rightarrow> m
      | None \<Rightarrow> (case md (mac_key (normalizeMAC mac)) of Some m \<Rightarrow> m | None \<Rightarrow> no_metadata))"

definition clean_metadata :: "neighbor_metadata \<Rightarrow> neighbor_metadata" where
  "clean_metadata m =
     m\<lparr>nm_hostname := trim_cutset (trim_space (nm_hostname m)) ''.'', nm_mac := normalizeMAC (nm_mac m)\<rparr>"

text \<open>An entry that exists is kept.\<close>

definition insert_new :: "string \<Rightarrow> neighbor_metadata \<Rightarrow> metadata \<Rightarrow> metadata" where
  "insert_new k m md = (if md k \<noteq> None then md else md(k \<mapsto> m))"

definition storeNeighborMetadata :: "neighbor_metadata \<Rightarrow> metadata \<Rightarrow> metadata" where
  "storeNeighborMetadata m0 md =
     (let m = clean_metadata m0
      in if nm_hostname m = [] then md
         else
           let md1 = (if nm_ip m \<noteq> [] then insert_new (ip_key (nm_ip m)) m md else md)
           in if nm_mac m \<noteq> [] then insert_new (mac_key (nm_mac m)) m md1 else md1)"

section \<open>The hosts file\<close>

definition host_entry :: "string \<Rightarrow> neighbor_metadata option" where
  "host_entry line =
     (let fs = GoPrelude.fields (hd (split_on CHR ''#'' line))
      in if length fs < 2 \<or> parse_ip (fs ! 0) = None then None
         else if fs ! 1 = ''localhost'' \<or> has_prefix (fs ! 1) ''localhost.'' then None
         else Some \<lparr>nm_hostname = fs ! 1, nm_ip = fs ! 0, nm_mac = []\<rparr>)"

definition readHostsMetadata :: "machine \<Rightarrow> string \<Rightarrow> metadata \<Rightarrow> metadata" where
  "readHostsMetadata m p md =
     (case m_read m p of
        None \<Rightarrow> md
      | Some d \<Rightarrow> fold storeNeighborMetadata (List.map_filter host_entry (lines_of d)) md)"

section \<open>The Kea lease files\<close>

text \<open>
  A reader of \<open>encoding/csv\<close> over an open file, as its answers to successive calls of \<open>Read\<close>:
  \<open>csv n\<close> is the answer to the \<open>n\<close>-th call.
\<close>

datatype csv_answer = Row "string list" | CsvError | CsvEOF

type_synonym csv_reader = "nat \<Rightarrow> csv_answer"

record lease_file =
  lf_path :: string
  lf_mtime :: "int option"          \<comment> \<open>\<open>os.Stat\<close>\<close>
  lf_csv :: "csv_reader option"     \<comment> \<open>\<open>None\<close> when \<open>os.Open\<close> fails\<close>

text \<open>Only \<open>dhcp4.leases\<close> itself and its numbered copies count.\<close>

definition lease_name_ok :: "string \<Rightarrow> bool" where
  "lease_name_ok p =
     (let suffix = trim_prefix (base_name p) ''dhcp4.leases''
      in suffix = [] \<or> (hd suffix = CHR ''.'' \<and> trim_cutset (tl suffix) ''0123456789'' = []))"

fun column_index :: "string \<Rightarrow> string list \<Rightarrow> nat \<Rightarrow> nat option" where
  "column_index name [] i = None"
| "column_index name (h # hs) i =
     (case column_index name hs (Suc i) of
        Some j \<Rightarrow> Some j \<comment> \<open>a later column of the same name overwrites the earlier one\<close>
      | None \<Rightarrow> if trim_space h = name then Some i else None)"

definition lease_value :: "string list \<Rightarrow> string list \<Rightarrow> string \<Rightarrow> string" where
  "lease_value hdr row name =
     (case column_index name hdr 0 of None \<Rightarrow> [] | Some i \<Rightarrow> if i < length row then row ! i else [])"

definition lease_entry :: "string list \<Rightarrow> string list \<Rightarrow> neighbor_metadata" where
  "lease_entry hdr row =
     \<lparr>nm_hostname = lease_value hdr row ''hostname'', nm_ip = lease_value hdr row ''address'',
      nm_mac = lease_value hdr row ''hwaddr''\<rparr>"

text \<open>
  The loop over the rows: an error is skipped, only the end of the file leaves the loop. The value
  is \<open>None\<close> when it never does.
\<close>

partial_function (option) lease_rows :: "csv_reader \<Rightarrow> string list \<Rightarrow> nat \<Rightarrow> metadata \<Rightarrow> metadata option" where
  "lease_rows csv hdr n md =
     (case csv n of
        CsvEOF \<Rightarrow> Some md
      | CsvError \<Rightarrow> lease_rows csv hdr (Suc n) md
      | Row r \<Rightarrow> lease_rows csv hdr (Suc n) (storeNeighborMetadata (lease_entry hdr r) md))"

definition read_lease_file :: "lease_file \<Rightarrow> metadata \<Rightarrow> metadata option" where
  "read_lease_file f md =
     (case lf_csv f of
        None \<Rightarrow> Some md
      | Some csv \<Rightarrow> (case csv 0 of Row hdr \<Rightarrow> lease_rows csv hdr 1 md | _ \<Rightarrow> Some md))"

fun read_lease_files :: "lease_file list \<Rightarrow> metadata \<Rightarrow> metadata option" where
  "read_lease_files [] md = Some md"
| "read_lease_files (f # fs) md = Option.bind (read_lease_file f md) (read_lease_files fs)"

text \<open>
  The files that \<open>filepath.Glob\<close> finds, newest first; files of one age keep their order, as the insertion sort
  of \<open>sort.Slice\<close> leaves them when there are at most twelve.
\<close>

definition lease_candidates :: "lease_file list \<Rightarrow> lease_file list" where
  "lease_candidates fs = filter (\<lambda>f. lease_name_ok (lf_path f) \<and> lf_mtime f \<noteq> None) fs"

definition readKeaLeaseMetadata :: "lease_file list \<Rightarrow> metadata \<Rightarrow> metadata option" where
  "readKeaLeaseMetadata found md =
     read_lease_files (sort_key (\<lambda>f. - the (lf_mtime f)) (lease_candidates found)) md"

section \<open>The Kea reservations\<close>

text \<open>
  \<open>json.Unmarshal\<close> of the configuration: the reservations of each subnet as address, hardware
  address and hostname, \<open>None\<close> when it fails.
\<close>

definition readKeaReservationMetadata ::
  "(string \<Rightarrow> (string \<times> string \<times> string) list list option) \<Rightarrow> machine \<Rightarrow> string \<Rightarrow> metadata \<Rightarrow> metadata" where
  "readKeaReservationMetadata unmarshal m p md =
     (case Option.bind (m_read m p) unmarshal of
        None \<Rightarrow> md
      | Some subnets \<Rightarrow>
          fold (\<lambda>(ip, mac, h). storeNeighborMetadata \<lparr>nm_hostname = h, nm_ip = ip, nm_mac = mac\<rparr>) (concat subnets) md)"

definition readKeaNeighborMetadata ::
  "(string \<Rightarrow> (string \<times> string \<times> string) list list option) \<Rightarrow> lease_file list \<Rightarrow> machine \<Rightarrow> metadata option" where
  "readKeaNeighborMetadata unmarshal leases m =
     map_option (\<lambda>md. readHostsMetadata m ''/etc/hosts''
                  (readKeaReservationMetadata unmarshal m ''/etc/kea/kea-dhcp4.conf'' md))
       (readKeaLeaseMetadata leases Map.empty)"

section \<open>What the metadata holds\<close>

text \<open>The bindings a record asks for.\<close>

definition meta_entries :: "neighbor_metadata \<Rightarrow> (string \<times> neighbor_metadata) list" where
  "meta_entries m0 =
     (let m = clean_metadata m0
      in if nm_hostname m = [] then []
         else (if nm_ip m \<noteq> [] then [(ip_key (nm_ip m), m)] else []) @
              (if nm_mac m \<noteq> [] then [(mac_key (nm_mac m), m)] else []))"

lemma insert_new_map_of: "insert_new k m (map_of es) = map_of (es @ [(k, m)])"
  by (auto simp: insert_new_def map_add_def fun_eq_iff split: option.splits)

lemma store_map_of: "storeNeighborMetadata m (map_of es) = map_of (es @ meta_entries m)"
  by (simp add: storeNeighborMetadata_def meta_entries_def Let_def insert_new_map_of del: map_of_append)

lemma fold_store_map_of: "fold storeNeighborMetadata ms (map_of es) = map_of (es @ concat (map meta_entries ms))"
  by (induction ms arbitrary: es) (simp_all add: store_map_of del: map_of_append)

text \<open>The reader of a file that gives these answers and then ends.\<close>

definition csv_of :: "csv_answer list \<Rightarrow> csv_reader" where
  "csv_of as n = (if n < length as then as ! n else CsvEOF)"

lemma csv_of_simps [simp]: "csv_of (ps @ a # as) (length ps) = a" "csv_of (a # as) 0 = a"
  by (simp_all add: csv_of_def)

fun rows_until_eof :: "csv_answer list \<Rightarrow> string list list" where
  "rows_until_eof [] = []"
| "rows_until_eof (Row r # as) = r # rows_until_eof as"
| "rows_until_eof (CsvError # as) = rows_until_eof as"
| "rows_until_eof (CsvEOF # as) = []"

fun file_records :: "csv_answer list \<Rightarrow> neighbor_metadata list" where
  "file_records (Row hdr # as) = map (lease_entry hdr) (rows_until_eof as)"
| "file_records as = []"

lemma lease_rows_csv_of:
  "lease_rows (csv_of (ps @ as)) hdr (length ps) md =
     Some (fold (\<lambda>r. storeNeighborMetadata (lease_entry hdr r)) (rows_until_eof as) md)"
proof (induction as arbitrary: ps md)
  case Nil
  then show ?case by (simp add: lease_rows.simps csv_of_def)
next
  case (Cons a as)
  show ?case
    using Cons.IH [of "ps @ [a]"] by (cases a; subst lease_rows.simps) simp_all
qed

lemma read_lease_file_csv_of:
  "lf_csv f = Some (csv_of as) \<Longrightarrow> read_lease_file f md = Some (fold storeNeighborMetadata (file_records as) md)"
proof (cases as)
  case (Cons a as')
  assume f: "lf_csv f = Some (csv_of as)"
  show ?thesis
    using lease_rows_csv_of [of "[a]" as' _ md] f Cons
    by (cases a) (simp_all add: read_lease_file_def fold_map o_def)
qed (simp add: read_lease_file_def csv_of_def)

definition lease_records :: "(lease_file \<Rightarrow> csv_answer list option) \<Rightarrow> lease_file list \<Rightarrow> neighbor_metadata list" where
  "lease_records content fs =
     concat (map (\<lambda>f. case content f of None \<Rightarrow> [] | Some as \<Rightarrow> file_records as) fs)"

lemma read_lease_files_records:
  "\<forall>f \<in> set fs. lf_csv f = map_option csv_of (content f) \<Longrightarrow>
     read_lease_files fs md = Some (fold storeNeighborMetadata (lease_records content fs) md)"
proof (induction fs arbitrary: md)
  case (Cons f fs)
  then have f: "lf_csv f = map_option csv_of (content f)" by simp
  show ?case
    using Cons read_lease_file_csv_of [of f _ md] f
    by (cases "content f") (simp_all add: lease_records_def read_lease_file_def)
qed (simp add: lease_records_def)

text \<open>All records in the order they are read: leases from the newest file to the oldest, reservations, hosts.\<close>

definition all_records ::
  "(string \<Rightarrow> (string \<times> string \<times> string) list list option) \<Rightarrow> (lease_file \<Rightarrow> csv_answer list option) \<Rightarrow>
     lease_file list \<Rightarrow> machine \<Rightarrow> neighbor_metadata list" where
  "all_records unmarshal content leases m =
     lease_records content (sort_key (\<lambda>f. - the (lf_mtime f)) (lease_candidates leases)) @
     (case Option.bind (m_read m ''/etc/kea/kea-dhcp4.conf'') unmarshal of
        None \<Rightarrow> []
      | Some subnets \<Rightarrow>
          map (\<lambda>(ip, mac, h). \<lparr>nm_hostname = h, nm_ip = ip, nm_mac = mac\<rparr>) (concat subnets)) @
     (case m_read m ''/etc/hosts'' of None \<Rightarrow> [] | Some d \<Rightarrow> List.map_filter host_entry (lines_of d))"

lemma reservations_records:
  "readKeaReservationMetadata unmarshal m p md =
     fold storeNeighborMetadata
       (case Option.bind (m_read m p) unmarshal of
          None \<Rightarrow> []
        | Some subnets \<Rightarrow> map (\<lambda>(ip, mac, h). \<lparr>nm_hostname = h, nm_ip = ip, nm_mac = mac\<rparr>) (concat subnets)) md"
  by (auto simp: readKeaReservationMetadata_def fold_map o_def case_prod_unfold split: option.split)

lemma hosts_records:
  "readHostsMetadata m p md =
     fold storeNeighborMetadata (case m_read m p of None \<Rightarrow> [] | Some d \<Rightarrow> List.map_filter host_entry (lines_of d)) md"
  by (simp add: readHostsMetadata_def split: option.split)

lemma lease_rows_eof: "lease_rows csv hdr n md = Some md' \<Longrightarrow> \<exists>k. csv (n + k) = CsvEOF"
proof (induction rule: lease_rows.raw_induct [where P = "\<lambda>csv hdr n md md'. \<exists>k. csv (n + k) = CsvEOF", rotated, consumes 1, case_names step])
  case (step rec csv hdr n md md')
  have ih: "\<exists>k. csv (Suc n + k) = CsvEOF" if "rec csv hdr (Suc n) md1 = Some md'" for md1
    using step(1) [OF that] .
  have next_k: "\<exists>k. csv (Suc n + k) = CsvEOF \<Longrightarrow> \<exists>k. csv (n + k) = CsvEOF"
    by (metis add_Suc_shift)
  show ?case
  proof (cases "csv n")
    case CsvEOF
    then show ?thesis by (intro exI [of _ 0]) simp
  qed (use step(2) next_k [OF ih] in auto)
qed

section \<open>Properties\<close>


definition demo_lease :: lease_file where
  "demo_lease = \<lparr>lf_path = ''/var/lib/kea/dhcp4.leases'', lf_mtime = Some 7,
     lf_csv = Some (csv_of [Row [''address'', ''hwaddr'', ''hostname''], Row [''10.0.0.9'', ''aa:bb:cc:00:00:01'', ''old-name''],
                CsvError, Row [''10.0.0.9'', ''aa:bb:cc:00:00:01'', ''new-name'']])\<rparr>"


lemma lease_rows_halts: "csv (n + k) = CsvEOF \<Longrightarrow> lease_rows csv hdr n md \<noteq> None"
proof (induction k arbitrary: n md)
  case (Suc k)
  then show ?case by (cases "csv n") (simp_all add: lease_rows.simps [of csv hdr n])
qed (simp add: lease_rows.simps)

text \<open>A lease file whose reading ends: it does not open, its header cannot be read, or the reader comes to the end after it.\<close>

definition lease_ends :: "lease_file \<Rightarrow> bool" where
  "lease_ends f \<longleftrightarrow>
     (case lf_csv f of
        None \<Rightarrow> True
      | Some csv \<Rightarrow> (case csv 0 of Row _ \<Rightarrow> \<exists>k. csv (1 + k) = CsvEOF | _ \<Rightarrow> True))"

lemma read_lease_file_returns: "read_lease_file f md \<noteq> None \<longleftrightarrow> lease_ends f"
proof (cases "lf_csv f")
  case (Some csv)
  show ?thesis
  proof (cases "csv 0")
    case (Row hdr)
    have "lease_rows csv hdr 1 md \<noteq> None \<longleftrightarrow> (\<exists>k. csv (1 + k) = CsvEOF)"
      using lease_rows_eof [of csv hdr 1 md] lease_rows_halts [of csv 1 _ hdr md] by blast
    then show ?thesis using Some Row by (simp add: read_lease_file_def lease_ends_def)
  qed (simp_all add: Some read_lease_file_def lease_ends_def)
qed (simp add: read_lease_file_def lease_ends_def)

lemma read_lease_files_returns: "read_lease_files fs md \<noteq> None \<longleftrightarrow> list_all lease_ends fs"
proof (induction fs arbitrary: md)
  case (Cons f fs)
  then show ?case
    using read_lease_file_returns [of f md] by (cases "read_lease_file f md") simp_all
qed simp

text \<open>
  C36. Reading the lease files returns exactly if every file that is read does not open, or has a header that cannot be read, or is read to its end: rows the
  reader refuses are skipped, but a reader that keeps failing without an end, as on a device error, keeps the collector in the loop.
\<close>

theorem lease_files_return_iff:
  "readKeaLeaseMetadata leases md \<noteq> None \<longleftrightarrow>
     (\<forall>f \<in> set (lease_candidates leases).
        lf_csv f = None \<or> (\<exists>csv. lf_csv f = Some csv \<and> ((\<forall>hdr. csv 0 \<noteq> Row hdr) \<or> (\<exists>k. csv (Suc k) = CsvEOF))))"
proof -
  have "lease_ends f \<longleftrightarrow>
      lf_csv f = None \<or> (\<exists>csv. lf_csv f = Some csv \<and> ((\<forall>hdr. csv 0 \<noteq> Row hdr) \<or> (\<exists>k. csv (Suc k) = CsvEOF)))" for f
    by (auto simp: lease_ends_def split: option.splits csv_answer.splits)
  then show ?thesis
    using read_lease_files_returns [of "sort_key (\<lambda>f. - the (lf_mtime f)) (lease_candidates leases)" md]
    by (simp add: readKeaLeaseMetadata_def list_all_iff)
qed

text \<open>A reader that fails for ever: the file opens and has a header, and nothing is ever returned.\<close>

definition failing_lease :: lease_file where
  "failing_lease = \<lparr>lf_path = ''/var/lib/kea/dhcp4.leases'', lf_mtime = Some 7,
     lf_csv = Some (\<lambda>n. if n = 0 then Row [''address''] else CsvError)\<rparr>"

theorem lease_files_return_iff_witness:
  "readKeaLeaseMetadata [demo_lease] Map.empty \<noteq> None \<and> readKeaLeaseMetadata [failing_lease] Map.empty = None"
proof -
  have "lease_name_ok ''/var/lib/kea/dhcp4.leases''" by code_simp
  then have "lease_candidates [demo_lease] = [demo_lease]" "lease_candidates [failing_lease] = [failing_lease]"
    by (simp_all add: lease_candidates_def demo_lease_def failing_lease_def)
  moreover have "\<exists>csv. lf_csv demo_lease = Some csv \<and> (\<exists>k. csv (Suc k) = CsvEOF)"
    by (simp add: demo_lease_def csv_of_def) (rule exI [of _ 3], simp)
  moreover have "\<exists>csv. lf_csv failing_lease = Some csv \<and> csv 0 = Row [''address''] \<and> (\<forall>k. csv (Suc k) = CsvError)"
    by (simp add: failing_lease_def)
  ultimately show ?thesis
    using lease_files_return_iff [of "[demo_lease]" Map.empty] lease_files_return_iff [of "[failing_lease]" Map.empty] by auto
qed

end
