(* ===== verification/Float64.thy ===== *)
theory Float64
  imports Main
begin

text \<open>
  The additions and products of the few \<open>float64\<close> values the identification of neighbours
  compares. A non-negative double of this range is a natural number of units of \<open>2^-55\<close>; a
  result that needs more than 53 bits is rounded to the nearest double, ties to the even one, as
  IEEE 754 and Go prescribe.
\<close>

function bit_len :: "int \<Rightarrow> nat" where
  "bit_len n = (if n \<le> 0 then 0 else Suc (bit_len (n div 2)))"
  by pat_completeness auto
termination
  by (relation "measure nat") auto

declare bit_len.simps [simp del]

definition round53 :: "int \<Rightarrow> int" where
  "round53 n =
     (let p = 2 ^ (bit_len n - 53); q = n div p; r = n mod p
      in if p < 2 * r \<or> (2 * r = p \<and> odd q) then (q + 1) * p else q * p)"

definition f64_add :: "int \<Rightarrow> int \<Rightarrow> int" where
  "f64_add a b = round53 (a + b)"

definition f64_one :: int where
  "f64_one = 2 ^ 55"

text \<open>\<open>math.Round(x * 100)\<close>: the product is rounded first, then to the nearest integer, halves upwards.\<close>

definition f64_percent :: "int \<Rightarrow> int" where
  "f64_percent x = (round53 (100 * x) + 2 ^ 54) div 2 ^ 55"

lemma bit_len_lower: "0 < n \<Longrightarrow> 2 ^ (bit_len n - 1) \<le> n"
proof (induction n rule: bit_len.induct)
  case (1 n)
  show ?case
  proof (cases "n div 2 = 0")
    case True
    with 1 show ?thesis by (subst bit_len.simps) (simp add: bit_len.simps)
  next
    case False
    with 1 have pos: "0 < n div 2" by presburger
    then have "bit_len (n div 2) \<noteq> 0" by (subst bit_len.simps) simp
    then obtain k where k: "bit_len (n div 2) = Suc k" using not0_implies_Suc by blast
    have "2 ^ (bit_len (n div 2) - 1) \<le> n div 2" using 1 pos by simp
    with k have "2 ^ Suc k \<le> n" by simp
    with k have "2 ^ bit_len (n div 2) \<le> n" by simp
    then show ?thesis using 1 by (subst bit_len.simps) simp
  qed
qed

text \<open>A double of 53 bits is exact; rounding moves a value by at most one part in \<open>2^52\<close>.\<close>

lemma round53_exact: "n < 2 ^ 53 \<Longrightarrow> 0 \<le> n \<Longrightarrow> round53 n = n"
proof -
  assume n: "n < 2 ^ 53" "0 \<le> n"
  have "bit_len n \<le> 53"
  proof (rule ccontr)
    assume "\<not> bit_len n \<le> 53"
    then have b: "53 \<le> bit_len n - 1" "0 < n" using n by (auto simp: bit_len.simps [of 0] intro: ccontr)
    then have "(2::int) ^ 53 \<le> 2 ^ (bit_len n - 1)" by (intro power_increasing) auto
    with bit_len_lower [OF b(2)] n show False by linarith
  qed
  then show ?thesis by (simp add: round53_def)
qed

lemma round53_error:
  assumes "0 \<le> n"
  shows "round53 n \<le> n + n div 2 ^ 52" "n \<le> round53 n + n div 2 ^ 52" "0 \<le> round53 n"
proof -
  define p where "p = (2::int) ^ (bit_len n - 53)"
  have p: "0 < p" by (simp add: p_def)
  have split: "n = n div p * p + n mod p" "n mod p < p" "0 \<le> n mod p" using p by simp_all
  have small: "p \<le> n div 2 ^ 52 \<or> p = 1 \<and> 0 \<le> n div 2 ^ 52"
  proof (cases "bit_len n \<le> 53")
    case False
    then have "0 < n" using assms by (auto simp: bit_len.simps [of 0] intro: ccontr)
    have "p * 2 ^ 52 = 2 ^ (bit_len n - 1)"
      unfolding p_def power_add [symmetric] using False by (intro arg_cong2 [where f = power]) auto
    also have "\<dots> \<le> n" by (rule bit_len_lower [OF \<open>0 < n\<close>])
    finally have "p * 2 ^ 52 div 2 ^ 52 \<le> n div 2 ^ 52" by (rule zdiv_mono1) simp
    then show ?thesis by simp
  qed (use assms in \<open>simp add: p_def pos_imp_zdiv_nonneg_iff\<close>)
  have r: "round53 n = n div p * p \<or> round53 n = n div p * p + p \<and> p \<noteq> 1"
    using split(2,3) by (auto simp: round53_def Let_def p_def [symmetric] distrib_right)
  have nn: "0 \<le> n div p * p" using assms p by (simp add: pos_imp_zdiv_nonneg_iff)
  define a r d where "a = n div p * p" and "r = n mod p" and "d = n div 2 ^ 52"
  have "n = a + r" "r < p" "0 \<le> r" "0 \<le> a" "p \<le> d \<or> p = 1 \<and> 0 \<le> d" "round53 n = a \<or> round53 n = a + p \<and> p \<noteq> 1"
    using split small r nn by (simp_all only: a_def r_def d_def)
  then show "round53 n \<le> n + n div 2 ^ 52" "n \<le> round53 n + n div 2 ^ 52" "0 \<le> round53 n"
    unfolding d_def [symmetric] using p by (elim disjE; linarith)+
qed

lemma f64_percent_bound: "x \<le> f64_one \<Longrightarrow> 0 \<le> x \<Longrightarrow> f64_percent x \<le> 100 \<and> 0 \<le> f64_percent x"
proof -
  assume x0: "x \<le> f64_one" "0 \<le> x"
  then have x: "100 * x \<le> 100 * 2 ^ 55" "0 \<le> 100 * x" by (simp_all add: f64_one_def)
  then have "100 * x div 2 ^ 52 \<le> 100 * 2 ^ 55 div 2 ^ 52" by (intro zdiv_mono1) auto
  then have "round53 (100 * x) \<le> 100 * 2 ^ 55 + 800"
    using round53_error(1) [OF x(2)] x by simp
  then have "(round53 (100 * x) + 2 ^ 54) div 2 ^ 55 \<le> (100 * 2 ^ 55 + 800 + 2 ^ 54) div 2 ^ 55"
    by (intro zdiv_mono1) auto
  moreover have "0 \<le> f64_percent x" unfolding f64_percent_def
    using round53_error(3) [OF x(2)] by (simp add: pos_imp_zdiv_nonneg_iff)
  ultimately show ?thesis unfolding f64_percent_def by simp
qed

end
