(* ===== verification/Memo.thy ===== *)
theory Memo
  imports Main
begin

text \<open>
  The interface of a bounded memo table in front of a computation: a query is looked up under its
  key, a result that is missing is computed and stored, and a full table is emptied first. The
  client side needs two laws: what a lookup does, and that good queries with one key have one result.
\<close>

locale memo =
  fixes key :: "'q \<Rightarrow> 'k" and compute :: "'q \<Rightarrow> 'v option" and good :: "'q \<Rightarrow> bool" and limit :: nat
    and ask :: "'q \<Rightarrow> ('k \<times> 'v) list \<Rightarrow> ('v \<times> ('k \<times> 'v) list) option"
  assumes hit: "map_of c (key q) = Some v \<Longrightarrow> ask q c = Some (v, c)"
    and miss: "map_of c (key q) = None \<Longrightarrow>
      ask q c = map_option (\<lambda>v. (v, (key q, v) # (if limit \<le> length c then [] else c))) (compute q)"
    and key_sound: "good q \<Longrightarrow> good q' \<Longrightarrow> key q = key q' \<Longrightarrow> compute q = compute q'"
    and limit_pos: "0 < limit"
begin

text \<open>A table all of whose entries are results of good queries, within the limit.\<close>

definition coherent :: "('k \<times> 'v) list \<Rightarrow> bool" where
  "coherent c \<longleftrightarrow> distinct (map fst c) \<and> length c \<le> limit \<and>
     (\<forall>k v. (k, v) \<in> set c \<longrightarrow> (\<exists>q. good q \<and> key q = k \<and> compute q = Some v))"

lemma coherent_empty: "coherent []"
  by (simp add: coherent_def)

lemma ask_coherent:
  assumes "coherent c" and "good q" and "compute q \<noteq> None"
  shows "\<exists>c'. ask q c = Some (the (compute q), c') \<and> coherent c'"
proof (cases "map_of c (key q)")
  case (Some v)
  then have "(key q, v) \<in> set c" by (rule map_of_SomeD)
  then obtain q' where "good q'" "key q' = key q" "compute q' = Some v" using assms(1) by (auto simp: coherent_def)
  with key_sound [OF assms(2)] have "compute q = Some v" by metis
  with hit [OF Some] assms(1) show ?thesis by simp
next
  case None
  obtain v where v: "compute q = Some v" using assms(3) by blast
  have "key q \<notin> fst ` set c" using None by (simp add: map_of_eq_None_iff)
  then show ?thesis
    using miss [OF None] v assms(1,2) limit_pos by (auto simp: coherent_def)
qed

text \<open>A run of queries through one table.\<close>

fun run :: "'q list \<Rightarrow> ('k \<times> 'v) list \<Rightarrow> ('v list \<times> ('k \<times> 'v) list) option" where
  "run [] c = Some ([], c)"
| "run (q # qs) c =
     (case ask q c of
        None \<Rightarrow> None
      | Some (v, c') \<Rightarrow> map_option (\<lambda>(vs, c''). (v # vs, c'')) (run qs c'))"

lemma run_transparent:
  assumes "coherent c" and "\<forall>q \<in> set qs. good q \<and> compute q \<noteq> None"
  shows "\<exists>c'. run qs c = Some (map (the \<circ> compute) qs, c') \<and> coherent c'"
  using assms
proof (induction qs arbitrary: c)
  case (Cons q qs)
  obtain c1 where c1: "ask q c = Some (the (compute q), c1)" "coherent c1"
    using ask_coherent [OF Cons.prems(1)] Cons.prems(2) by auto
  obtain c' where "run qs c1 = Some (map (the \<circ> compute) qs, c')" "coherent c'"
    using Cons.IH [OF c1(2)] Cons.prems(2) by auto
  with c1 show ?case by simp
qed simp

end

end
