(* ===== verification/DeviceIdentity.thy ===== *)
theory DeviceIdentity
  imports DeviceCatalog Neighbors Float64 Memo
begin

text \<open>
  The identification of network neighbours (\<open>sse/device_identity.go\<close>): the OUI table, the passive
  signals and their scores, the manual inventory, and the cache in front of it. Weights and scores
  are doubles in the units of \<open>Float64\<close>; the confidence is in hundredths.
\<close>

section \<open>Device types\<close>

definition isNetworkDeviceType :: "string \<Rightarrow> bool" where
  "isNetworkDeviceType deviceType0 =
     (let deviceType = to_lower (trim_space deviceType0)
      in if deviceType = [] \<or> deviceType = ''unknown'' \<or> deviceType = ''storage'' then False
         else if deviceType \<in> set validDeviceTypes then True
         else
           let networkStorage = (deviceType = ''nas'' \<or> deviceType = ''san'')
           in deviceType \<in> set validExtendedDeviceTypes \<and>
              (deviceType \<notin> set validStorageDeviceTypes \<or> networkStorage))"

definition inventory_sep :: "char \<Rightarrow> bool" where
  "inventory_sep c \<longleftrightarrow> c \<in> {CHR '','', CHR '';'', CHR '' '', CHR 0x0A, CHR 0x09}"

definition override_entry :: "string \<Rightarrow> string \<Rightarrow> string option" where
  "override_entry ip entry =
     (case cut CHR ''='' entry of (k, v, ok) \<Rightarrow>
        if \<not> ok \<or> trim_space k \<noteq> ip then None
        else
          let deviceType = to_lower (trim_space v)
          in if isNetworkDeviceType deviceType then Some deviceType else None)"

definition overrideDeviceTypeFor :: "string \<Rightarrow> string \<Rightarrow> string" where
  "overrideDeviceTypeFor ip inventory =
     (case List.map_filter (override_entry ip) (fields_func inventory_sep inventory) of
        [] \<Rightarrow> [] | deviceType # _ \<Rightarrow> deviceType)"

definition serviceDeviceType :: "string \<Rightarrow> string" where
  "serviceDeviceType service =
     (case map_of serviceDeviceHints (to_lower (trim_space service)) of None \<Rightarrow> [] | Some t \<Rightarrow> t)"

definition isVirtualInterface :: "string \<Rightarrow> bool" where
  "isVirtualInterface iface0 =
     (let iface = to_lower (trim_space iface0)
      in has_prefix iface ''vif'' \<or> has_prefix iface ''tap'' \<or> has_prefix iface ''vnet'')"

section \<open>Vendors\<close>

record neighbor_oui =
  oui_vendor :: string
  oui_type :: string

definition no_oui :: neighbor_oui where
  "no_oui = \<lparr>oui_vendor = [], oui_type = []\<rparr>"

type_synonym oui_table = "string \<Rightarrow> neighbor_oui option"

text \<open>One prefix of a group, with the table and the set of conflicting prefixes.\<close>

definition add_prefix :: "oui_group \<Rightarrow> string \<Rightarrow> oui_table \<times> string set \<Rightarrow> oui_table \<times> string set" where
  "add_prefix g prefix0 st =
     (let pfx = to_lower prefix0
      in case fst st pfx of
           Some existing \<Rightarrow>
             if oui_vendor existing \<noteq> group_vendor g then (fst st, insert pfx (snd st)) else st
         | None \<Rightarrow> ((fst st)(pfx \<mapsto> \<lparr>oui_vendor = group_vendor g, oui_type = group_type g\<rparr>), snd st))"

definition buildOUITable :: "oui_group list \<Rightarrow> oui_table" where
  "buildOUITable groups =
     (let st = fold (\<lambda>g. fold (add_prefix g) (group_prefixes g)) groups (Map.empty, {})
      in (\<lambda>p. if p \<in> snd st then None else fst st p))"

definition embeddedOUI :: oui_table where
  "embeddedOUI = buildOUITable embeddedOUIGroups"

definition ouiPrefix :: "string \<Rightarrow> string" where
  "ouiPrefix mac =
     (let groups = split_on CHR '':'' (normalizeMAC mac)
      in if length groups \<noteq> 6 \<or> \<not> list_all (\<lambda>g. length g = 2 \<and> list_all is_lower_hex g) groups then []
         else join '':'' (take 3 groups))"

definition hexByte :: "char \<Rightarrow> nat" where
  "hexByte r = (if in_range 48 57 r then byte r - 48 else if in_range 97 102 r then byte r - 97 + 10 else 0)"

definition first_octet :: "string \<Rightarrow> nat" where
  "first_octet pfx = 16 * hexByte (pfx ! 0) + hexByte (pfx ! 1)"

definition lookupOUI :: "string \<Rightarrow> neighbor_oui" where
  "lookupOUI mac =
     (let pfx = ouiPrefix mac
      in if pfx = [] then no_oui
         else case map_of virtualOUIs pfx of
           Some vendor \<Rightarrow> \<lparr>oui_vendor = vendor, oui_type = ''server''\<rparr>
         | None \<Rightarrow>
             let firstByte = first_octet pfx
             in if odd firstByte \<or> odd (firstByte div 2) then no_oui
                else (case embeddedOUI pfx of None \<Rightarrow> no_oui | Some o' \<Rightarrow> o'))"

section \<open>Signals\<close>

record device_signal =
  sig_source :: string
  sig_type :: string
  sig_weight :: int

definition weightHostname :: int where "weightHostname = 23418718062326580"          \<comment> \<open>0.65\<close>
definition weightPublicIP :: int where "weightPublicIP = 18014398509481984"          \<comment> \<open>0.5\<close>
definition weightVirtualMAC :: int where "weightVirtualMAC = 21617278211378380"      \<comment> \<open>0.6\<close>
definition weightOUI :: int where "weightOUI = 19815838360430184"                    \<comment> \<open>0.55\<close>
definition weightService :: int where "weightService = 12610078956637388"            \<comment> \<open>0.35\<close>
definition weightVirtualIface :: int where "weightVirtualIface = 7205759403792794"   \<comment> \<open>0.2\<close>

definition sig :: "string \<Rightarrow> string \<Rightarrow> int \<Rightarrow> device_signal" where
  "sig s t w = \<lparr>sig_source = s, sig_type = t, sig_weight = w\<rparr>"

definition neighbor_signals :: "string \<Rightarrow> string \<Rightarrow> string \<Rightarrow> string \<Rightarrow> string list \<Rightarrow> device_signal list" where
  "neighbor_signals ip mac iface hostname services =
     filter (\<lambda>s. isNetworkDeviceType (sig_type s))
       ([sig ''dhcp'' (deviceTypeForHostname hostname) weightHostname] @
        (if isPublicNeighborIP ip then [sig ''public-ip'' ''router_wan'' weightPublicIP] else []) @
        (if map_of virtualOUIs (ouiPrefix mac) \<noteq> None then [sig ''mac'' ''server'' weightVirtualMAC] else []) @
        [sig ''oui'' (oui_type (lookupOUI mac)) weightOUI] @
        map (\<lambda>s. sig ''service'' (serviceDeviceType s) weightService) services @
        (if isVirtualInterface iface then [sig ''interface'' ''server'' weightVirtualIface] else []))"

text \<open>The sum of the weights for a type, added in the order of the signals.\<close>

definition score :: "device_signal list \<Rightarrow> string \<Rightarrow> int" where
  "score sigs t = foldl (\<lambda>s x. f64_add s (sig_weight x)) 0 (filter (\<lambda>x. sig_type x = t) sigs)"

text \<open>The types in the order of their first signal.\<close>

definition type_order :: "device_signal list \<Rightarrow> string list" where
  "type_order sigs = rev (remdups (rev (map sig_type sigs)))"

fun best_of :: "(string \<Rightarrow> int) \<Rightarrow> string \<Rightarrow> string list \<Rightarrow> string" where
  "best_of sc w [] = w"
| "best_of sc w (c # cs) = best_of sc (if sc w < sc c then c else w) cs"

definition add_source :: "string list \<Rightarrow> string \<Rightarrow> string list" where
  "add_source ss s = (if containsString ss s then ss else ss @ [s])"

section \<open>The identity\<close>

record neighbor_identity =
  ni_type :: string
  ni_vendor :: string
  ni_confidence :: int
  ni_sources :: "string list"
  ni_detection :: string

text \<open>\<open>None\<close> is the panic of an index out of range at \<open>sources[0]\<close>.\<close>

definition computeNeighborIdentity ::
  "string \<Rightarrow> string \<Rightarrow> string \<Rightarrow> string \<Rightarrow> string \<Rightarrow> string list \<Rightarrow> neighbor_identity option" where
  "computeNeighborIdentity ip mac iface inventory hostname services =
     (let oui = lookupOUI mac; override = overrideDeviceTypeFor ip inventory
      in if override \<noteq> []
         then Some \<lparr>ni_type = override, ni_vendor = oui_vendor oui, ni_confidence = 100,
                    ni_sources = [''manual''], ni_detection = ''manual''\<rparr>
         else
           let signals = neighbor_signals ip mac iface hostname services;
               hostnameType = deviceTypeForHostname hostname
           in case type_order signals of
                [] \<Rightarrow> Some \<lparr>ni_type = ''unknown'', ni_vendor = oui_vendor oui, ni_confidence = 0,
                            ni_sources = [''arp''], ni_detection = ''arp''\<rparr>
              | first # rest \<Rightarrow>
                  let best = best_of (score signals) first rest;
                      winner = (if hostnameType \<noteq> ''unknown'' \<and> hostnameType \<noteq> ''server'' \<and> best = ''server''
                                then hostnameType else best);
                      sources = foldl add_source [] (map sig_source (filter (\<lambda>s. sig_type s = winner) signals))
                  in case sources of
                       [] \<Rightarrow> None
                     | source # _ \<Rightarrow>
                         Some \<lparr>ni_type = winner, ni_vendor = oui_vendor oui,
                               ni_confidence = f64_percent (min f64_one (score signals winner)),
                               ni_sources = sources, ni_detection = source\<rparr>)"

section \<open>The cache\<close>

record neighbor_query =
  q_ip :: string
  q_mac :: string
  q_iface :: string
  q_inventory :: string
  q_hostname :: string
  q_services :: "string list"

definition compute_query :: "neighbor_query \<Rightarrow> neighbor_identity option" where
  "compute_query q =
     computeNeighborIdentity (q_ip q) (q_mac q) (q_iface q) (q_inventory q) (q_hostname q) (q_services q)"

definition neighborKeySeparator :: char where
  "neighborKeySeparator = CHR 0x1F"

definition query_key :: "neighbor_query \<Rightarrow> string" where
  "query_key q =
     join [neighborKeySeparator]
       [trim_space (q_ip q), normalizeMAC (q_mac q), trim_space (q_iface q), q_inventory q,
        to_lower (trim_space (q_hostname q)), to_lower (join '','' (q_services q))]"

definition neighborCacheLimit :: nat where
  "neighborCacheLimit = 4096"

type_synonym identity_cache = "(string \<times> neighbor_identity) list"

text \<open>The result is \<open>None\<close> when the computation panics.\<close>

definition neighborIdentityFor ::
  "neighbor_query \<Rightarrow> identity_cache \<Rightarrow> (neighbor_identity \<times> identity_cache) option" where
  "neighborIdentityFor q cache =
     (case map_of cache (query_key q) of
        Some cached \<Rightarrow> Some (cached, cache)
      | None \<Rightarrow>
          map_option
            (\<lambda>i. (i, (query_key q, i) # (if neighborCacheLimit \<le> length cache then [] else cache)))
            (compute_query q))"

section \<open>Facts on the signals\<close>

lemma valid_type: "to_lower (trim_space t) = t \<Longrightarrow> t \<notin> {[], ''unknown'', ''storage''} \<Longrightarrow>
    t \<in> set validDeviceTypes \<or> t \<in> set validExtendedDeviceTypes - set validStorageDeviceTypes \<Longrightarrow> isNetworkDeviceType t"
  by (auto simp: isNetworkDeviceType_def)

lemma hostname_types_known: "(ty, ws) \<in> set hostname_patterns \<Longrightarrow> isNetworkDeviceType ty"
proof -
  have "isNetworkDeviceType ''reverse_proxy''" "isNetworkDeviceType ''smart_tv''"
    by (rule valid_type, code_simp, simp, simp add: validExtendedDeviceTypes_def validStorageDeviceTypes_def)+
  moreover have "isNetworkDeviceType ''tv''" "isNetworkDeviceType ''phone''" "isNetworkDeviceType ''printer''"
    "isNetworkDeviceType ''nas''" "isNetworkDeviceType ''accesspoint''" "isNetworkDeviceType ''router''"
    "isNetworkDeviceType ''camera''" "isNetworkDeviceType ''laptop''" "isNetworkDeviceType ''desktop''"
    "isNetworkDeviceType ''server''"
    by (rule valid_type, code_simp, simp, simp add: validDeviceTypes_def)+
  ultimately show "(ty, ws) \<in> set hostname_patterns \<Longrightarrow> isNetworkDeviceType ty"
    unfolding hostname_patterns_def by (simp only: set_simps insert_iff prod.inject empty_iff) blast
qed

lemma deviceTypeForHostname_known:
  "deviceTypeForHostname h = ''unknown'' \<or> isNetworkDeviceType (deviceTypeForHostname h)"
  by (auto simp: deviceTypeForHostname_def find_Some_iff split: option.split dest!: nth_mem intro: hostname_types_known)

lemma neighbor_signals_valid: "s \<in> set (neighbor_signals ip mac iface h services) \<Longrightarrow> isNetworkDeviceType (sig_type s)"
  unfolding neighbor_signals_def by (simp only: set_filter mem_Collect_eq)

lemma hostname_signal:
  "isNetworkDeviceType (deviceTypeForHostname h) \<Longrightarrow>
     sig ''dhcp'' (deviceTypeForHostname h) weightHostname \<in> set (neighbor_signals ip mac iface h services)"
  by (simp add: neighbor_signals_def sig_def)

lemma set_type_order [simp]: "set (type_order sigs) = sig_type ` set sigs"
  by (simp add: type_order_def)

lemma best_of_mem: "best_of sc w cs \<in> set (w # cs)"
  by (induction cs arbitrary: w) auto

lemma best_of_max: "t \<in> set (w # cs) \<Longrightarrow> sc t \<le> sc (best_of sc w cs)"
proof (induction cs arbitrary: t w)
  case (Cons c cs)
  let ?w = "if sc w < sc c then c else w"
  have m: "sc ?w \<le> sc (best_of sc ?w cs)" by (rule Cons.IH) simp
  have "sc t \<le> sc ?w" if "t = w \<or> t = c" using that by auto
  then show ?case using Cons.IH [of t ?w] Cons.prems m by fastforce
qed simp

lemma f64_add_nonneg: "0 \<le> a \<Longrightarrow> 0 \<le> b \<Longrightarrow> 0 \<le> f64_add a b"
  unfolding f64_add_def by (rule round53_error) simp

lemma weights_nonneg: "s \<in> set (neighbor_signals ip mac iface h services) \<Longrightarrow> 0 \<le> sig_weight s"
  by (auto simp: neighbor_signals_def sig_def weightHostname_def weightPublicIP_def weightVirtualMAC_def
      weightOUI_def weightService_def weightVirtualIface_def split: if_splits)

lemma score_nonneg: "\<forall>s \<in> set sigs. 0 \<le> sig_weight s \<Longrightarrow> 0 \<le> score sigs t"
proof -
  have "\<forall>s \<in> set xs. 0 \<le> sig_weight s \<Longrightarrow> 0 \<le> a \<Longrightarrow> 0 \<le> foldl (\<lambda>s x. f64_add s (sig_weight x)) a xs" for xs a
    by (induction xs arbitrary: a) (simp_all add: f64_add_nonneg)
  from this [of "filter (\<lambda>x. sig_type x = t) sigs" 0]
  show "\<forall>s \<in> set sigs. 0 \<le> sig_weight s \<Longrightarrow> 0 \<le> score sigs t" by (simp add: score_def)
qed

lemma score_absent: "t \<notin> sig_type ` set sigs \<Longrightarrow> score sigs t = 0"
proof -
  assume "t \<notin> sig_type ` set sigs"
  then have "filter (\<lambda>x. sig_type x = t) sigs = []" by (auto simp: filter_empty_conv)
  then show ?thesis by (simp add: score_def)
qed

text \<open>The sources: every source of the signals once, the first of them first.\<close>

lemma containsString_mem: "s \<in> set ss \<Longrightarrow> containsString ss s"
  by (auto simp: containsString_def list_ex_iff equal_fold_def)

lemma add_source_simps:
  "containsString ss x \<Longrightarrow> add_source ss x = ss" "\<not> containsString ss x \<Longrightarrow> add_source ss x = ss @ [x]"
  by (simp_all add: add_source_def)

lemma distinct_add_source: "distinct ss \<Longrightarrow> distinct (add_source ss x)"
  by (auto simp: add_source_def dest: containsString_mem)

lemma foldl_sources: "distinct acc \<Longrightarrow> distinct (foldl add_source acc xs)"
  by (induction xs arbitrary: acc) (simp_all add: distinct_add_source)

lemma foldl_sources_grow: "\<exists>more. foldl add_source acc xs = acc @ more"
proof (induction xs arbitrary: acc)
  case (Cons x xs)
  obtain more where "foldl add_source (add_source acc x) xs = add_source acc x @ more" using Cons by blast
  then show ?case by (cases "containsString acc x") (simp_all add: add_source_simps)
qed simp

lemma foldl_sources_Cons: "\<exists>more. foldl add_source [] (x # xs) = x # more"
  using foldl_sources_grow [of "[x]" xs] by (simp add: add_source_simps containsString_def)

lemma override_entry_valid: "override_entry ip e = Some t \<Longrightarrow> isNetworkDeviceType t"
  by (auto simp: override_entry_def Let_def split: prod.splits if_splits)

section \<open>The identity that is chosen\<close>

text \<open>What the evidence decides when the inventory says nothing and there is a signal.\<close>

definition winner_of :: "device_signal list \<Rightarrow> string \<Rightarrow> string" where
  "winner_of sigs hostnameType =
     (let best = best_of (score sigs) (hd (type_order sigs)) (tl (type_order sigs))
      in if hostnameType \<noteq> ''unknown'' \<and> hostnameType \<noteq> ''server'' \<and> best = ''server'' then hostnameType else best)"

lemma type_order_Nil: "type_order sigs = [] \<longleftrightarrow> sigs = []"
  by (metis image_is_empty set_empty set_type_order)

lemma winner_mem:
  assumes "sigs = neighbor_signals ip mac iface h services" and "sigs \<noteq> []"
  shows "winner_of sigs (deviceTypeForHostname h) \<in> sig_type ` set sigs"
proof -
  let ?o = "type_order sigs"
  have "?o \<noteq> []" using assms(2) by (simp add: type_order_Nil)
  then have "best_of (score sigs) (hd ?o) (tl ?o) \<in> set ?o"
    using best_of_mem [of "score sigs" "hd ?o" "tl ?o"] by simp
  moreover have "deviceTypeForHostname h \<in> sig_type ` set sigs" if "deviceTypeForHostname h \<noteq> ''unknown''"
  proof -
    have "sig ''dhcp'' (deviceTypeForHostname h) weightHostname \<in> set sigs"
      unfolding assms(1) by (rule hostname_signal) (use that deviceTypeForHostname_known [of h] in simp)
    then show ?thesis by (force simp: sig_def)
  qed
  ultimately show ?thesis by (simp add: winner_of_def Let_def)
qed

lemma compute_cases:
  fixes ip mac iface inventory h services
  defines "sigs \<equiv> neighbor_signals ip mac iface h services"
  defines "win \<equiv> winner_of sigs (deviceTypeForHostname h)"
  obtains (manual) i where "overrideDeviceTypeFor ip inventory \<noteq> []"
      "computeNeighborIdentity ip mac iface inventory h services = Some i"
      "i = \<lparr>ni_type = overrideDeviceTypeFor ip inventory, ni_vendor = oui_vendor (lookupOUI mac),
            ni_confidence = 100, ni_sources = [''manual''], ni_detection = ''manual''\<rparr>"
  | (silent) i where "overrideDeviceTypeFor ip inventory = []" "sigs = []"
      "computeNeighborIdentity ip mac iface inventory h services = Some i"
      "i = \<lparr>ni_type = ''unknown'', ni_vendor = oui_vendor (lookupOUI mac), ni_confidence = 0,
            ni_sources = [''arp''], ni_detection = ''arp''\<rparr>"
  | (evidence) i where "overrideDeviceTypeFor ip inventory = []" "sigs \<noteq> []"
      "computeNeighborIdentity ip mac iface inventory h services = Some i"
      "ni_type i = win" "ni_confidence i = f64_percent (min f64_one (score sigs win))"
      "ni_sources i = foldl add_source [] (map sig_source (filter (\<lambda>s. sig_type s = win) sigs))"
      "ni_sources i \<noteq> []" "ni_detection i = hd (ni_sources i)"
proof (cases "overrideDeviceTypeFor ip inventory = []")
  case False
  then show ?thesis by (intro manual) (simp_all add: computeNeighborIdentity_def)
next
  case True
  show ?thesis
  proof (cases "sigs = []")
    case nil: True
    then have "type_order sigs = []" by (simp add: type_order_Nil)
    then show ?thesis
      by (intro silent [OF True nil]) (simp_all add: computeNeighborIdentity_def True sigs_def Let_def)
  next
    case False
    then obtain f r where o': "type_order sigs = f # r" by (metis list.exhaust type_order_Nil)
    have "win \<in> sig_type ` set sigs" unfolding win_def by (rule winner_mem [OF _ False]) (simp add: sigs_def)
    then have "filter (\<lambda>s. sig_type s = win) sigs \<noteq> []" by (auto simp: filter_empty_conv)
    then obtain x xs where x: "map sig_source (filter (\<lambda>s. sig_type s = win) sigs) = x # xs"
      by (cases "map sig_source (filter (\<lambda>s. sig_type s = win) sigs)") auto
    obtain more where more: "foldl add_source [] (map sig_source (filter (\<lambda>s. sig_type s = win) sigs)) = x # more"
      unfolding x using foldl_sources_Cons by blast
    let ?i = "\<lparr>ni_type = win, ni_vendor = oui_vendor (lookupOUI mac),
        ni_confidence = f64_percent (min f64_one (score sigs win)), ni_sources = x # more, ni_detection = x\<rparr>"
    have w: "(if deviceTypeForHostname h \<noteq> ''unknown'' \<and> deviceTypeForHostname h \<noteq> ''server'' \<and>
          best_of (score sigs) f r = ''server'' then deviceTypeForHostname h else best_of (score sigs) f r) = win"
      by (simp add: win_def winner_of_def o' Let_def)
    have "computeNeighborIdentity ip mac iface inventory h services = Some ?i"
      unfolding computeNeighborIdentity_def Let_def sigs_def [symmetric]
      by (simp only: True o' list.case w more simp_thms if_False)
    from evidence [OF True False this] more show ?thesis by simp
  qed
qed

section \<open>Properties\<close>

text \<open>
  C31. Identification never fails and never invents a type: for any inputs there is a result, its type is either
  \<open>unknown\<close>, with confidence 0 and no evidence but the ARP table, or one that has an icon and suits a network
  neighbour, with a confidence from 0 to 100 hundredths and a non-empty list of distinct sources, the first of which is the reported detection.
\<close>

theorem identity_wellformed:
  "\<exists>i. computeNeighborIdentity ip mac iface inventory hostname services = Some i \<and>
     (if isNetworkDeviceType (ni_type i)
      then 0 \<le> ni_confidence i \<and> ni_confidence i \<le> 100 \<and> distinct (ni_sources i) \<and>
        ni_sources i \<noteq> [] \<and> ni_detection i = hd (ni_sources i)
      else ni_type i = ''unknown'' \<and> ni_confidence i = 0 \<and> ni_sources i = [''arp''])"
proof -
  have ov: "isNetworkDeviceType (overrideDeviceTypeFor ip inventory)" if set: "overrideDeviceTypeFor ip inventory \<noteq> []"
  proof -
    obtain t ts where t: "List.map_filter (override_entry ip) (fields_func inventory_sep inventory) = t # ts"
      using set by (cases "List.map_filter (override_entry ip) (fields_func inventory_sep inventory)")
        (auto simp: overrideDeviceTypeFor_def)
    then have "t \<in> set (List.map_filter (override_entry ip) (fields_func inventory_sep inventory))" by simp
    then obtain e where "override_entry ip e = Some t" by (auto simp: map_filter_mem)
    with t show ?thesis by (simp add: overrideDeviceTypeFor_def override_entry_valid)
  qed
  have u: "\<not> isNetworkDeviceType ''unknown''" by code_simp
  show ?thesis
  proof (cases rule: compute_cases [of ip inventory mac iface hostname services])
    case (manual i)
    then show ?thesis using ov by simp
  next
    case (silent i)
    then show ?thesis using u by simp
  next
    case (evidence i)
    let ?sigs = "neighbor_signals ip mac iface hostname services"
    have "ni_type i \<in> sig_type ` set ?sigs" using winner_mem [OF refl] evidence(2,4) by simp
    then obtain x where x: "x \<in> set ?sigs" "ni_type i = sig_type x" by blast
    with neighbor_signals_valid [OF x(1)] have "isNetworkDeviceType (ni_type i)" by simp
    moreover have "0 \<le> score ?sigs (ni_type i)" by (rule score_nonneg) (use weights_nonneg in blast)
    then have "0 \<le> ni_confidence i \<and> ni_confidence i \<le> 100"
      using f64_percent_bound [of "min f64_one (score ?sigs (ni_type i))"] evidence(4,5) by (simp add: f64_one_def)
    ultimately show ?thesis using evidence(3,6-8) foldl_sources [of "[]"] by simp
  qed
qed

text \<open>
  C32. The type with the most evidence wins: unless the inventory decides or the hostname names the role, no type
  has a higher score than the reported one, the scores being sums of doubles in the order of the signals.
\<close>

theorem identity_best_evidence:
  assumes "computeNeighborIdentity ip mac iface inventory hostname services = Some i"
    and "overrideDeviceTypeFor ip inventory = []" and "ni_type i \<noteq> deviceTypeForHostname hostname"
  shows "score (neighbor_signals ip mac iface hostname services) t
    \<le> score (neighbor_signals ip mac iface hostname services) (ni_type i)"
proof (cases rule: compute_cases [of ip inventory mac iface hostname services])
  case (manual j)
  with assms(2) show ?thesis by simp
next
  case (silent j)
  then show ?thesis by (simp add: score_def)
next
  case (evidence j)
  let ?sigs = "neighbor_signals ip mac iface hostname services" and ?o = "type_order (neighbor_signals ip mac iface hostname services)"
  have i: "ni_type i = winner_of ?sigs (deviceTypeForHostname hostname)" using assms(1) evidence(3,4) by simp
  then have b: "ni_type i = best_of (score ?sigs) (hd ?o) (tl ?o)"
    using assms(3) by (auto simp: winner_of_def Let_def split: if_splits)
  show ?thesis
  proof (cases "t \<in> sig_type ` set ?sigs")
    case True
    then have "t \<in> set (hd ?o # tl ?o)" using evidence(2) by (simp add: type_order_Nil)
    then show ?thesis unfolding b by (rule best_of_max)
  next
    case False
    then show ?thesis using score_nonneg [of ?sigs] weights_nonneg by (simp add: score_absent)
  qed
qed

theorem identity_best_evidence_witness:
  "score (neighbor_signals ''10.0.0.8'' [] ''vif1.0'' ''mq'' [''mqtt'']) ''server'' \<le>
   score (neighbor_signals ''10.0.0.8'' [] ''vif1.0'' ''mq'' [''mqtt'']) ''iot''"
proof -
  let ?i = "\<lparr>ni_type = ''iot'', ni_vendor = [], ni_confidence = 35, ni_sources = [''service''], ni_detection = ''service''\<rparr>"
  have c: "computeNeighborIdentity ''10.0.0.8'' [] ''vif1.0'' [] ''mq'' [''mqtt''] = Some ?i" by code_simp
  have o': "overrideDeviceTypeFor ''10.0.0.8'' [] = []" by code_simp
  have h: "''iot'' \<noteq> deviceTypeForHostname ''mq''" by code_simp
  have "ni_type ?i = ''iot''" by simp
  with identity_best_evidence [OF c o'] h show ?thesis by metis
qed

section \<open>The cache is transparent\<close>

text \<open>
  The queries whose key determines them: no component contains the separator, the address is trimmed and every service
  is a non-empty name without a comma.
\<close>

definition plain_query :: "neighbor_query \<Rightarrow> bool" where
  "plain_query q \<longleftrightarrow>
     list_all (\<lambda>s. neighborKeySeparator \<notin> set s)
       [trim_space (q_ip q), normalizeMAC (q_mac q), trim_space (q_iface q), q_inventory q,
        to_lower (trim_space (q_hostname q)), to_lower (join '','' (q_services q))] \<and>
     trim_space (q_ip q) = q_ip q \<and> list_all (\<lambda>s. s \<noteq> [] \<and> CHR '','' \<notin> set s) (q_services q)"

lemma dropWhile_lower:
  "(\<And>c. lower_byte c \<in> set cs \<longleftrightarrow> c \<in> set cs) \<Longrightarrow>
     dropWhile (\<lambda>c. c \<in> set cs) (to_lower s) = to_lower (dropWhile (\<lambda>c. c \<in> set cs) s)"
  by (induction s) (auto simp: to_lower_def)

lemma trim_cutset_lower:
  assumes "\<And>c. lower_byte c \<in> set cs \<longleftrightarrow> c \<in> set cs"
  shows "trim_cutset (to_lower s) cs = to_lower (trim_cutset s cs)"
  using dropWhile_lower [OF assms] by (simp add: trim_cutset_def trim_left_def trim_right_def to_lower_def rev_map)

lemma lower_byte_dot: "lower_byte c = CHR ''.'' \<longleftrightarrow> c = CHR ''.''"
proof
  assume "lower_byte c = CHR ''.''"
  then have "byte (lower_byte c) = 46" by simp
  then have "\<not> in_range 65 90 c" by (auto simp: lower_byte_def in_range_def of_char_of split: if_splits)
  with \<open>lower_byte c = CHR ''.''\<close> show "c = CHR ''.''" by (simp add: lower_byte_def)
qed (simp add: lower_byte_def in_range_def)

lemma deviceType_by_key:
  "to_lower (trim_space h) = to_lower (trim_space h') \<Longrightarrow> deviceTypeForHostname h = deviceTypeForHostname h'"
proof -
  have "to_lower (trim_cutset (trim_space h) ''.'') = trim_cutset (to_lower (trim_space h)) ''.''" for h
    by (simp add: trim_cutset_lower lower_byte_dot)
  then show "to_lower (trim_space h) = to_lower (trim_space h') \<Longrightarrow> ?thesis"
    by (simp add: deviceTypeForHostname_def canonical_hostname_def)
qed

lemma virtual_by_key: "trim_space i = trim_space i' \<Longrightarrow> isVirtualInterface i = isVirtualInterface i'"
  by (simp add: isVirtualInterface_def)

lemma vendor_by_key:
  "normalizeMAC m = normalizeMAC m' \<Longrightarrow> ouiPrefix m = ouiPrefix m'"
  "normalizeMAC m = normalizeMAC m' \<Longrightarrow> lookupOUI m = lookupOUI m'"
  by (simp_all add: ouiPrefix_def lookupOUI_def)

lemma join_lower: "to_lower (join '','' ss) = join '','' (map to_lower ss)"
  by (induction ss rule: induct_list012) (simp_all add: to_lower_def lower_byte_def in_range_def)

lemma lower_no_comma: "CHR '','' \<notin> set s \<Longrightarrow> CHR '','' \<notin> set (to_lower s)"
proof -
  have "lower_byte c = CHR '','' \<Longrightarrow> c = CHR '',''" for c
  proof -
    assume c: "lower_byte c = CHR '',''"
    then have "byte (lower_byte c) = 44" by simp
    then have "\<not> in_range 65 90 c" by (auto simp: lower_byte_def in_range_def of_char_of split: if_splits)
    with c show "c = CHR '',''" by (simp add: lower_byte_def)
  qed
  then show "CHR '','' \<notin> set s \<Longrightarrow> ?thesis" by (fastforce simp: to_lower_def)
qed

lemma services_by_key:
  assumes "to_lower (join '','' ss) = to_lower (join '','' ts)"
    and "list_all (\<lambda>s. s \<noteq> [] \<and> CHR '','' \<notin> set s) ss" and "list_all (\<lambda>s. s \<noteq> [] \<and> CHR '','' \<notin> set s) ts"
  shows "map serviceDeviceType ss = map serviceDeviceType ts"
proof -
  have split: "(if us = [] then [[]] else map to_lower us) = split_on CHR '','' (to_lower (join '','' us))"
    if "list_all (\<lambda>s. s \<noteq> [] \<and> CHR '','' \<notin> set s) us" for us
  proof (cases "us = []")
    case False
    have "split_on CHR '','' (join '','' (map to_lower us)) = map to_lower us"
      using that False by (intro split_on_join) (auto simp: list_all_iff dest: lower_no_comma)
    with False show ?thesis by (simp add: join_lower)
  qed simp
  have "(if ss = [] then [[]] else map to_lower ss) = (if ts = [] then [[]] else map to_lower ts)"
    unfolding split [OF assms(2)] split [OF assms(3)] assms(1) ..
  moreover have "map to_lower us \<noteq> [[]]" if "list_all (\<lambda>s. s \<noteq> [] \<and> CHR '','' \<notin> set s) us" for us
    using that by (cases us) auto
  note this [OF assms(2)] this [OF assms(3)]
  ultimately have "map to_lower ss = map to_lower ts" by (cases "ss = []"; cases "ts = []") simp_all
  then have "map (serviceDeviceType \<circ> to_lower) ss = map (serviceDeviceType \<circ> to_lower) ts"
    by (metis list.map_comp)
  moreover have "serviceDeviceType \<circ> to_lower = serviceDeviceType"
    by (simp add: fun_eq_iff serviceDeviceType_def trim_space_lower)
  ultimately show ?thesis by simp
qed

lemma services_signals:
  "map (\<lambda>s. sig ''service'' (serviceDeviceType s) weightService) ss =
     map (\<lambda>t. sig ''service'' t weightService) (map serviceDeviceType ss)"
  by simp

lemma query_key_sound:
  assumes "plain_query q" and "plain_query q'" and "query_key q = query_key q'"
  shows "compute_query q = compute_query q'"
proof -
  let ?k = "\<lambda>q. [trim_space (q_ip q), normalizeMAC (q_mac q), trim_space (q_iface q), q_inventory q,
        to_lower (trim_space (q_hostname q)), to_lower (join '','' (q_services q))]"
  have sp: "split_on neighborKeySeparator (query_key p) = ?k p" if "plain_query p" for p
    unfolding query_key_def by (rule split_on_join) (use that in \<open>unfold plain_query_def, blast+\<close>)
  have k: "?k q = ?k q'" by (simp only: sp [OF assms(1), symmetric] sp [OF assms(2), symmetric] assms(3))
  then have "to_lower (join '','' (q_services q)) = to_lower (join '','' (q_services q'))" by (simp only: list.inject)
  then have "map serviceDeviceType (q_services q) = map serviceDeviceType (q_services q')"
    by (rule services_by_key) (use assms(1,2) in \<open>simp_all only: plain_query_def\<close>)
  note services = this
  from k have parts: "trim_space (q_ip q) = trim_space (q_ip q')" "normalizeMAC (q_mac q) = normalizeMAC (q_mac q')"
    "trim_space (q_iface q) = trim_space (q_iface q')" "q_inventory q = q_inventory q'"
    "to_lower (trim_space (q_hostname q)) = to_lower (trim_space (q_hostname q'))"
    by (simp_all only: list.inject)
  have ip: "q_ip q = q_ip q'" using parts(1) assms(1,2) by (simp add: plain_query_def)
  note host = deviceType_by_key [OF parts(5)] and virt = virtual_by_key [OF parts(3)] and vendor = vendor_by_key [OF parts(2)]
  have sigs: "neighbor_signals (q_ip q) (q_mac q) (q_iface q) (q_hostname q) (q_services q) =
      neighbor_signals (q_ip q') (q_mac q') (q_iface q') (q_hostname q') (q_services q')"
    unfolding neighbor_signals_def services_signals services ip host virt vendor ..
  show ?thesis
    unfolding compute_query_def computeNeighborIdentity_def sigs unfolding ip host vendor parts(4) ..
qed

lemma compute_query_total: "\<exists>i. compute_query q = Some i"
proof (cases rule: compute_cases [of "q_ip q" "q_inventory q" "q_mac q" "q_iface q" "q_hostname q" "q_services q"])
  case (manual i)
  show ?thesis unfolding compute_query_def by (rule exI) (rule manual(2))
next
  case (silent i)
  show ?thesis unfolding compute_query_def by (rule exI) (rule silent(3))
next
  case (evidence i)
  show ?thesis unfolding compute_query_def by (rule exI) (rule evidence(3))
qed

interpretation nid: memo query_key compute_query plain_query neighborCacheLimit neighborIdentityFor
proof
  show "compute_query q = compute_query q'"
    if "plain_query q" "plain_query q'" "query_key q = query_key q'" for q q'
    using that by (rule query_key_sound)
qed (simp_all only: neighborIdentityFor_def option.case, simp add: neighborCacheLimit_def)

text \<open>The identities of a sequence of neighbours, through one cache.\<close>

fun identify_all :: "neighbor_query list \<Rightarrow> identity_cache \<Rightarrow> (neighbor_identity list \<times> identity_cache) option" where
  "identify_all [] cache = Some ([], cache)"
| "identify_all (q # qs) cache =
     (case neighborIdentityFor q cache of
        None \<Rightarrow> None
      | Some (i, cache') \<Rightarrow> map_option (\<lambda>(is, cache''). (i # is, cache'')) (identify_all qs cache'))"

lemma identify_all_run: "identify_all qs cache = nid.run qs cache"
  by (induction qs arbitrary: cache) (simp_all split: option.split)

text \<open>
  C33. The cache of identities is transparent and bounded: started empty, it answers any sequence of plain queries
  with what the computation gives for each, and never holds more than 4096 entries. (A query is plain unless its address is
  padded with spaces, a service is empty or has a comma, or a component has the separator byte; the collector's queries come from split lines without services.)
\<close>

theorem identity_cache_transparent:
  assumes "\<forall>q \<in> set qs. plain_query q"
  shows "\<exists>cache. identify_all qs [] = Some (map (\<lambda>q. the (compute_query q)) qs, cache) \<and> length cache \<le> 4096"
proof -
  have "\<forall>q \<in> set qs. plain_query q \<and> compute_query q \<noteq> None" using assms compute_query_total by auto
  from nid.run_transparent [OF nid.coherent_empty this]
  obtain c where "nid.run qs [] = Some (map (the \<circ> compute_query) qs, c)" "nid.coherent c" by blast
  then show ?thesis
    unfolding identify_all_run nid.coherent_def by (simp add: neighborCacheLimit_def o_def)
qed

definition demo_query :: "string \<Rightarrow> neighbor_query" where
  "demo_query h = \<lparr>q_ip = ''10.0.0.8'', q_mac = ''DC-A6-32-01-02-03'', q_iface = ''eth0'', q_inventory = [],
     q_hostname = h, q_services = []\<rparr>"

theorem identity_cache_transparent_witness:
  "\<exists>cache. identify_all [demo_query ''nas'', demo_query '' NAS''] [] =
     Some ([the (compute_query (demo_query ''nas'')), the (compute_query (demo_query '' NAS''))], cache) \<and> length cache \<le> 4096"
proof -
  have "plain_query (demo_query ''nas'')" "plain_query (demo_query '' NAS'')" by code_simp+
  then show ?thesis using identity_cache_transparent [of "[demo_query ''nas'', demo_query '' NAS'']"] by simp
qed

section \<open>The OUI table\<close>

text \<open>What the groups claim: a prefix in lower case, with the group that lists it, in order.\<close>

definition oui_claims :: "oui_group list \<Rightarrow> (string \<times> oui_group) list" where
  "oui_claims groups = concat (map (\<lambda>g. map (\<lambda>p. (to_lower p, g)) (group_prefixes g)) groups)"

definition add_claim :: "string \<times> oui_group \<Rightarrow> oui_table \<times> string set \<Rightarrow> oui_table \<times> string set" where
  "add_claim c = add_prefix (snd c) (fst c)"

lemma add_prefix_lower: "add_prefix g (to_lower p) st = add_prefix g p st"
  by (simp add: add_prefix_def)

lemma build_by_claims:
  "fold (\<lambda>g. fold (add_prefix g) (group_prefixes g)) groups st = fold add_claim (oui_claims groups) st"
proof (induction groups arbitrary: st)
  case (Cons g groups)
  have "fold (add_prefix g) ps st = fold add_claim (map (\<lambda>p. (to_lower p, g)) ps) st" for ps st
    by (induction ps arbitrary: st) (simp_all add: add_claim_def add_prefix_lower)
  with Cons show ?case by (simp add: oui_claims_def)
qed (simp add: oui_claims_def)

text \<open>After some claims: the first claim on a prefix is in the table, a claim by another vendor marks it.\<close>

definition oui_state_ok :: "(string \<times> oui_group) list \<Rightarrow> oui_table \<times> string set \<Rightarrow> bool" where
  "oui_state_ok cs st \<longleftrightarrow>
     (\<forall>p. (case filter (\<lambda>c. fst c = p) cs of
             [] \<Rightarrow> fst st p = None \<and> p \<notin> snd st
           | c # rest \<Rightarrow> fst st p = Some \<lparr>oui_vendor = group_vendor (snd c), oui_type = group_type (snd c)\<rparr> \<and>
               (p \<in> snd st \<longleftrightarrow> (\<exists>c' \<in> set rest. group_vendor (snd c') \<noteq> group_vendor (snd c)))))"

lemma oui_state_step:
  assumes "oui_state_ok cs st" and "to_lower (fst c) = fst c"
  shows "oui_state_ok (cs @ [c]) (add_claim c st)"
  unfolding oui_state_ok_def
proof
  fix p
  have ok: "case filter (\<lambda>c. fst c = q) cs of
             [] \<Rightarrow> fst st q = None \<and> q \<notin> snd st
           | c # rest \<Rightarrow> fst st q = Some \<lparr>oui_vendor = group_vendor (snd c), oui_type = group_type (snd c)\<rparr> \<and>
               (q \<in> snd st \<longleftrightarrow> (\<exists>c' \<in> set rest. group_vendor (snd c') \<noteq> group_vendor (snd c)))" for q
    using assms(1) by (simp add: oui_state_ok_def)
  show "case filter (\<lambda>c. fst c = p) (cs @ [c]) of
             [] \<Rightarrow> fst (add_claim c st) p = None \<and> p \<notin> snd (add_claim c st)
           | c' # rest \<Rightarrow> fst (add_claim c st) p = Some \<lparr>oui_vendor = group_vendor (snd c'), oui_type = group_type (snd c')\<rparr> \<and>
               (p \<in> snd (add_claim c st) \<longleftrightarrow> (\<exists>d \<in> set rest. group_vendor (snd d) \<noteq> group_vendor (snd c')))"
  proof (cases "fst c = p")
    case True
    with ok [of p] assms(2) show ?thesis
      by (cases "filter (\<lambda>c. fst c = p) cs") (auto simp: add_claim_def add_prefix_def Let_def)
  next
    case False
    then have "fst (add_claim c st) p = fst st p" "p \<in> snd (add_claim c st) \<longleftrightarrow> p \<in> snd st"
      using assms(2) by (auto simp: add_claim_def add_prefix_def Let_def split: option.split)
    with ok [of p] False show ?thesis by (cases "filter (\<lambda>c. fst c = p) cs") simp_all
  qed
qed

lemma oui_state_claims: "list_all (\<lambda>c. to_lower (fst c) = fst c) cs \<Longrightarrow> oui_state_ok cs (fold add_claim cs (Map.empty, {}))"
proof (induction cs rule: rev_induct)
  case (snoc c cs)
  then show ?case using oui_state_step [of cs _ c] by simp
qed (simp add: oui_state_ok_def)

text \<open>
  The OUI table attributes a prefix to a vendor exactly if at least one group lists it, in any case, and all groups that
  list it name the same vendor; the entry is the first such group's. Groups with different vendors cancel each other.
\<close>

theorem oui_table_conflict_free:
  "buildOUITable groups p = Some o' \<longleftrightarrow>
     (\<exists>c rest. filter (\<lambda>c. fst c = p) (oui_claims groups) = c # rest \<and>
        o' = \<lparr>oui_vendor = group_vendor (snd c), oui_type = group_type (snd c)\<rparr> \<and>
        list_all (\<lambda>c'. group_vendor (snd c') = group_vendor (snd c)) rest)"
proof -
  let ?st = "fold add_claim (oui_claims groups) (Map.empty, {})"
  have "list_all (\<lambda>c. to_lower (fst c) = fst c) (oui_claims groups)" by (auto simp: oui_claims_def list_all_iff)
  from oui_state_claims [OF this] have "oui_state_ok (oui_claims groups) ?st" .
  then have ok: "case filter (\<lambda>c. fst c = p) (oui_claims groups) of
      [] \<Rightarrow> fst ?st p = None \<and> p \<notin> snd ?st
    | c # rest \<Rightarrow> fst ?st p = Some \<lparr>oui_vendor = group_vendor (snd c), oui_type = group_type (snd c)\<rparr> \<and>
        (p \<in> snd ?st \<longleftrightarrow> (\<exists>c' \<in> set rest. group_vendor (snd c') \<noteq> group_vendor (snd c)))"
    by (simp add: oui_state_ok_def)
  have b: "buildOUITable groups p = (if p \<in> snd ?st then None else fst ?st p)"
    by (simp add: buildOUITable_def build_by_claims Let_def)
  show ?thesis
  proof (cases "filter (\<lambda>c. fst c = p) (oui_claims groups)")
    case Nil
    with ok b show ?thesis by simp
  next
    case (Cons c rest)
    with ok b show ?thesis by (cases "p \<in> snd ?st") (auto simp: list_all_iff)
  qed
qed

end
