(* ===== verification/Isp.thy ===== *)
theory Isp
  imports Http Jwt Neighbors
begin

text \<open>
  The operator of a public neighbour (\<open>sse/metrics.go\<close>): the cache of RDAP answers, the lookups
  that run in the background, and the reading of an answer. Times are nanoseconds.
\<close>

section \<open>RDAP answers\<close>

record isp_metadata =
  isp_operator :: string
  isp_asn :: string
  isp_network :: string

definition no_isp :: isp_metadata where
  "no_isp = \<lparr>isp_operator = [], isp_asn = [], isp_network = []\<rparr>"

record rdap_entity =
  rd_roles :: "string list"
  rd_vcard :: "json list"

record rdap_response =
  rd_name :: string
  rd_handle :: string
  rd_start :: string
  rd_end :: string
  rd_entities :: "rdap_entity list"

text \<open>\<open>json.Unmarshal\<close> of a raw value into a string and into a list of rows; \<open>null\<close> leaves the zero value.\<close>

fun unmarshal_string :: "json \<Rightarrow> string option" where
  "unmarshal_string (JStr s) = Some s"
| "unmarshal_string JNull = Some []"
| "unmarshal_string _ = None"

fun unmarshal_row :: "json \<Rightarrow> json list option" where
  "unmarshal_row (JArr xs) = Some xs"
| "unmarshal_row JNull = Some []"
| "unmarshal_row _ = None"

definition unmarshal_rows :: "json \<Rightarrow> json list list option" where
  "unmarshal_rows j =
     Option.bind (unmarshal_row j)
       (\<lambda>rs. if list_all (\<lambda>r. unmarshal_row r \<noteq> None) rs then Some (map (the \<circ> unmarshal_row) rs) else None)"

definition row_property :: "string \<Rightarrow> json list \<Rightarrow> string option" where
  "row_property property row =
     (if length row < 4 then None
      else case unmarshal_string (row ! 0) of
        None \<Rightarrow> None
      | Some name \<Rightarrow>
          if equal_fold name property then map_option trim_space (unmarshal_string (row ! 3)) else None)"

definition rdapVCardProperty :: "json list \<Rightarrow> string \<Rightarrow> string" where
  "rdapVCardProperty raw property =
     (if length raw < 2 then []
      else case unmarshal_rows (raw ! 1) of
        None \<Rightarrow> []
      | Some rows \<Rightarrow> (case List.map_filter (row_property property) rows of [] \<Rightarrow> [] | v # _ \<Rightarrow> v))"

definition rdapVCardName :: "json list \<Rightarrow> string" where
  "rdapVCardName raw = rdapVCardProperty raw ''fn''"

definition rdapVCardKind :: "json list \<Rightarrow> string" where
  "rdapVCardKind raw = to_lower (rdapVCardProperty raw ''kind'')"

definition known_operators :: "string list" where
  "known_operators = [''SFR'', ''ORANGE'', ''BOUYGUES TELECOM'', ''FREE'', ''VODAFONE'', ''PROXIMUS'', ''SWISSCOM'']"

definition shortOperatorName :: "string \<Rightarrow> string" where
  "shortOperatorName value =
     (let upper = to_upper (trim_space value)
      in case List.find (contains upper) known_operators of Some k \<Rightarrow> k | None \<Rightarrow> trim_space value)"

text \<open>The registrants: the last named one, or the first that is an organisation.\<close>

fun registrant_name :: "rdap_entity list \<Rightarrow> string \<Rightarrow> string" where
  "registrant_name [] operator = operator"
| "registrant_name (e # es) operator =
     (if \<not> containsString (rd_roles e) ''registrant'' then registrant_name es operator
      else
        let name = rdapVCardName (rd_vcard e)
        in if name = [] then registrant_name es operator
           else if rdapVCardKind (rd_vcard e) = ''org'' then name
           else registrant_name es name)"

definition en_dash :: string where
  "en_dash = [CHR '' '', CHR 0xE2, CHR 0x80, CHR 0x93, CHR '' '']"

definition parseISPMetadata :: "rdap_response \<Rightarrow> isp_metadata" where
  "parseISPMetadata p =
     (let o1 = registrant_name (rd_entities p) [];
          operator = (if o1 = [] then rd_name p else o1);
          network = (if rd_start p \<noteq> [] \<and> rd_end p \<noteq> [] then rd_start p @ en_dash @ rd_end p else rd_handle p)
      in \<lparr>isp_operator = shortOperatorName operator, isp_asn = [], isp_network = network\<rparr>)"

text \<open>The reply of the RDAP server: none, or a status with the decoded body.\<close>

datatype rdap_reply = RdapFailed | RdapReply nat "rdap_response option"

definition fetchISPMetadata :: "rdap_reply \<Rightarrow> isp_metadata option" where
  "fetchISPMetadata reply =
     (case reply of
        RdapFailed \<Rightarrow> None
      | RdapReply code payload \<Rightarrow>
          if code < 200 \<or> 300 \<le> code then None else map_option parseISPMetadata payload)"

section \<open>The cache and the lookups in the background\<close>

record isp_entry =
  ie_metadata :: isp_metadata
  ie_expires :: int

record isp_cache =
  ic_entries :: "string \<Rightarrow> isp_entry option"
  ic_inFlight :: "string set"

definition empty_isp_cache :: isp_cache where
  "empty_isp_cache = \<lparr>ic_entries = Map.empty, ic_inFlight = {}\<rparr>"

text \<open>The answer to a sighting, whether a lookup is started, and the cache.\<close>

definition ispMetadataForPublicNeighbor :: "int \<Rightarrow> string \<Rightarrow> isp_cache \<Rightarrow> isp_metadata \<times> bool \<times> isp_cache" where
  "ispMetadataForPublicNeighbor now ip c =
     (if \<not> isPublicNeighborIP ip then (no_isp, False, c)
      else
        let start = (if ip \<in> ic_inFlight c then (no_isp, False, c)
                     else (no_isp, True, c\<lparr>ic_inFlight := insert ip (ic_inFlight c)\<rparr>))
        in case ic_entries c ip of
             Some e \<Rightarrow> if now < ie_expires e then (ie_metadata e, False, c) else start
           | None \<Rightarrow> start)"

definition refreshISPMetadata :: "int \<Rightarrow> rdap_reply \<Rightarrow> string \<Rightarrow> isp_cache \<Rightarrow> isp_cache" where
  "refreshISPMetadata now reply ip c =
     (let r = fetchISPMetadata reply;
          ttl = (if r = None then hour else 24 * hour);
          md = (case r of None \<Rightarrow> no_isp | Some m \<Rightarrow> m)
      in c\<lparr>ic_entries := (ic_entries c)(ip \<mapsto> \<lparr>ie_metadata = md, ie_expires = now + ttl\<rparr>),
           ic_inFlight := ic_inFlight c - {ip}\<rparr>)"

text \<open>
  The collectors and the goroutines they start, interleaved: a state is the cache, the running
  lookups and the clock; a step is a sighting or the end of a running lookup, and the clock never
  goes back.
\<close>

type_synonym isp_state = "isp_cache \<times> string list \<times> int"

inductive isp_step :: "isp_state \<Rightarrow> isp_state \<Rightarrow> bool" where
  sighting: "now \<le> now' \<Longrightarrow> ispMetadataForPublicNeighbor now' ip c = (md, started, c') \<Longrightarrow>
    isp_step (c, running, now) (c', (if started then ip # running else running), now')"
| finished: "now \<le> now' \<Longrightarrow> ip \<in> set running \<Longrightarrow>
    isp_step (c, running, now) (refreshISPMetadata now' reply ip c, remove1 ip running, now')"

inductive_cases isp_stepE: "isp_step (c, running, now) s'"

definition single_flight :: "isp_state \<Rightarrow> bool" where
  "single_flight s \<longleftrightarrow> (case s of (c, running, _) \<Rightarrow> distinct running \<and> set running = ic_inFlight c)"

definition fresh :: "int \<Rightarrow> string \<Rightarrow> isp_cache \<Rightarrow> bool" where
  "fresh now ip c \<longleftrightarrow> (case ic_entries c ip of None \<Rightarrow> False | Some e \<Rightarrow> now < ie_expires e)"

lemma sighting_effect:
  "snd (ispMetadataForPublicNeighbor now ip c) =
     (if isPublicNeighborIP ip \<and> \<not> fresh now ip c \<and> ip \<notin> ic_inFlight c
      then (True, c\<lparr>ic_inFlight := insert ip (ic_inFlight c)\<rparr>) else (False, c))"
  by (cases "ic_entries c ip") (simp_all add: ispMetadataForPublicNeighbor_def fresh_def Let_def)

lemma sighting_cases:
  assumes "ispMetadataForPublicNeighbor now ip c = (md, started, c')"
  obtains "started" "ip \<notin> ic_inFlight c" "\<not> fresh now ip c" "c' = c\<lparr>ic_inFlight := insert ip (ic_inFlight c)\<rparr>"
    | "\<not> started" "c' = c"
proof -
  have "(started, c') = (if isPublicNeighborIP ip \<and> \<not> fresh now ip c \<and> ip \<notin> ic_inFlight c
      then (True, c\<lparr>ic_inFlight := insert ip (ic_inFlight c)\<rparr>) else (False, c))"
    using sighting_effect [of now ip c] assms by simp
  then show ?thesis using that by (simp split: if_splits)
qed

lemma single_flight_step: "isp_step s s' \<Longrightarrow> single_flight s \<Longrightarrow> single_flight s'"
proof (induction rule: isp_step.induct)
  case (sighting now now' ip c md started c' running)
  from sighting(2) show ?case by (cases rule: sighting_cases) (use sighting(3) in \<open>auto simp: single_flight_def\<close>)
next
  case (finished now now' ip running c reply)
  then show ?case by (auto simp: single_flight_def refreshISPMetadata_def Let_def)
qed

lemma single_flight_reachable: "isp_step\<^sup>*\<^sup>* s s' \<Longrightarrow> single_flight s \<Longrightarrow> single_flight s'"
  by (induction rule: rtranclp_induct) (auto intro: single_flight_step)

text \<open>What a finished lookup leaves is served until it expires, whatever runs in between.\<close>

definition served :: "string \<Rightarrow> isp_metadata \<Rightarrow> int \<Rightarrow> isp_state \<Rightarrow> bool" where
  "served ip md until s \<longleftrightarrow>
     (case s of (c, running, _) \<Rightarrow>
        ip \<notin> ic_inFlight c \<and> ip \<notin> set running \<and> ic_entries c ip = Some \<lparr>ie_metadata = md, ie_expires = until\<rparr>)"

lemma served_step:
  "isp_step s s' \<Longrightarrow> single_flight s \<Longrightarrow> served ip md until s \<Longrightarrow> snd (snd s') < until \<Longrightarrow> served ip md until s'"
proof (induction rule: isp_step.induct)
  case (sighting now now' ip' c md' started c' running)
  from sighting(2) show ?case
    by (cases rule: sighting_cases) (use sighting(4,5) in \<open>auto simp: served_def fresh_def\<close>)
next
  case (finished now now' ip' running c reply)
  then have "ip' \<noteq> ip" by (auto simp: served_def)
  with finished show ?case
    by (auto simp: served_def refreshISPMetadata_def Let_def dest: notin_set_remove1)
qed

lemma isp_clock: "isp_step\<^sup>*\<^sup>* s s' \<Longrightarrow> snd (snd s) \<le> snd (snd s')"
proof (induction rule: rtranclp_induct)
  case (step s' s'')
  from step(2) have "snd (snd s') \<le> snd (snd s'')" by cases auto
  with step show ?case by simp
qed simp

lemma served_run:
  "isp_step\<^sup>*\<^sup>* s s' \<Longrightarrow> single_flight s \<Longrightarrow> served ip md until s \<Longrightarrow> snd (snd s') < until \<Longrightarrow> served ip md until s'"
proof (induction rule: rtranclp_induct)
  case (step s' s'')
  have "snd (snd s') < until" using isp_clock [OF r_into_rtranclp [of isp_step, OF step(2)]] step(6) by linarith
  with step show ?case by (meson served_step single_flight_reachable)
qed simp

section \<open>Properties\<close>

text \<open>
  C34. A public address that was sighted is looked up once and its answer arrives: from the sighting on there is
  exactly one lookup for it in the background, that lookup may finish at any time, and every later sighting until the answer expires, 24 hours after
  a success and one hour after a failure, is served with the answer without another lookup, whatever other
  sightings and lookups happen in between.
\<close>

theorem isp_answer_served:
  assumes "isp_step\<^sup>*\<^sup>* (empty_isp_cache, [], t0) (c, running, t)" and "ip \<in> ic_inFlight c" and "t \<le> t1"
    and "isp_step\<^sup>*\<^sup>* (refreshISPMetadata t1 reply ip c, remove1 ip running, t1) (c', running', t2)"
    and "t2 \<le> now" and "now < t1 + (if fetchISPMetadata reply = None then hour else 24 * hour)"
    and "isPublicNeighborIP ip"
  shows "count_list running ip = 1 \<and>
    isp_step (c, running, t) (refreshISPMetadata t1 reply ip c, remove1 ip running, t1) \<and>
    ispMetadataForPublicNeighbor now ip c' =
      ((case fetchISPMetadata reply of None \<Rightarrow> no_isp | Some m \<Rightarrow> m), False, c')"
proof -
  have "single_flight (empty_isp_cache, [], t0)" by (simp add: single_flight_def empty_isp_cache_def)
  then have sf: "single_flight (c, running, t)" by (rule single_flight_reachable [OF assms(1)])
  then have r: "distinct running" "ip \<in> set running" using assms(2) by (simp_all add: single_flight_def)
  then have cnt: "count_list running ip = 1" by (induction running) auto
  have st: "isp_step (c, running, t) (refreshISPMetadata t1 reply ip c, remove1 ip running, t1)"
    by (rule isp_step.finished [OF assms(3) r(2)])
  let ?md = "case fetchISPMetadata reply of None \<Rightarrow> no_isp | Some m \<Rightarrow> m"
  let ?until = "t1 + (if fetchISPMetadata reply = None then hour else 24 * hour)"
  have "served ip ?md ?until (refreshISPMetadata t1 reply ip c, remove1 ip running, t1)"
    using r(1) by (simp add: served_def refreshISPMetadata_def Let_def)
  then have "served ip ?md ?until (c', running', t2)"
    by (intro served_run [OF assms(4) single_flight_step [OF st sf]]) (use assms(5,6) in simp_all)
  then have "ic_entries c' ip = Some \<lparr>ie_metadata = ?md, ie_expires = ?until\<rparr>" by (simp add: served_def)
  then have "ispMetadataForPublicNeighbor now ip c' = (?md, False, c')"
    using assms(6,7) by (simp add: ispMetadataForPublicNeighbor_def)
  with cnt st show ?thesis by blast
qed

theorem isp_answer_served_witness:
  "\<exists>c'. ispMetadataForPublicNeighbor 20 ''8.8.8.8'' c' = (no_isp, False, c')"
proof -
  have p: "isPublicNeighborIP ''8.8.8.8''" by code_simp
  let ?c = "empty_isp_cache\<lparr>ic_inFlight := {''8.8.8.8''}\<rparr>"
  have s: "ispMetadataForPublicNeighbor 5 ''8.8.8.8'' empty_isp_cache = (no_isp, True, ?c)"
    using p by (simp add: ispMetadataForPublicNeighbor_def empty_isp_cache_def)
  have "isp_step (empty_isp_cache, [], 0) (?c, (if True then [''8.8.8.8''] else []), 5)"
    by (rule isp_step.sighting [OF _ s]) simp
  then have 1: "isp_step\<^sup>*\<^sup>* (empty_isp_cache, [], 0) (?c, [''8.8.8.8''], 5)" by simp
  have h: "(20::int) < 10 + hour" by (simp add: hour_def minute_def second_def)
  have "ispMetadataForPublicNeighbor 20 ''8.8.8.8'' (refreshISPMetadata 10 RdapFailed ''8.8.8.8'' ?c) =
      (no_isp, False, refreshISPMetadata 10 RdapFailed ''8.8.8.8'' ?c)"
    using isp_answer_served [OF 1 _ _ rtranclp.rtrancl_refl _ _ p, of 10 20 RdapFailed] h
    by (simp add: fetchISPMetadata_def)
  then show ?thesis by blast
qed

end
