(* ===== verification/NetMetrics.thy ===== *)
theory NetMetrics
  imports CpuMetrics DeviceIdentity Isp
begin

text \<open>
  The network collectors (\<open>sse/metrics.go\<close>): the byte counters, the main interface, the interfaces with
  their rates, and the ARP table with the identity and the operator of every neighbour.
\<close>

section \<open>Counters\<close>

text \<open>The lines after the two header lines; \<open>None\<close> is the panic of the slice expression.\<close>

definition dev_lines :: "string \<Rightarrow> string list option" where
  "dev_lines d = (let ls = lines_of d in if length ls < 2 then None else Some (drop 2 ls))"

text \<open>Name, received and sent bytes of one line of \<open>/proc/net/dev\<close>.\<close>

definition dev_line :: "string \<Rightarrow> (string \<times> int \<times> int) option" where
  "dev_line line =
     (let fs = GoPrelude.fields line; name = trim_cutset (fs ! 0) '':''
      in if length fs < 10 then None
         else if name = ''lo'' then None
         else Some (name, parseU64 (fs ! 1), parseU64 (fs ! 9)))"

definition readNetBytes :: "machine \<Rightarrow> (int \<times> int) option" where
  "readNetBytes m =
     map_option (\<lambda>ls. let ds = List.map_filter dev_line ls
                      in (u64 (sum_list (map (fst \<circ> snd) ds)), u64 (sum_list (map (snd \<circ> snd) ds))))
       (dev_lines (read_or_empty m ''/proc/net/dev''))"

section \<open>The main interface\<close>

text \<open>One range over the counters: the first candidate, or a later one with more bytes.\<close>

definition pick_rx :: "string \<times> int \<Rightarrow> string \<times> int \<Rightarrow> string \<times> int" where
  "pick_rx c best = (if fst best = [] \<or> snd best < snd c then c else best)"

definition selectMainIface :: "(string \<times> int) list \<Rightarrow> (string \<Rightarrow> string) \<Rightarrow> string" where
  "selectMainIface rxByIface ipByIface =
     (let withIP = fst (fold pick_rx (filter (\<lambda>(n, _). ipByIface n \<noteq> []) rxByIface) ([], 0))
      in if withIP \<noteq> [] then withIP else fst (fold pick_rx rxByIface ([], 0)))"

text \<open>The first address of an interface that qualifies; a later interface of the same name overwrites an earlier one.\<close>

definition first_ip4 :: "(string \<times> bool \<Rightarrow> bool) \<Rightarrow> net_interface list \<Rightarrow> string \<Rightarrow> string" where
  "first_ip4 P itfs name =
     (case List.map_filter (\<lambda>i. if itf_name i = name then List.find P (itf_ip4s i) else None) (rev itfs) of
        [] \<Rightarrow> [] | (ip, _) # _ \<Rightarrow> ip)"

definition readMainIface :: "machine \<Rightarrow> (string \<times> string) option" where
  "readMainIface m =
     map_option
       (\<lambda>ls. let rx = fold (\<lambda>(n, r, _). put n r) (List.map_filter dev_line ls) [];
                 ips = first_ip4 (\<lambda>(_, loop). \<not> loop) (m_ifaces m);
                 iface = selectMainIface rx ips
             in (iface, ips iface))
       (dev_lines (read_or_empty m ''/proc/net/dev''))"

section \<open>Interfaces and rates\<close>

record net_iface_info =
  ni_name :: string
  ni_ip :: string
  ni_master :: string
  ni_master_ip :: string
  ni_rx :: int
  ni_tx :: int
  ni_rx_bps :: int
  ni_tx_bps :: int
  ni_up :: bool

definition applyInterfaceMasters ::
  "(string \<Rightarrow> string) \<Rightarrow> (string \<Rightarrow> string) \<Rightarrow> net_iface_info list \<Rightarrow> net_iface_info list" where
  "applyInterfaceMasters masters ipByIface ifs =
     map (\<lambda>i. i\<lparr>ni_master := masters (ni_name i), ni_master_ip := ipByIface (masters (ni_name i))\<rparr>) ifs"

definition readAllIfaces :: "machine \<Rightarrow> net_iface_info list" where
  "readAllIfaces m =
     (case m_read m ''/proc/net/dev'' of
        None \<Rightarrow> []
      | Some d \<Rightarrow>
          let ips = first_ip4 (\<lambda>_. True) (m_ifaces m);
              ups = (\<lambda>n. case List.find (\<lambda>i. itf_name i = n) (rev (m_ifaces m)) of None \<Rightarrow> False | Some i \<Rightarrow> itf_up i);
              result = map (\<lambda>(n, rx, tx). \<lparr>ni_name = n, ni_ip = ips n, ni_master = [], ni_master_ip = [],
                              ni_rx = rx, ni_tx = tx, ni_rx_bps = 0, ni_tx_bps = 0, ni_up = ups n\<rparr>)
                         (List.map_filter dev_line (drop 2 (lines_of d)));
              masters = (\<lambda>n. if n \<in> ni_name ` set result
                             then (case m_link m (''/sys/class/net/'' @ n @ ''/master'') of None \<Rightarrow> [] | Some l \<Rightarrow> base_name l)
                             else [])
          in if length (lines_of d) < 3 then [] else applyInterfaceMasters masters ips result)"

text \<open>The rate over an interval in seconds; a counter that went back gives none.\<close>

definition rate :: "int \<Rightarrow> int \<Rightarrow> rat \<Rightarrow> int" where
  "rate now before interval = (if before \<le> now then \<lfloor>of_int (now - before) / interval\<rfloor> else 0)"

definition with_rates :: "(string \<Rightarrow> net_iface_info option) option \<Rightarrow> rat \<Rightarrow> net_iface_info \<Rightarrow> net_iface_info" where
  "with_rates prev interval i =
     (if prev = None \<or> interval \<le> 0 then i
      else case (the prev) (ni_name i) of
        None \<Rightarrow> i
      | Some p \<Rightarrow> i\<lparr>ni_rx_bps := rate (ni_rx i) (ni_rx p) interval, ni_tx_bps := rate (ni_tx i) (ni_tx p) interval\<rparr>)"

section \<open>The ARP table\<close>

record arp_entry =
  arp_ip :: string
  arp_mac :: string
  arp_iface :: string
  arp_state :: string
  arp_type :: string
  arp_hostname :: string
  arp_detection :: string
  arp_vendor :: string
  arp_confidence :: int
  arp_sources :: "string list"
  arp_isp :: isp_metadata

definition arp_state_of :: "string \<Rightarrow> string" where
  "arp_state_of flags =
     (if flags = ''0x2'' then ''reachable'' else if flags = ''0x4'' \<or> flags = ''0x6'' then ''stale'' else ''unknown'')"

text \<open>The caches and the lookups that were started.\<close>

record arp_caches =
  ac_identities :: identity_cache
  ac_isp :: isp_cache
  ac_started :: "string list"

definition arp_line :: "string \<Rightarrow> (string \<times> string \<times> string \<times> string) option" where
  \<comment> \<open>address, flags, hardware address, interface\<close>
  "arp_line line =
     (let fs = GoPrelude.fields line
      in if length fs < 6 \<or> fs ! 3 = ''00:00:00:00:00:00'' then None else Some (fs ! 0, fs ! 2, fs ! 3, fs ! 5))"

text \<open>One neighbour; \<open>None\<close> is a panic of the identification.\<close>

definition arp_neighbor ::
  "machine \<Rightarrow> metadata \<Rightarrow> int \<Rightarrow> string \<times> string \<times> string \<times> string \<Rightarrow> arp_caches \<Rightarrow> (arp_entry \<times> arp_caches) option" where
  "arp_neighbor m md now l ac =
     (case l of (ip, flags, mac, iface) \<Rightarrow>
        let meta = metadataForNeighbor md ip mac
        in case neighborIdentityFor
                  \<lparr>q_ip = ip, q_mac = mac, q_iface = iface, q_inventory = m_env m ''UNYPORT_DEVICE_TYPES'',
                   q_hostname = nm_hostname meta, q_services = []\<rparr> (ac_identities ac) of
             None \<Rightarrow> None
           | Some (i, ids) \<Rightarrow>
               (case ispMetadataForPublicNeighbor now ip (ac_isp ac) of (isp, started, ic) \<Rightarrow>
                  Some (\<lparr>arp_ip = ip, arp_mac = mac, arp_iface = iface, arp_state = arp_state_of flags,
                         arp_type = ni_type i, arp_hostname = nm_hostname meta,
                         arp_detection = (if isp_operator isp \<noteq> [] then ''rdap'' else ni_detection i),
                         arp_vendor = ni_vendor i, arp_confidence = ni_confidence i, arp_sources = ni_sources i,
                         arp_isp = isp\<rparr>,
                        \<lparr>ac_identities = ids, ac_isp = ic,
                         ac_started = (if started then ip # ac_started ac else ac_started ac)\<rparr>)))"

fun arp_neighbors ::
  "machine \<Rightarrow> metadata \<Rightarrow> int \<Rightarrow> (string \<times> string \<times> string \<times> string) list \<Rightarrow> arp_caches \<Rightarrow>
     (arp_entry list \<times> arp_caches) option" where
  "arp_neighbors m md now [] ac = Some ([], ac)"
| "arp_neighbors m md now (l # ls) ac =
     (case arp_neighbor m md now l ac of
        None \<Rightarrow> None
      | Some (e, ac') \<Rightarrow> map_option (\<lambda>(es, ac''). (e # es, ac'')) (arp_neighbors m md now ls ac'))"

text \<open>The metadata of the Kea files and the hosts file are an argument: see \<open>readKeaNeighborMetadata\<close>.\<close>

definition readARPTable :: "machine \<Rightarrow> metadata \<Rightarrow> int \<Rightarrow> arp_caches \<Rightarrow> (arp_entry list \<times> arp_caches) option" where
  "readARPTable m md now ac =
     (case m_read m ''/proc/net/arp'' of
        None \<Rightarrow> Some ([], ac)
      | Some d \<Rightarrow> arp_neighbors m md now (List.map_filter arp_line (tl (lines_of d))) ac)"

record network_map =
  nmap_interfaces :: "net_iface_info list"
  nmap_neighbors :: "arp_entry list"

definition collectNetworkMap ::
  "machine \<Rightarrow> metadata \<Rightarrow> int \<Rightarrow> (string \<Rightarrow> net_iface_info option) option \<Rightarrow> rat \<Rightarrow> arp_caches \<Rightarrow>
     (network_map \<times> (string \<Rightarrow> net_iface_info option) \<times> arp_caches) option" where
  "collectNetworkMap m md now prevIfaces interval ac =
     (let ifs = readAllIfaces m
      in map_option
           (\<lambda>(ns, ac'). (\<lparr>nmap_interfaces = map (with_rates prevIfaces interval) ifs, nmap_neighbors = ns\<rparr>,
                         map_of (rev (map (\<lambda>i. (ni_name i, i)) ifs)), ac'))
           (readARPTable m md now ac))"

section \<open>Properties\<close>

lemma fold_pick_rx:
  assumes "\<forall>(n, r) \<in> set cs. n \<noteq> []" and "fst b \<noteq> []"
  shows "fold pick_rx cs b \<in> insert b (set cs) \<and> snd b \<le> snd (fold pick_rx cs b) \<and>
    (\<forall>c \<in> set cs. snd c \<le> snd (fold pick_rx cs b))"
  using assms
proof (induction cs arbitrary: b)
  case (Cons c cs)
  let ?b = "pick_rx c b"
  have p: "fst ?b \<noteq> []" "snd b \<le> snd ?b" "snd c \<le> snd ?b" "?b \<in> {b, c}"
    using Cons.prems by (auto simp: pick_rx_def)
  have ih: "fold pick_rx cs ?b \<in> insert ?b (set cs)" "snd ?b \<le> snd (fold pick_rx cs ?b)"
    "\<forall>c \<in> set cs. snd c \<le> snd (fold pick_rx cs ?b)"
    using Cons.IH [of ?b] Cons.prems(1) p(1) by simp_all
  have "fold pick_rx cs ?b \<in> insert b (set (c # cs))" using ih(1) p(4) by auto
  moreover have "snd b \<le> snd (fold pick_rx cs ?b)" "snd c \<le> snd (fold pick_rx cs ?b)" using p(2,3) ih(2) by linarith+
  ultimately show ?case using ih(3) by simp
qed simp

lemma pick_rx_start:
  assumes "\<forall>(n, r) \<in> set cs. n \<noteq> []" and "cs \<noteq> []"
  shows "fold pick_rx cs ([], 0) \<in> set cs \<and> (\<forall>c \<in> set cs. snd c \<le> snd (fold pick_rx cs ([], 0)))"
proof -
  obtain c cs' where cs: "cs = c # cs'" using assms(2) by (cases cs) auto
  have "pick_rx c ([], 0) = c" by (simp add: pick_rx_def)
  moreover have "fst c \<noteq> []" using assms(1) cs by auto
  ultimately show ?thesis using fold_pick_rx [of cs' c] assms(1) cs by auto
qed

text \<open>
  The main interface is the busiest one that can be reached: it is one of the interfaces, has an address if any of
  them has, and no interface of the same standing received more bytes, in whatever order the map is ranged.
\<close>

theorem main_iface_best:
  assumes "\<forall>(n, r) \<in> set rx. n \<noteq> []" and "rx \<noteq> []"
  shows "\<exists>r. (selectMainIface rx ips, r) \<in> set rx \<and>
    (\<forall>(n', r') \<in> set rx. if ips (selectMainIface rx ips) = [] then ips n' = [] \<and> r' \<le> r else ips n' = [] \<or> r' \<le> r)"
proof -
  let ?w = "filter (\<lambda>(n, _). ips n \<noteq> []) rx"
  show ?thesis
  proof (cases "?w = []")
    case True
    then have no: "\<forall>(n, r) \<in> set rx. ips n = []" by (auto simp: filter_empty_conv)
    have "selectMainIface rx ips = fst (fold pick_rx rx ([], 0))" using True by (simp add: selectMainIface_def)
    moreover obtain n r where "fold pick_rx rx ([], 0) = (n, r)" by fastforce
    ultimately show ?thesis using pick_rx_start [OF assms] no by (intro exI [of _ r]) auto
  next
    case False
    have w: "\<forall>(n, r) \<in> set ?w. n \<noteq> []" using assms(1) by auto
    obtain n r where nr: "fold pick_rx ?w ([], 0) = (n, r)" by fastforce
    with pick_rx_start [OF w False] have m: "(n, r) \<in> set ?w" "\<forall>c \<in> set ?w. snd c \<le> r" by auto
    then have n: "n \<noteq> []" "ips n \<noteq> []" using w by auto
    then have "selectMainIface rx ips = n" using nr by (simp add: selectMainIface_def)
    with m n show ?thesis by (intro exI [of _ r]) auto
  qed
qed

theorem main_iface_best_witness:
  "\<exists>r. (selectMainIface [(''eth0'', 5), (''br0'', 9), (''wlan0'', 7)] (\<lambda>n. if n = ''br0'' then [] else ''10.0.0.1''), r)
     \<in> set [(''eth0'', 5), (''br0'', 9), (''wlan0'', 7)]"
  using main_iface_best [of "[(''eth0'', 5), (''br0'', 9), (''wlan0'', 7)]" "\<lambda>n. if n = ''br0'' then [] else ''10.0.0.1''"]
  by auto

lemma dev_lines_None: "dev_lines d = None \<longleftrightarrow> CHR 0x0A \<notin> set d"
  by (auto simp: dev_lines_def Let_def lines_of_def length_split_on count_list_0_iff)

text \<open>
  The collectors depend on \<open>/proc/net/dev\<close>: reading the counters panics exactly when the file has no line break, so whenever
  it cannot be read, and so does the choice of the main interface; the list of interfaces is empty then instead.
\<close>

theorem net_dev_panics:
  "(readNetBytes m = None \<longleftrightarrow> CHR 0x0A \<notin> set (read_or_empty m ''/proc/net/dev'')) \<and>
   (readMainIface m = None \<longleftrightarrow> CHR 0x0A \<notin> set (read_or_empty m ''/proc/net/dev'')) \<and>
   (readAllIfaces m = [] \<or> CHR 0x0A \<in> set (read_or_empty m ''/proc/net/dev''))"
proof -
  have "readAllIfaces m = []" if "CHR 0x0A \<notin> set (read_or_empty m ''/proc/net/dev'')"
    using that by (auto simp: readAllIfaces_def read_or_empty_def lines_of_def split_on_no_sep Let_def split: option.splits)
  then show ?thesis by (auto simp: readNetBytes_def readMainIface_def dev_lines_None)
qed

end
