(* ===== verification/Disks.thy ===== *)
theory Disks
  imports CpuMetrics
begin

text \<open>
  The disks (\<open>sse/metrics.go\<close>): the natural order of device names, the block device behind a
  partition, its kind and icon, and the choice of one mount per device.
\<close>

section \<open>Natural order\<close>

text \<open>
  \<open>naturalLess\<close> with two indices is a recursion over what is left of the strings; the lengths of the whole strings decide at the end.
\<close>

function natural_from :: "nat \<Rightarrow> nat \<Rightarrow> string \<Rightarrow> string \<Rightarrow> bool" where
  "natural_from la lb [] b = (la < lb)"
| "natural_from la lb (c # a) [] = (la < lb)"
| "natural_from la lb (c # a) (d # b) =
     (if is_digit_byte c \<and> is_digit_byte d then
        let na = parse_uint64 (takeWhile is_digit_byte (c # a)); nb = parse_uint64 (takeWhile is_digit_byte (d # b))
        in if na \<noteq> nb then na < nb
           else natural_from la lb (dropWhile is_digit_byte (c # a)) (dropWhile is_digit_byte (d # b))
      else if c \<noteq> d then byte c < byte d
      else natural_from la lb a b)"
  by pat_completeness auto
termination
  by (relation "measure (\<lambda>(la, lb, a, b). length a)") (auto simp: le_imp_less_Suc length_dropWhile_le)

definition naturalLess :: "string \<Rightarrow> string \<Rightarrow> bool" where
  "naturalLess a b = natural_from (length a) (length b) a b"

section \<open>Devices\<close>

definition digits :: string where
  "digits = ''0123456789''"

definition rootBlockDevice :: "string \<Rightarrow> string" where
  "rootBlockDevice device =
     (let name = base_name device
      in if has_prefix name ''nvme'' \<or> has_prefix name ''mmcblk'' then
           let part = rev (takeWhile (\<lambda>c. c \<noteq> CHR ''p'') (rev name)); p = length name - length part - 1
           in if CHR ''p'' \<in> set name \<and> 0 < p \<and> part \<noteq> [] \<and> snd (atoi part) then take p name else name
         else trim_right name digits)"

record disk_kind =
  dk_type :: string
  dk_model :: string
  dk_transport :: string
  dk_icon :: string

definition diskMetadata :: "machine \<Rightarrow> string \<Rightarrow> disk_kind" where
  "diskMetadata m device =
     (let name = rootBlockDevice device; base = ''/sys/class/block/'' @ name;
          model = readFirstFile m [base @ ''/device/model'', base @ ''/device/name''];
          transport = (case m_link m (base @ ''/device/subsystem'') of None \<Rightarrow> [] | Some l \<Rightarrow> to_lower (base_name l));
          rotational = (readFirstFile m [base @ ''/queue/rotational''] = ''1'');
          kind = (\<lambda>t tr i. \<lparr>dk_type = t, dk_model = model, dk_transport = tr, dk_icon = i\<rparr>)
      in if has_prefix name ''nvme'' then kind ''nvme'' ''nvme'' ''m2_nvme''
         else if has_prefix name ''mmcblk'' then kind ''emmc'' ''mmc'' ''emmc_chip''
         else if has_prefix name ''xvd'' \<or> has_prefix name ''vd'' then kind ''virtual'' ''virtio'' ''volume''
         else if transport = ''usb'' then kind ''usb'' transport ''usb_storage''
         else if rotational \<and> (contains (to_lower model) ''enterprise'' \<or> transport = ''sas'')
           then kind ''hdd'' transport ''hdd_enterprise''
         else if rotational then kind ''hdd'' transport ''hdd_35''
         else if has_prefix name ''sd'' then kind ''ssd'' transport ''ssd_sata_25''
         else kind ''storage'' transport ''storage'')"

section \<open>Mounts\<close>

definition skipFS :: "string list" where
  "skipFS =
     [''proc'', ''sysfs'', ''devtmpfs'', ''devpts'', ''cgroup'', ''cgroup2'', ''pstore'', ''bpf'', ''tracefs'', ''debugfs'',
      ''securityfs'', ''hugetlbfs'', ''mqueue'', ''fusectl'', ''rpc_pipefs'', ''nfsd'', ''autofs'', ''configfs'',
      ''efivarfs'', ''selinuxfs'', ''tmpfs'', ''overlay'', ''squashfs'']"

definition isPhysicalDev :: "string \<Rightarrow> bool" where
  "isPhysicalDev dev \<longleftrightarrow>
     list_ex (has_prefix dev) [''/dev/sd'', ''/dev/xvd'', ''/dev/vd'', ''/dev/nvme'', ''/dev/hd'', ''/dev/mmcblk'']"

record mount_line =
  ml_device :: string
  ml_mount :: string
  ml_fstype :: string

definition parse_mount :: "string \<Rightarrow> mount_line option" where
  "parse_mount line =
     (let fs = GoPrelude.fields line
      in if length fs < 3 then None
         else if fs ! 2 \<in> set skipFS \<or> \<not> isPhysicalDev (fs ! 0) then None
         else Some \<lparr>ml_device = fs ! 0, ml_mount = fs ! 1, ml_fstype = fs ! 2\<rparr>)"

text \<open>One mount: a mount point counts once, and a device keeps its shortest mount point.\<close>

definition consider_mount ::
  "mount_line \<Rightarrow> string list \<times> (string \<times> mount_line) list \<Rightarrow> string list \<times> (string \<times> mount_line) list" where
  "consider_mount l st =
     (if ml_mount l \<in> set (fst st) then st
      else
        (ml_mount l # fst st,
         case map_of (snd st) (ml_device l) of
           None \<Rightarrow> put (ml_device l) l (snd st)
         | Some prev \<Rightarrow> if length (ml_mount l) < length (ml_mount prev) then put (ml_device l) l (snd st) else snd st))"

definition best_mounts :: "string \<Rightarrow> (string \<times> mount_line) list" where
  "best_mounts d = snd (fold consider_mount (List.map_filter parse_mount (lines_of d)) ([], []))"

record disk_mount =
  dm_device :: string
  dm_disk :: string
  dm_mount :: string
  dm_fstype :: string
  dm_kind :: disk_kind
  dm_total :: int
  dm_used :: int
  dm_free :: int
  dm_pct :: int
  dm_pal :: string
  dm_bar :: string

definition pals :: "string list" where
  "pals = [''res-cyan'', ''res-amber'', ''res-steel'', ''res-violet'', ''res-lime'', ''res-rose'']"

definition megabytes :: "nat \<Rightarrow> nat \<Rightarrow> int" where
  "megabytes blocks bsize = u64 (int blocks * int bsize) div 1024 div 1024"

definition bar_class :: "int \<Rightarrow> string" where
  "bar_class pct = (if 75 < pct then ''crit'' else if 50 < pct then ''warn'' else [])"

text \<open>The disk of a mount; \<open>n\<close> is the number of disks found before it.\<close>

definition disk_of :: "machine \<Rightarrow> nat \<Rightarrow> mount_line \<Rightarrow> disk_mount option" where
  "disk_of m n l =
     (case m_statfs m (ml_mount l) of
        None \<Rightarrow> None
      | Some st \<Rightarrow>
          let tot = megabytes (st_blocks st) (st_bsize st); free = megabytes (st_bavail st) (st_bsize st);
              used = u64 (tot - megabytes (st_bfree st) (st_bsize st));
              pct = (u64 (used * 100) div tot) mod 256
          in if tot = 0 then None
             else Some \<lparr>dm_device = ml_device l, dm_disk = ''/dev/'' @ rootBlockDevice (ml_device l), dm_mount = ml_mount l,
                        dm_fstype = ml_fstype l, dm_kind = diskMetadata m (ml_device l), dm_total = tot, dm_used = used,
                        dm_free = free, dm_pct = pct, dm_pal = pals ! (n mod length pals), dm_bar = bar_class pct\<rparr>)"

definition add_disk :: "machine \<Rightarrow> mount_line \<Rightarrow> disk_mount list \<Rightarrow> disk_mount list" where
  "add_disk m l ds = (case disk_of m (length ds) l of None \<Rightarrow> ds | Some d \<Rightarrow> ds @ [d])"

definition disk_less :: "disk_mount \<Rightarrow> disk_mount \<Rightarrow> bool" where
  "disk_less a b =
     (if dm_device a \<noteq> dm_device b then naturalLess (dm_device a) (dm_device b) else naturalLess (dm_mount a) (dm_mount b))"

text \<open>\<open>rng\<close> lists the devices in the order the map is ranged over.\<close>

definition collectDisks :: "string list \<Rightarrow> machine \<Rightarrow> disk_mount list" where
  "collectDisks rng m =
     (case m_read m ''/proc/mounts'' of
        None \<Rightarrow> []
      | Some d \<Rightarrow>
          insertion_sort disk_less (fold (add_disk m) (List.map_filter (map_of (best_mounts d)) rng) []))"

section \<open>The order of canonical names\<close>

text \<open>A name whose runs of digits are numbers below \<open>2^64\<close> without leading zeros, and its tokens.\<close>

function canonical :: "string \<Rightarrow> bool" where
  "canonical [] = True"
| "canonical (c # s) =
     (if is_digit_byte c
      then (let w = takeWhile is_digit_byte (c # s)
            in w = nat_to_dec (nat (parse_uint64 w)) \<and> canonical (dropWhile is_digit_byte (c # s)))
      else canonical s)"
  by pat_completeness auto
termination
  by (relation "measure length") (auto simp: le_imp_less_Suc length_dropWhile_le)

function natural_key :: "string \<Rightarrow> int list" where
  "natural_key [] = []"
| "natural_key (c # s) =
     (if is_digit_byte c
      then (48 * 2 ^ 64 + parse_uint64 (takeWhile is_digit_byte (c # s))) # natural_key (dropWhile is_digit_byte (c # s))
      else (int (byte c) * 2 ^ 64) # natural_key s)"
  by pat_completeness auto
termination
  by (relation "measure length") (auto simp: le_imp_less_Suc length_dropWhile_le)

lemma natural_from_key:
  assumes "canonical a" and "canonical b" and "la = p + length a" and "lb = p + length b"
  shows "natural_from la lb a b \<longleftrightarrow> (natural_key a, natural_key b) \<in> lexord {(x, y). x < y}"
  using assms
proof (induction la lb a b arbitrary: p rule: natural_from.induct)
  case (1 la lb b)
  then show ?case by (cases b) auto
next
  case (2 la lb c a)
  then show ?case by simp
next
  case (3 la lb c a d b)
  let ?wa = "takeWhile is_digit_byte (c # a)" and ?wb = "takeWhile is_digit_byte (d # b)"
  let ?ra = "dropWhile is_digit_byte (c # a)" and ?rb = "dropWhile is_digit_byte (d # b)"
  let ?va = "parse_uint64 ?wa" and ?vb = "parse_uint64 ?wb"
  have val: "0 \<le> ?va" "?va < 2 ^ 64" "0 \<le> ?vb" "?vb < 2 ^ 64" using parse_uint64_bounds by blast+
  show ?case
  proof (cases "is_digit_byte c \<and> is_digit_byte d")
    case True
    have ca: "?wa = nat_to_dec (nat ?va)" "canonical ?ra" and cb: "?wb = nat_to_dec (nat ?vb)" "canonical ?rb"
      using "3.prems"(1,2) True by (simp_all add: Let_def)
    have ka: "natural_key (c # a) = (48 * 2 ^ 64 + ?va) # natural_key ?ra"
      and kb: "natural_key (d # b) = (48 * 2 ^ 64 + ?vb) # natural_key ?rb"
      using True by simp_all
    have l: "natural_from la lb (c # a) (d # b) \<longleftrightarrow> (if ?va \<noteq> ?vb then ?va < ?vb else natural_from la lb ?ra ?rb)"
      using True by (simp add: Let_def)
    show ?thesis
    proof (cases "?va = ?vb")
      case False
      then show ?thesis unfolding l ka kb by simp
    next
      case eq: True
      then have "?wa = ?wb" using ca(1) cb(1) by metis
      have len: "length xs = length (takeWhile is_digit_byte xs) + length (dropWhile is_digit_byte xs)" for xs
        by (metis length_append takeWhile_dropWhile_id)
      have "natural_from la lb ?ra ?rb \<longleftrightarrow> (natural_key ?ra, natural_key ?rb) \<in> lexord {(x, y). x < y}"
        by (rule "3.IH"(1) [OF True refl refl _ ca(2) cb(2), of "p + length ?wa"])
          (use eq "3.prems"(3,4) len [of "c # a"] len [of "d # b"] \<open>?wa = ?wb\<close> in \<open>simp_all only: not_not add.assoc\<close>)
      then show ?thesis unfolding l ka kb using eq by simp
    qed
  next
    case False
    have l: "natural_from la lb (c # a) (d # b) \<longleftrightarrow> (if c \<noteq> d then byte c < byte d else natural_from la lb a b)"
      by (simp only: natural_from.simps(3) False if_False)
    show ?thesis
    proof (cases "c = d")
      case True
      then have nd: "\<not> is_digit_byte c" "\<not> is_digit_byte d" using False by simp_all
      have "natural_from la lb a b \<longleftrightarrow> (natural_key a, natural_key b) \<in> lexord {(x, y). x < y}"
        by (rule "3.IH"(2) [OF False, of "Suc p"]) (use True nd "3.prems" in simp_all)
      with nd True show ?thesis unfolding l by simp
    next
      case ne: False
      have d: "48 \<le> byte e \<and> byte e \<le> 57" if "is_digit_byte e" for e
        using that by (simp add: is_digit_byte_def in_range_def)
      have n: "byte e < 48 \<or> 57 < byte e" if "\<not> is_digit_byte e" for e
        using that by (auto simp: is_digit_byte_def in_range_def)
      have ne': "byte c \<noteq> byte d" using ne by simp
      consider "is_digit_byte c" "\<not> is_digit_byte d" | "\<not> is_digit_byte c" "is_digit_byte d"
        | "\<not> is_digit_byte c" "\<not> is_digit_byte d" using False by blast
      then show ?thesis
      proof cases
        case 1
        have "48 * 2 ^ 64 + ?va < int (byte d) * 2 ^ 64 \<longleftrightarrow> byte c < byte d"
          "48 * 2 ^ 64 + ?va \<noteq> int (byte d) * 2 ^ 64"
          using d [OF 1(1)] n [OF 1(2)] val by auto
        with ne 1 show ?thesis unfolding l by simp
      next
        case 2
        have "int (byte c) * 2 ^ 64 < 48 * 2 ^ 64 + ?vb \<longleftrightarrow> byte c < byte d"
          "int (byte c) * 2 ^ 64 \<noteq> 48 * 2 ^ 64 + ?vb"
          using d [OF 2(2)] n [OF 2(1)] val by auto
        with ne 2 show ?thesis unfolding l by simp
      next
        case 3
        with ne ne' show ?thesis unfolding l by simp
      qed
    qed
  qed
qed

text \<open>The key determines a canonical name.\<close>

lemma natural_key_inj: "canonical a \<Longrightarrow> canonical b \<Longrightarrow> natural_key a = natural_key b \<Longrightarrow> a = b"
proof -
  assume c: "canonical a" "canonical b" and k: "natural_key a = natural_key b"
  show "a = b"
    using c k
  proof (induction a arbitrary: b rule: natural_key.induct)
    case 1
    then show ?case by (cases b) (auto split: if_splits)
  next
    case (2 e s)
    obtain f t where b: "b = f # t" using "2.prems"(3) by (cases b) (auto split: if_splits)
    have d: "48 \<le> byte g \<and> byte g \<le> 57" if "is_digit_byte g" for g
      using that by (simp add: is_digit_byte_def in_range_def)
    have n: "byte g < 48 \<or> 57 < byte g" if "\<not> is_digit_byte g" for g
      using that by (auto simp: is_digit_byte_def in_range_def)
    have v: "0 \<le> parse_uint64 w \<and> parse_uint64 w < 2 ^ 64" for w by (rule parse_uint64_bounds)
    have mixed: "48 * 2 ^ 64 + parse_uint64 w \<noteq> int (byte g) * 2 ^ 64" if "\<not> is_digit_byte g" for g w
      using n [OF that] v [of w] by auto
    show ?case
    proof (cases "is_digit_byte e")
      case True
      have f: "is_digit_byte f"
      proof (rule ccontr)
        assume f: "\<not> is_digit_byte f"
        then have "48 * 2 ^ 64 + parse_uint64 (takeWhile is_digit_byte (e # s)) = int (byte f) * 2 ^ 64"
          using "2.prems"(3) True by (simp add: b)
        with mixed [OF f] show False by blast
      qed
      let ?w = "takeWhile is_digit_byte (e # s)" and ?w' = "takeWhile is_digit_byte (f # t)"
      have "?w = nat_to_dec (nat (parse_uint64 ?w))" "?w' = nat_to_dec (nat (parse_uint64 ?w'))"
        using "2.prems"(1,2) True f by (simp_all add: b Let_def)
      moreover have "parse_uint64 ?w = parse_uint64 ?w'" using "2.prems"(3) True f by (simp add: b)
      ultimately have "?w = ?w'" by metis
      moreover have "dropWhile is_digit_byte (e # s) = dropWhile is_digit_byte (f # t)"
        by (rule "2.IH"(1) [OF True]) (use "2.prems" True f in \<open>simp_all add: b Let_def\<close>)
      ultimately show ?thesis unfolding b by (metis takeWhile_dropWhile_id)
    next
      case False
      have f: "\<not> is_digit_byte f"
      proof
        assume "is_digit_byte f"
        then have "48 * 2 ^ 64 + parse_uint64 (takeWhile is_digit_byte (f # t)) = int (byte e) * 2 ^ 64"
          using "2.prems"(3) False by (simp add: b)
        with mixed [OF False] show False by blast
      qed
      have "byte e = byte f" using "2.prems"(3) False f by (simp add: b)
      moreover have "s = t" by (rule "2.IH"(2) [OF False]) (use "2.prems" False f in \<open>simp_all add: b\<close>)
      ultimately show ?thesis by (simp add: b)
    qed
  qed
qed

lemma naturalLess_key:
  "canonical a \<Longrightarrow> canonical b \<Longrightarrow> naturalLess a b \<longleftrightarrow> (natural_key a, natural_key b) \<in> lexord {(x, y). x < y}"
  unfolding naturalLess_def by (rule natural_from_key [where p = 0]) simp_all

lemma lexord_int:
  "(x, x) \<notin> lexord {(x, y). x < (y :: int)}"
  "(x, y) \<in> lexord {(x, y). x < (y :: int)} \<Longrightarrow> (y, z) \<in> lexord {(x, y). x < y} \<Longrightarrow> (x, z) \<in> lexord {(x, y). x < y}"
  "(x, y) \<in> lexord {(x, y). x < (y :: int)} \<or> x = y \<or> (y, x) \<in> lexord {(x, y). x < y}"
  by (rule lexord_irreflexive, simp, rule lexord_trans, assumption+, simp add: trans_def, rule lexord_linear, auto)

interpretation natural: weak_order naturalLess "{s. canonical s}"
proof
  fix x y z :: string
  assume c: "x \<in> {s. canonical s}" "y \<in> {s. canonical s}"
  show "naturalLess x y \<Longrightarrow> \<not> naturalLess y x"
    using c naturalLess_key [of x y] naturalLess_key [of y x] lexord_int(1,2) by blast
  assume z: "z \<in> {s. canonical s}"
  show "\<not> naturalLess y x \<Longrightarrow> \<not> naturalLess z y \<Longrightarrow> \<not> naturalLess z x"
    using c z naturalLess_key [of y x] naturalLess_key [of z y] naturalLess_key [of z x] lexord_int by (metis mem_Collect_eq)
qed

section \<open>Properties\<close>

text \<open>
  Natural order is an order on the names devices have: on names whose numbers are below \<open>2^64\<close> and carry no leading
  zeros it is irreflexive, transitive and total, so the list of disks does not depend on the sorting algorithm.
\<close>

theorem natural_order:
  assumes "canonical a" and "canonical b" and "canonical c" and "naturalLess a b" and "naturalLess b c"
  shows "naturalLess a c \<and> \<not> naturalLess b a \<and> (\<forall>d. canonical d \<longrightarrow> naturalLess a d \<or> a = d \<or> naturalLess d a)"
proof -
  have "naturalLess a d \<or> a = d \<or> naturalLess d a" if "canonical d" for d
    using lexord_int(3) [of "natural_key a" "natural_key d"] natural_key_inj [OF assms(1) that]
      naturalLess_key [OF assms(1) that] naturalLess_key [OF that assms(1)] by blast
  moreover have "naturalLess a c"
    using assms naturalLess_key [of a b] naturalLess_key [of b c] naturalLess_key [of a c] lexord_int(2) by blast
  moreover have "\<not> naturalLess b a"
    using assms naturalLess_key [of a b] naturalLess_key [of b a] lexord_int(1,2) by blast
  ultimately show ?thesis by blast
qed

theorem natural_order_witness: "naturalLess ''sda2'' ''sdb1''"
proof -
  have c: "canonical ''sda2''" "canonical ''sda10''" "canonical ''sdb1''" by code_simp+
  have l: "naturalLess ''sda2'' ''sda10''" "naturalLess ''sda10'' ''sdb1''" by code_simp+
  from natural_order [OF c l] show ?thesis by blast
qed

text \<open>
  With leading zeros it is not an order: three names form a cycle, because a name that ends early is compared by its length in
  characters, zeros included.
\<close>

theorem natural_order_cycle:
  "naturalLess ''1x'' ''001'' \<and> naturalLess ''001'' ''01a0'' \<and> naturalLess ''01a0'' ''1x''"
  by code_simp

end
