(* ===== verification/Processes.thy ===== *)
theory Processes
  imports CpuMetrics
begin

text \<open>
  Processes, temperatures, load and the backup state (\<open>sse/metrics.go\<close>). The memory share of a process is kept in tenths of a percent,
  as the code rounds it.
\<close>

section \<open>One process\<close>

record proc_status =
  ps_name :: string
  ps_state :: string
  ps_rss :: string
  ps_virt :: string
  ps_shr :: string
  ps_uid :: string

definition second_field :: "string \<Rightarrow> string \<Rightarrow> string" where
  "second_field line old = (let f = GoPrelude.fields line in if 2 \<le> length f then f ! 1 else old)"

definition status_line :: "string \<Rightarrow> proc_status \<Rightarrow> proc_status" where
  "status_line line s =
     (if has_prefix line ''Name:'' then s\<lparr>ps_name := trim_space (trim_prefix line ''Name:'')\<rparr>
      else if has_prefix line ''State:'' then s\<lparr>ps_state := second_field line (ps_state s)\<rparr>
      else if has_prefix line ''VmRSS:'' then s\<lparr>ps_rss := second_field line (ps_rss s)\<rparr>
      else if has_prefix line ''VmSize:'' then s\<lparr>ps_virt := second_field line (ps_virt s)\<rparr>
      else if has_prefix line ''RsShmem:'' \<or> has_prefix line ''VmShr:'' then s\<lparr>ps_shr := second_field line (ps_shr s)\<rparr>
      else if has_prefix line ''Uid:'' then s\<lparr>ps_uid := second_field line (ps_uid s)\<rparr>
      else s)"

record proc_info =
  PID :: int
  pi_name :: string
  pi_state :: string
  MemMB :: int
  MemPct :: int          \<comment> \<open>tenths of a percent\<close>
  Virt :: string
  Res :: string
  Shr :: string
  pi_user :: string
  Cmd :: string

text \<open>\<open>math.Round\<close> of a quotient of non-negative integers: halves away from zero.\<close>

definition round_div :: "int \<Rightarrow> int \<Rightarrow> int" where
  "round_div a b = (2 * a + b) div (2 * b)"

definition fmtKB :: "int \<Rightarrow> string" where
  "fmtKB kb =
     (if 1024 * 1024 \<le> kb then itoa (kb div 1024 div 1024) @ ''G''
      else if 1024 \<le> kb then itoa (kb div 1024) @ ''M''
      else itoa kb @ ''K'')"

definition command_of :: "string option \<Rightarrow> string \<Rightarrow> string" where
  "command_of cmdline name =
     (case cmdline of
        None \<Rightarrow> name
      | Some d \<Rightarrow>
          let c = take 60 (trim_space (map (\<lambda>b. if b = CHR 0x00 then CHR '' '' else b) d))
          in if d = [] \<or> c = [] then name else c)"

definition read_proc :: "machine \<Rightarrow> int \<Rightarrow> dir_entry \<Rightarrow> proc_info option" where
  "read_proc m memTotalKB e =
     (case atoi (entry_name e) of (pid, ok) \<Rightarrow>
        if \<not> entry_dir e \<or> \<not> ok then None
        else
          let base = ''/proc/'' @ entry_name e
          in case m_read m (base @ ''/status'') of
               None \<Rightarrow> None
             | Some d \<Rightarrow>
                 let s = fold status_line (lines_of d)
                       \<lparr>ps_name = [], ps_state = [], ps_rss = [], ps_virt = [], ps_shr = [], ps_uid = []\<rparr>;
                     rss = parseU64 (ps_rss s)
                 in if rss = 0 \<or> ps_name s = [] then None
                    else Some \<lparr>PID = pid, pi_name = ps_name s, pi_state = ps_state s, MemMB = rss div 1024,
                               MemPct = (if 0 < memTotalKB then round_div (rss * 1000) memTotalKB else 0),
                               Virt = fmtKB (parseU64 (ps_virt s)), Res = fmtKB rss, Shr = fmtKB (parseU64 (ps_shr s)),
                               pi_user = (if ps_uid s = ''0'' then ''root'' else ps_uid s),
                               Cmd = command_of (m_read m (base @ ''/cmdline'')) (ps_name s)\<rparr>)"

text \<open>The processes with the most resident memory, by an exchange sort.\<close>

definition all_procs :: "machine \<Rightarrow> int \<Rightarrow> proc_info list" where
  "all_procs m memTotalKB =
     (case m_dir m ''/proc'' of None \<Rightarrow> [] | Some es \<Rightarrow> List.map_filter (read_proc m memTotalKB) es)"

definition collectTopProcs :: "nat \<Rightarrow> int \<Rightarrow> machine \<Rightarrow> proc_info list" where
  "collectTopProcs n memTotalKB m = take n (exchange_sort (down_by MemMB) (all_procs m memTotalKB))"

section \<open>Load, temperatures, backup\<close>

text \<open>The three averages; \<open>pf\<close> is \<open>strconv.ParseFloat\<close>, 0 when it fails.\<close>

definition collectLoadAvg :: "(string \<Rightarrow> rat option) \<Rightarrow> machine \<Rightarrow> rat \<times> rat \<times> rat" where
  "collectLoadAvg pf m =
     (case m_read m ''/proc/loadavg'' of
        None \<Rightarrow> (0, 0, 0)
      | Some d \<Rightarrow>
          let f = GoPrelude.fields d; p = (\<lambda>s. case pf s of None \<Rightarrow> 0 | Some v \<Rightarrow> v)
          in if length f < 3 then (0, 0, 0) else (p (f ! 0), p (f ! 1), p (f ! 2)))"

record cpu_temp =
  tz_zone :: string
  tz_label :: string
  tz_milli :: int       \<comment> \<open>thousandths of a degree; the code divides by 1000\<close>

definition read_temp :: "machine \<Rightarrow> dir_entry \<Rightarrow> cpu_temp option" where
  "read_temp m e =
     (let name = entry_name e; base = ''/sys/class/thermal/'' @ name
      in if \<not> has_prefix name ''thermal_zone'' then None
         else case m_read m (base @ ''/temp'') of
           None \<Rightarrow> None
         | Some d \<Rightarrow>
             (case parse_int 10 64 (trim_space d) of (milli, ok) \<Rightarrow>
                if \<not> ok \<or> milli \<le> 0 then None
                else
                  let t = (case m_read m (base @ ''/type'') of None \<Rightarrow> [] | Some x \<Rightarrow> trim_space x)
                  in Some \<lparr>tz_zone = name, tz_label = (if t \<noteq> [] then t else name), tz_milli = milli\<rparr>))"

definition collectCPUTemps :: "machine \<Rightarrow> cpu_temp list" where
  "collectCPUTemps m =
     (case m_dir m ''/sys/class/thermal'' of None \<Rightarrow> [] | Some es \<Rightarrow> List.map_filter (read_temp m) es)"

record lbu_status =
  Present :: bool
  lbu_State :: string
  Archive :: string

definition newer_archive :: "dir_entry \<Rightarrow> (string \<times> int) option \<Rightarrow> (string \<times> int) option" where
  "newer_archive e latest =
     (if entry_dir e \<or> \<not> has_suffix (entry_name e) ''.tar.gz'' then latest
      else case entry_info e of
        None \<Rightarrow> latest
      | Some t \<Rightarrow>
          (case latest of
             None \<Rightarrow> Some (entry_name e, t)
           | Some (_, t0) \<Rightarrow> if t0 < t then Some (entry_name e, t) else latest))"

definition collectLBU :: "machine \<Rightarrow> lbu_status" where
  "collectLBU m =
     (case m_mtime m ''/etc/apk/protected-paths.d'' of
        None \<Rightarrow> \<lparr>Present = False, lbu_State = ''absent'', Archive = []\<rparr>
      | Some pp \<Rightarrow>
          (case m_dir m ''/var/cache/lbu'' of
             None \<Rightarrow> \<lparr>Present = True, lbu_State = ''dirty'', Archive = []\<rparr>
           | Some es \<Rightarrow>
               (case fold newer_archive es None of
                  None \<Rightarrow> \<lparr>Present = True, lbu_State = ''dirty'', Archive = []\<rparr>
                | Some (a, t) \<Rightarrow>
                    \<lparr>Present = True, lbu_State = (if t < pp then ''dirty'' else ''clean''), Archive = a\<rparr>)))"

section \<open>Properties\<close>

text \<open>
  The process list is the top of all processes by resident memory: it is sorted downwards, as long as asked for as far as there are
  processes, and consists with the omitted ones of exactly the processes read; no omitted process has more memory than a listed one.
\<close>

theorem top_procs:
  "sorted_wrt (\<lambda>a b. MemMB b \<le> MemMB a) (collectTopProcs n kb m) \<and>
   length (collectTopProcs n kb m) = min n (length (all_procs m kb)) \<and>
   (\<exists>omitted. mset (collectTopProcs n kb m) + mset omitted = mset (all_procs m kb) \<and>
      list_all (\<lambda>p. list_all (\<lambda>q. MemMB p \<le> MemMB q) (collectTopProcs n kb m)) omitted)"
proof -
  let ?s = "exchange_sort (down_by MemMB) (all_procs m kb)"
  have d: "sorted_wrt (\<lambda>a b. MemMB b \<le> MemMB a) (take n ?s @ drop n ?s)"
    using exchange_sort_desc [of MemMB "all_procs m kb"] by simp
  have "mset (take n ?s) + mset (drop n ?s) = mset (all_procs m kb)"
    by (metis append_take_drop_id mset_append mset_exchange_sort)
  moreover have "list_all (\<lambda>p. list_all (\<lambda>q. MemMB p \<le> MemMB q) (take n ?s)) (drop n ?s)"
    using d unfolding sorted_wrt_append list_all_iff by blast
  moreover have "sorted_wrt (\<lambda>a b. MemMB b \<le> MemMB a) (take n ?s)" using d unfolding sorted_wrt_append by blast
  ultimately show ?thesis by (auto simp: collectTopProcs_def min.commute)
qed

text \<open>
  The memory share of a process is a thousandth of what it should be: called with the total times 1024, as the collector calls it with a
  total that is in kilobytes already, the share of a process that fits into the memory is at most one tenth of a percent.
\<close>

theorem mem_share_vanishes:
  assumes "read_proc m (memTotal * 1024) e = Some p" and "0 < memTotal" and "MemMB p * 1024 + 1023 \<le> memTotal"
  shows "MemPct p \<le> 1"
proof -
  obtain rss where r: "MemMB p = rss div 1024" "MemPct p = round_div (rss * 1000) (memTotal * 1024)"
    using assms(1,2) by (auto simp: read_proc_def Let_def split: prod.splits if_splits option.splits)
  have "rss \<le> MemMB p * 1024 + 1023" using r(1) by presburger
  then have "rss \<le> memTotal" using assms(3) by linarith
  define A B where "A = 2 * (rss * 1000) + memTotal * 1024" and "B = 2 * (memTotal * 1024)"
  have "A < 2 * B" "0 < B" using \<open>rss \<le> memTotal\<close> assms(2) by (simp_all add: A_def B_def)
  have "\<not> 2 \<le> A div B"
  proof
    assume "2 \<le> A div B"
    then have "2 * B \<le> A div B * B" using \<open>0 < B\<close> by (intro mult_right_mono) simp_all
    also have "\<dots> \<le> A" using \<open>0 < B\<close> by (simp add: minus_mod_eq_div_mult [symmetric])
    finally show False using \<open>A < 2 * B\<close> by linarith
  qed
  then show ?thesis by (simp add: r(2) round_div_def A_def B_def)
qed

definition half_machine :: machine where
  "half_machine = bare_machine
     \<lparr>m_read := [''/proc/7/status'' \<mapsto> ''Name: db'' @ [CHR 0x0A] @ ''VmRSS: 2048 kB'' @ [CHR 0x0A] @ ''Uid: 0'']\<rparr>"

theorem mem_share_vanishes_witness:
  "\<exists>p. read_proc half_machine (4096 * 1024) \<lparr>entry_name = ''7'', entry_dir = True, entry_info = None\<rparr> = Some p \<and>
     MemMB p = 2 \<and> MemPct p \<le> 1"
proof -
  let ?e = "\<lparr>entry_name = ''7'', entry_dir = True, entry_info = None\<rparr>"
  have "read_proc half_machine (4096 * 1024) ?e \<noteq> None \<and> MemMB (the (read_proc half_machine (4096 * 1024) ?e)) = 2"
    by code_simp
  then obtain p where p: "read_proc half_machine (4096 * 1024) ?e = Some p" "MemMB p = 2" by auto
  with mem_share_vanishes [OF p(1)] show ?thesis by simp
qed

end
