(* ===== verification/XenMetrics.thy ===== *)
theory XenMetrics
  imports CpuMetrics
begin

text \<open>
  The domains and the hypervisor as \<open>xl list\<close> and \<open>xl info\<close> report them (\<open>sse/xen.go\<close>). Seconds of processor
  time are exact rationals; \<open>pf\<close> is \<open>strconv.ParseFloat\<close>. The maps from domain numbers to seconds are functions.
\<close>

section \<open>Domains\<close>

record xen_dom =
  DomID :: int
  dom_name :: string
  dom_state :: string
  VCPUs :: int
  dom_mem :: int
  CPUSec :: rat
  CPUPct :: rat

definition runXLCmd :: "machine \<Rightarrow> string list \<Rightarrow> string option" where
  "runXLCmd m args = m_run m (''xl'' # args)"

definition xen_row :: "(string \<Rightarrow> rat option) \<Rightarrow> string \<Rightarrow> xen_dom option" where
  "xen_row pf line =
     (let f = GoPrelude.fields line
      in if length f < 6 then None
         else case atoi (f ! 1) of (domid, ok) \<Rightarrow>
           if \<not> ok then None
           else Some \<lparr>DomID = domid, dom_name = f ! 0, dom_state = trim_cutset (f ! 4) ''-'', VCPUs = fst (atoi (f ! 3)),
                      dom_mem = parse_uint64 (f ! 2),
                      CPUSec = (case pf (last f) of None \<Rightarrow> 0 | Some v \<Rightarrow> v), CPUPct = 0\<rparr>)"

definition collectXenDomains :: "(string \<Rightarrow> rat option) \<Rightarrow> machine \<Rightarrow> xen_dom list" where
  "collectXenDomains pf m =
     (case runXLCmd m [''list''] of
        None \<Rightarrow> []
      | Some out \<Rightarrow> List.map_filter (xen_row pf) (tl (lines_of out)))"

text \<open>The share of the processors a domain used since the last tick.\<close>

definition xen_pct :: "(int \<Rightarrow> rat option) \<Rightarrow> rat \<Rightarrow> xen_dom \<Rightarrow> xen_dom" where
  "xen_pct prev dt d =
     (if dt \<le> 0 then d
      else case prev (DomID d) of
        None \<Rightarrow> d
      | Some p \<Rightarrow>
          if p \<le> CPUSec d then
            let pct = (CPUSec d - p) / dt * 100; mx = of_int (VCPUs d) * 100
            in d\<lparr>CPUPct := (if 0 < VCPUs d \<and> mx < pct then mx else pct)\<rparr>
          else d)"

definition computeXenCPUPct ::
  "xen_dom list \<Rightarrow> (int \<Rightarrow> rat option) \<Rightarrow> rat \<Rightarrow> xen_dom list \<times> (int \<Rightarrow> rat option)" where
  "computeXenCPUPct doms prev dt =
     (map (xen_pct prev dt) doms, map_of (rev (map (\<lambda>d. (DomID d, CPUSec d)) doms)))"

section \<open>The hypervisor\<close>

record xen_info =
  Available :: bool
  Toolstack :: string
  XenVersion :: string
  xi_host :: string
  Scheduler :: string
  CPUs :: int
  TotalMemoryMB :: int
  FreeMemoryMB :: int
  DomainCount :: nat
  Running :: nat
  Blocked :: nat
  Paused :: nat
  Shutdown :: nat
  Crashed :: nat
  Dying :: nat
  TotalVCPUs :: int
  DomainMemMB :: int

definition no_xen_info :: xen_info where
  "no_xen_info = \<lparr>Available = False, Toolstack = [], XenVersion = [], xi_host = [], Scheduler = [], CPUs = 0,
     TotalMemoryMB = 0, FreeMemoryMB = 0, DomainCount = 0, Running = 0, Blocked = 0, Paused = 0, Shutdown = 0,
     Crashed = 0, Dying = 0, TotalVCPUs = 0, DomainMemMB = 0\<rparr>"

definition parseXenMemoryMB :: "string \<Rightarrow> int" where
  "parseXenMemoryMB s = (case GoPrelude.fields s of [] \<Rightarrow> 0 | w # _ \<Rightarrow> parse_uint64 w)"

definition xen_info_line :: "string \<Rightarrow> xen_info \<Rightarrow> xen_info" where
  "xen_info_line line i =
     (case cut CHR '':'' line of (k0, v0, ok) \<Rightarrow>
        let k = trim_space k0; v = trim_space v0
        in if \<not> ok then i
           else if k = ''host'' then i\<lparr>xi_host := v\<rparr>
           else if k = ''xen_version'' then i\<lparr>XenVersion := v\<rparr>
           else if k = ''scheduler'' then i\<lparr>Scheduler := v\<rparr>
           else if k = ''nr_cpus'' then i\<lparr>CPUs := fst (atoi v)\<rparr>
           else if k = ''total_memory'' then i\<lparr>TotalMemoryMB := parseXenMemoryMB v\<rparr>
           else if k = ''free_memory'' then i\<lparr>FreeMemoryMB := parseXenMemoryMB v\<rparr>
           else i)"

definition collectXenInfo :: "machine \<Rightarrow> xen_info" where
  "collectXenInfo m =
     (case runXLCmd m [''info''] of
        None \<Rightarrow> no_xen_info
      | Some out \<Rightarrow> fold xen_info_line (lines_of out) (no_xen_info\<lparr>Available := True, Toolstack := ''xl''\<rparr>))"

text \<open>One letter of a domain's state.\<close>

definition count_state :: "char \<Rightarrow> xen_info \<Rightarrow> xen_info" where
  "count_state c i =
     (if c = CHR ''r'' then i\<lparr>Running := Suc (Running i)\<rparr>
      else if c = CHR ''b'' then i\<lparr>Blocked := Suc (Blocked i)\<rparr>
      else if c = CHR ''p'' then i\<lparr>Paused := Suc (Paused i)\<rparr>
      else if c = CHR ''s'' then i\<lparr>Shutdown := Suc (Shutdown i)\<rparr>
      else if c = CHR ''c'' then i\<lparr>Crashed := Suc (Crashed i)\<rparr>
      else if c = CHR ''d'' then i\<lparr>Dying := Suc (Dying i)\<rparr>
      else i)"

definition i64 :: "int \<Rightarrow> int" where
  "i64 x = (x + 2 ^ 63) mod 2 ^ 64 - 2 ^ 63"

definition count_domain :: "xen_dom \<Rightarrow> xen_info \<Rightarrow> xen_info" where
  "count_domain d i =
     fold count_state (dom_state d)
       (i\<lparr>TotalVCPUs := i64 (TotalVCPUs i + VCPUs d), DomainMemMB := u64 (DomainMemMB i + dom_mem d)\<rparr>)"

definition collectXenSnapshot ::
  "(string \<Rightarrow> rat option) \<Rightarrow> machine \<Rightarrow> (int \<Rightarrow> rat option) \<Rightarrow> rat \<Rightarrow>
     xen_dom list \<times> xen_info \<times> (int \<Rightarrow> rat option)" where
  "collectXenSnapshot pf m prev dt =
     (case computeXenCPUPct (collectXenDomains pf m) prev dt of
        (doms, cur) \<Rightarrow>
          let info = collectXenInfo m;
              info = info\<lparr>Available := (Available info \<or> doms \<noteq> []), Toolstack := ''xl'', DomainCount := length doms\<rparr>
          in (doms, fold count_domain doms info, cur))"

section \<open>What the summary counts\<close>

lemma count_state_other [simp]:
  "TotalVCPUs (count_state c i) = TotalVCPUs i" "DomainMemMB (count_state c i) = DomainMemMB i"
  "DomainCount (count_state c i) = DomainCount i" "Available (count_state c i) = Available i"
  by (simp_all add: count_state_def)

lemma count_states:
  "Running (fold count_state cs i) = Running i + count_list cs CHR ''r''"
  "Blocked (fold count_state cs i) = Blocked i + count_list cs CHR ''b''"
  "Paused (fold count_state cs i) = Paused i + count_list cs CHR ''p''"
  "Shutdown (fold count_state cs i) = Shutdown i + count_list cs CHR ''s''"
  "Crashed (fold count_state cs i) = Crashed i + count_list cs CHR ''c''"
  "Dying (fold count_state cs i) = Dying i + count_list cs CHR ''d''"
  by (induction cs arbitrary: i) (simp_all add: count_state_def)

lemma count_states_other [simp]:
  "TotalVCPUs (fold count_state cs i) = TotalVCPUs i" "DomainMemMB (fold count_state cs i) = DomainMemMB i"
  "DomainCount (fold count_state cs i) = DomainCount i" "Available (fold count_state cs i) = Available i"
  by (induction cs arbitrary: i) simp_all

lemma count_domain_running: "Running (count_domain d i) = Running i + count_list (dom_state d) CHR ''r''"
  by (simp add: count_domain_def count_states)

lemma count_domains_other [simp]:
  "DomainCount (fold count_domain ds i) = DomainCount i" "Available (fold count_domain ds i) = Available i"
  by (induction ds arbitrary: i) (simp_all add: count_domain_def)

lemma count_domains_running:
  "Running (fold count_domain ds i) = Running i + (\<Sum>d \<leftarrow> ds. count_list (dom_state d) CHR ''r'')"
  by (induction ds arbitrary: i) (simp_all add: count_domain_running)

lemma count_domains_mem:
  "u64 (DomainMemMB (fold count_domain ds i)) = u64 (DomainMemMB i + (\<Sum>d \<leftarrow> ds. dom_mem d))"
proof (induction ds arbitrary: i)
  case (Cons d ds)
  have "DomainMemMB (count_domain d i) = u64 (DomainMemMB i + dom_mem d)" by (simp add: count_domain_def)
  with Cons [of "count_domain d i"] show ?case by (simp add: u64_def mod_simps add.assoc)
qed simp

section \<open>Bounds of the share\<close>

lemma xen_pct_bounds:
  assumes "CPUPct d = 0"
  shows "0 \<le> CPUPct (xen_pct prev dt d) \<and> (0 < VCPUs d \<longrightarrow> CPUPct (xen_pct prev dt d) \<le> 100 * of_int (VCPUs d))"
proof (cases "dt \<le> 0 \<or> prev (DomID d) = None")
  case True
  then show ?thesis using assms by (auto simp: xen_pct_def)
next
  case False
  then obtain p where p: "prev (DomID d) = Some p" "0 < dt" by auto
  have "0 \<le> (CPUSec d - p) / dt * 100" if "p \<le> CPUSec d" using that p(2) by simp
  then show ?thesis using p assms by (auto simp: xen_pct_def Let_def mult.commute not_less)
qed

lemma xen_row_pct: "xen_row pf line = Some d \<Longrightarrow> CPUPct d = 0"
  by (auto simp: xen_row_def Let_def split: if_splits prod.splits)

lemma collectXenDomains_pct: "d \<in> set (collectXenDomains pf m) \<Longrightarrow> CPUPct d = 0"
  by (auto simp: collectXenDomains_def map_filter_mem xen_row_pct split: option.splits)

lemma xen_pct_other [simp]:
  "DomID (xen_pct prev dt d) = DomID d" "VCPUs (xen_pct prev dt d) = VCPUs d" "CPUSec (xen_pct prev dt d) = CPUSec d"
  "dom_state (xen_pct prev dt d) = dom_state d" "dom_mem (xen_pct prev dt d) = dom_mem d"
  by (auto simp: xen_pct_def Let_def split: option.splits)

text \<open>
  The Xen view is consistent: the domain count is the length of the list, the running ones are those whose state says so, the
  memory is the sum of the domains' (modulo \<open>2^64\<close>), and no domain shows a negative share or, if it has processors, more than all of them.
\<close>

theorem xen_snapshot_consistent:
  "\<exists>doms info cur. collectXenSnapshot pf m prev dt = (doms, info, cur) \<and>
     DomainCount info = length doms \<and> (Available info \<or> doms = []) \<and>
     Running info = (\<Sum>d \<leftarrow> doms. count_list (dom_state d) CHR ''r'') \<and>
     u64 (DomainMemMB info) = u64 (\<Sum>d \<leftarrow> doms. dom_mem d) \<and>
     list_all (\<lambda>d. 0 \<le> CPUPct d \<and> (VCPUs d \<le> 0 \<or> CPUPct d \<le> 100 * of_int (VCPUs d))) doms"
proof -
  define doms where "doms = map (xen_pct prev dt) (collectXenDomains pf m)"
  define i0 where "i0 = (collectXenInfo m)\<lparr>Available := (Available (collectXenInfo m) \<or> doms \<noteq> []),
    Toolstack := ''xl'', DomainCount := length doms\<rparr>"
  have line: "Running (xen_info_line l i) = Running i" "DomainMemMB (xen_info_line l i) = DomainMemMB i" for l i
    by (auto simp: xen_info_line_def Let_def split: prod.splits)
  have lines: "Running (fold xen_info_line ls i) = Running i \<and> DomainMemMB (fold xen_info_line ls i) = DomainMemMB i" for ls i
    by (induction ls arbitrary: i) (simp_all add: line)
  have i0: "Running i0 = 0" "DomainMemMB i0 = 0" "DomainCount i0 = length doms" "Available i0 \<or> doms = []"
    by (auto simp: i0_def collectXenInfo_def no_xen_info_def lines split: option.split)
  have e: "\<exists>cur. collectXenSnapshot pf m prev dt = (doms, fold count_domain doms i0, cur)"
    by (simp add: collectXenSnapshot_def computeXenCPUPct_def Let_def doms_def i0_def)
  have "list_all (\<lambda>d. 0 \<le> CPUPct d \<and> (VCPUs d \<le> 0 \<or> CPUPct d \<le> 100 * of_int (VCPUs d))) doms"
    using xen_pct_bounds [OF collectXenDomains_pct [of _ pf m]] by (fastforce simp: doms_def list_all_iff)
  then show ?thesis using e i0 by (auto simp: count_domains_running count_domains_mem)
qed

end
