(* ===== verification/Snapshot.thy ===== *)
theory Snapshot
  imports NetMetrics Disks Processes XenMetrics
begin

text \<open>
  One reading of the machine (\<open>collect\<close> in \<open>sse/metrics.go\<close>), composed of the collectors of the other theories. The first processor
  reading is taken from one machine, everything else from the machine 200 ms later. Time is in nanoseconds since the zero time of Go.
\<close>

section \<open>The snapshot\<close>

record snapshot =
  Timestamp :: int
  CPUUsage :: rat
  CPUPerCore :: "rat list"
  CPUFreqAvg :: int
  CPUFreqMax :: int
  CPUFreqCore :: "int list"
  CPUYMin :: rat
  CPUYMax :: rat
  CPUFreqYMin :: int
  CPUFreqYMax :: int
  MemYMin :: int
  MemYMax :: int
  CPUPeakCores :: "nat list"
  MemTotal :: int
  MemUsed :: int
  MemCached :: int
  MemFree :: int
  MemStackUsed :: int
  MemStackCached :: int
  MemStackFree :: int
  MemUsedPct :: int
  MemCachedPct :: int
  NetRXBytes :: int
  NetTXBytes :: int
  NetRXBps :: int
  NetTXBps :: int
  NetIface :: string
  NetIP :: string
  snap_LBU :: lbu_status
  NetMap :: network_map
  snap_Disks :: "disk_mount list"
  LoadAvg :: "rat \<times> rat \<times> rat"
  CPUTemps :: "cpu_temp list"
  TopProcs :: "proc_info list"
  snap_XenInfo :: xen_info
  XenDomains :: "xen_dom list"

text \<open>The zero value, which the ring is filled with.\<close>

definition zero_snapshot :: snapshot where
  "zero_snapshot = \<lparr>Timestamp = 0, CPUUsage = 0, CPUPerCore = [], CPUFreqAvg = 0, CPUFreqMax = 0, CPUFreqCore = [],
     CPUYMin = 0, CPUYMax = 0, CPUFreqYMin = 0, CPUFreqYMax = 0, MemYMin = 0, MemYMax = 0, CPUPeakCores = [],
     MemTotal = 0, MemUsed = 0, MemCached = 0, MemFree = 0, MemStackUsed = 0, MemStackCached = 0, MemStackFree = 0,
     MemUsedPct = 0, MemCachedPct = 0, NetRXBytes = 0, NetTXBytes = 0, NetRXBps = 0, NetTXBps = 0, NetIface = [],
     NetIP = [], snap_LBU = \<lparr>Present = False, lbu_State = [], Archive = []\<rparr>,
     NetMap = \<lparr>nmap_interfaces = [], nmap_neighbors = []\<rparr>, snap_Disks = [], LoadAvg = (0, 0, 0), CPUTemps = [],
     TopProcs = [], snap_XenInfo = no_xen_info, XenDomains = []\<rparr>"

section \<open>Derived values\<close>

text \<open>The processors whose share is more than twenty points off the average.\<close>

definition peak_cores :: "rat \<Rightarrow> rat list \<Rightarrow> nat list" where
  "peak_cores usage perCore = map fst (filter (\<lambda>(i, pct). 20 < \<bar>pct - usage\<bar>) (enumerate 0 perCore))"

text \<open>The provisional scale of the frequencies.\<close>

definition freq_scale :: "int \<Rightarrow> int \<Rightarrow> int \<times> int" where
  "freq_scale avg mx =
     (if avg - 300 < 0 then 0 else avg - 300, if 0 < mx \<and> mx < avg + 300 then mx else avg + 300)"

text \<open>
  \<open>None\<close> is the panic of the network readers on a machine without \<open>/proc/net/dev\<close>; \<open>rng\<close> is the order in which the map of devices is ranged.
\<close>

definition collect :: "(string \<Rightarrow> rat option) \<Rightarrow> string list \<Rightarrow> int \<Rightarrow> machine \<Rightarrow> machine \<Rightarrow> snapshot option" where
  "collect pf rng now before m =
     (let t1 = readCPUTimes before; t2 = readCPUTimes m
      in case (cpuPercentAll t1 t2, readFreqsPerCore pf m, readMemFull m, readNetBytes m, readMainIface m) of
           ((usage, cores), (_, freqMax, freqCore), (memTotal, memFree, memCached, memUsed), Some (rx, tx), Some (ifc, ip)) \<Rightarrow>
             (let freqAvg = computeEffectiveFreq t1 t2 freqMax
              in Some \<lparr>Timestamp = now, CPUUsage = usage, CPUPerCore = map snd cores, CPUFreqAvg = freqAvg, CPUFreqMax = freqMax,
                   CPUFreqCore = freqCore, CPUYMin = 0, CPUYMax = 0, CPUFreqYMin = fst (freq_scale freqAvg freqMax),
                   CPUFreqYMax = snd (freq_scale freqAvg freqMax), MemYMin = 0, MemYMax = 0,
                   CPUPeakCores = peak_cores usage (map snd cores),
                   MemTotal = memTotal div 1024, MemUsed = memUsed div 1024, MemCached = memCached div 1024,
                   MemFree = memFree div 1024, MemStackUsed = memUsed div 1024,
                   MemStackCached = u64 (memUsed + memCached) div 1024, MemStackFree = memTotal div 1024,
                   MemUsedPct = mem_pct memUsed memTotal, MemCachedPct = mem_pct memCached memTotal,
                   NetRXBytes = rx, NetTXBytes = tx, NetRXBps = 0, NetTXBps = 0, NetIface = ifc, NetIP = ip,
                   snap_LBU = collectLBU m, NetMap = \<lparr>nmap_interfaces = [], nmap_neighbors = []\<rparr>,
                   snap_Disks = collectDisks rng m, LoadAvg = collectLoadAvg pf m, CPUTemps = collectCPUTemps m,
                   TopProcs = collectTopProcs 20 (u64 (memTotal * 1024)) m, snap_XenInfo = no_xen_info, XenDomains = []\<rparr>)
         | _ \<Rightarrow> None)"

section \<open>Rates\<close>

text \<open>The seconds between two snapshots, 0 when there is no earlier one.\<close>

definition elapsed :: "snapshot \<Rightarrow> snapshot \<Rightarrow> rat" where
  "elapsed prev snap = (if Timestamp prev = 0 then 0 else of_int (Timestamp snap - Timestamp prev) / 1000000000)"

definition net_rates :: "snapshot \<Rightarrow> snapshot \<Rightarrow> snapshot" where
  "net_rates prev snap =
     (if Timestamp prev = 0 then snap\<lparr>NetRXBps := 0, NetTXBps := 0\<rparr>
      else
        let dt = elapsed prev snap
        in if dt \<le> 0 then snap
           else snap\<lparr>NetRXBps := (if NetRXBytes prev \<le> NetRXBytes snap then rate (NetRXBytes snap) (NetRXBytes prev) dt
                                  else NetRXBps snap),
                     NetTXBps := (if NetTXBytes prev \<le> NetTXBytes snap then rate (NetTXBytes snap) (NetTXBytes prev) dt
                                  else NetTXBps snap)\<rparr>)"

lemma net_rates_other [simp]:
  "Timestamp (net_rates p s) = Timestamp s" "MemTotal (net_rates p s) = MemTotal s" "MemUsed (net_rates p s) = MemUsed s"
  "CPUUsage (net_rates p s) = CPUUsage s" "CPUFreqAvg (net_rates p s) = CPUFreqAvg s"
  by (simp_all add: net_rates_def Let_def)

lemma collect_Timestamp: "collect pf rng now b m = Some s \<Longrightarrow> Timestamp s = now"
  by (auto simp: collect_def Let_def split: prod.splits option.splits)

text \<open>A machine that can be read, with one interface.\<close>

definition demo_machine :: machine where
  "demo_machine = bare_machine\<lparr>m_read := [''/proc/net/dev'' \<mapsto> ''h'' @ [CHR 0x0A] @ ''h'' @ [CHR 0x0A] @
     ''eth0: 1000 0 0 0 0 0 0 0 500 0'', ''/proc/meminfo'' \<mapsto> ''MemTotal: 8388608 kB'' @ [CHR 0x0A] @ ''MemFree: 4194304 kB'']\<rparr>"

lemma collect_demo:
  "\<exists>s. collect pf [] now demo_machine demo_machine = Some s \<and> MemTotal s = 8192 \<and> MemUsed s = 4096 \<and> NetRXBytes s = 1000"
proof -
  have mem: "readMemFull demo_machine = (8388608, 4194304, 0, 4194304)" by code_simp
  have net: "readNetBytes demo_machine = Some (1000, 500)" "readMainIface demo_machine = Some (''eth0'', [])" by code_simp+
  obtain a b where cp: "cpuPercentAll (readCPUTimes demo_machine) (readCPUTimes demo_machine) = (a, b)" by fastforce
  obtain x y z where fr: "readFreqsPerCore pf demo_machine = (x, y, z)" by (cases "readFreqsPerCore pf demo_machine")
  show ?thesis by (simp add: collect_def Let_def mem net cp fr)
qed

end
