(* ===== verification/Broker.thy ===== *)
theory Broker
  imports Snapshot "HOL-Library.Sublist"
begin

text \<open>
  The broker (\<open>sse/broker.go\<close>): the ring of the last snapshots, the scales computed from it, the loop that fills it and the
  connections it is streamed to. A snapshot is published under the lock, so publishing, connecting, greeting and
  disconnecting are atomic steps; a connection is a channel of four snapshots with what has been written to the client.
\<close>

section \<open>The ring\<close>

definition ringSize :: nat where
  "ringSize = 60"

record ring_buffer =
  ring :: "snapshot list"
  head :: nat
  ring_count :: nat

definition empty_ring :: ring_buffer where
  "empty_ring = \<lparr>ring = replicate ringSize zero_snapshot, head = 0, ring_count = 0\<rparr>"

definition push :: "snapshot \<Rightarrow> ring_buffer \<Rightarrow> ring_buffer" where
  "push s b = \<lparr>ring = (ring b)[head b := s], head = (head b + 1) mod ringSize,
     ring_count = (if ring_count b < ringSize then ring_count b + 1 else ring_count b)\<rparr>"

text \<open>The slot \<open>i\<close> snapshots before the newest one, and the newest one.\<close>

definition slot :: "ring_buffer \<Rightarrow> nat \<Rightarrow> snapshot" where
  "slot b i = ring b ! ((head b + ringSize - 1 - i) mod ringSize)"

definition last_snapshot :: "ring_buffer \<Rightarrow> snapshot option" where
  "last_snapshot b = (if 0 < ring_count b then Some (slot b 0) else None)"

section \<open>The scales\<close>

text \<open>The snapshots the loop looks at, and the extremes over them.\<close>

definition windowSnaps :: nat where
  "windowSnaps = 15"

definition window_of :: "ring_buffer \<Rightarrow> nat \<Rightarrow> snapshot list" where
  "window_of b window =
     (let n = (if window < ring_count b then window else ring_count b)
      in filter (\<lambda>s. Timestamp s \<noteq> 0) (map (slot b) [1..<n]))"

definition low :: "(snapshot \<Rightarrow> 'a :: linorder) \<Rightarrow> snapshot list \<Rightarrow> 'a \<Rightarrow> 'a" where
  "low f ss a = fold (\<lambda>s m. if f s < m then f s else m) ss a"

definition high :: "(snapshot \<Rightarrow> 'a :: linorder) \<Rightarrow> snapshot list \<Rightarrow> 'a \<Rightarrow> 'a" where
  "high f ss a = fold (\<lambda>s m. if m < f s then f s else m) ss a"

definition cpu_scale :: "rat \<Rightarrow> rat \<Rightarrow> rat \<times> rat" where
  "cpu_scale lo hi =
     (let span = (if hi - lo < 1 / 2 then 1 / 2 else hi - lo);
          margin = (if span * (5 / 100) < 1 / 10 then 1 / 10 else span * (5 / 100))
      in (if lo - margin < 0 then 0 else lo - margin, if 100 < hi + margin then 100 else hi + margin))"

definition clock_scale :: "int \<Rightarrow> int \<Rightarrow> int \<times> int" where
  "clock_scale lo hi =
     (let span = (if hi - lo < 1 then 1 else hi - lo); margin = (if go_quot span 20 < 1 then 1 else go_quot span 20)
      in (if lo - margin < 0 then 0 else lo - margin, hi + margin))"

definition mem_scale :: "int \<Rightarrow> int \<Rightarrow> int \<Rightarrow> int \<times> int" where
  "mem_scale memTotal lo hi =
     (let span = (if u64 (hi - lo) < 1 then 1 else u64 (hi - lo)); margin = (if span div 20 < 1 then 1 else span div 20);
          top = u64 (hi + margin)
      in (if margin < lo then lo - margin else 0, if memTotal < top then memTotal else top))"

definition computeOscilloScales :: "ring_buffer \<Rightarrow> snapshot \<Rightarrow> nat \<Rightarrow> snapshot" where
  "computeOscilloScales b snap window =
     (let ws = window_of b window; fs = filter (\<lambda>s. 0 < CPUFreqAvg s) ws;
          cpu = cpu_scale (low CPUUsage ws (CPUUsage snap)) (high CPUUsage ws (CPUUsage snap));
          freq = clock_scale (low CPUFreqAvg fs (CPUFreqAvg snap)) (high CPUFreqAvg fs (CPUFreqAvg snap));
          mem = mem_scale (MemTotal snap) (low MemUsed ws (MemUsed snap)) (high MemUsed ws (MemUsed snap))
      in snap\<lparr>CPUYMin := fst cpu, CPUYMax := snd cpu, CPUFreqYMin := fst freq, CPUFreqYMax := snd freq,
              MemYMin := fst mem, MemYMax := snd mem\<rparr>)"

section \<open>The loop\<close>

text \<open>What one turn of the loop reads, and what it keeps for the next one.\<close>

record tick =
  tk_now :: int
  tk_before :: machine      \<comment> \<open>the first processor reading\<close>
  tk_machine :: machine
  tk_net :: machine         \<comment> \<open>the network map and \<open>xl\<close>\<close>
  tk_net_now :: int
  tk_devices :: "string list"
  tk_leases :: "lease_file list"

record loop_state =
  prevSnap :: snapshot
  prevIfaces :: "(string \<Rightarrow> net_iface_info option) option"
  prevXenCPU :: "int \<Rightarrow> rat option"
  loop_caches :: arp_caches

definition first_state :: loop_state where
  "first_state = \<lparr>prevSnap = zero_snapshot, prevIfaces = None, prevXenCPU = Map.empty,
     loop_caches = \<lparr>ac_identities = [], ac_isp = empty_isp_cache, ac_started = []\<rparr>\<rparr>"

definition with_xen ::
  "(string \<Rightarrow> rat option) \<Rightarrow> host_role \<Rightarrow> machine \<Rightarrow> (int \<Rightarrow> rat option) \<Rightarrow> rat \<Rightarrow> snapshot \<Rightarrow> snapshot \<times> (int \<Rightarrow> rat option)" where
  "with_xen pf role m prev dt snap =
     (if XenControl (Capabilities role)
      then case collectXenSnapshot pf m prev dt of (doms, info, cur) \<Rightarrow> (snap\<lparr>XenDomains := doms, snap_XenInfo := info\<rparr>, cur)
      else (snap, prev))"

text \<open>\<open>None\<close>: a collector panics, or the lease reader never returns.\<close>

definition collect_tick ::
  "(string \<Rightarrow> rat option) \<Rightarrow> (string \<Rightarrow> (string \<times> string \<times> string) list list option) \<Rightarrow> host_role \<Rightarrow> tick \<Rightarrow> loop_state \<Rightarrow>
     (snapshot \<times> loop_state) option" where
  "collect_tick pf unmarshal role t st =
     (case collect pf (tk_devices t) (tk_now t) (tk_before t) (tk_machine t) of
        None \<Rightarrow> None
      | Some s0 \<Rightarrow>
          let s1 = net_rates (prevSnap st) s0; dt = elapsed (prevSnap st) s1;
              md = (if m_read (tk_net t) ''/proc/net/arp'' = None then Some Map.empty
                    else readKeaNeighborMetadata unmarshal (tk_leases t) (tk_net t))
          in case md of
               None \<Rightarrow> None
             | Some md \<Rightarrow>
                 (case collectNetworkMap (tk_net t) md (tk_net_now t) (prevIfaces st) dt (loop_caches st) of
                    None \<Rightarrow> None
                  | Some (nm, cur, ac) \<Rightarrow>
                      (case with_xen pf role (tk_net t) (prevXenCPU st) dt (s1\<lparr>NetMap := nm\<rparr>) of
                         (s2, xen) \<Rightarrow>
                           Some (s2, \<lparr>prevSnap = s2, prevIfaces = Some cur, prevXenCPU = xen, loop_caches = ac\<rparr>))))"

section \<open>Connections\<close>

datatype phase = Subscribed | Streaming

text \<open>
  A connection of the handler: its channel, how far the handler is, what it has written. \<open>conn_from\<close> counts the snapshots
  published before it; it is not part of the code.
\<close>

record conn =
  conn_phase :: phase
  channel :: "snapshot list"
  greeting :: "snapshot list"
  written :: "snapshot list"
  conn_from :: nat

definition channel_cap :: nat where
  "channel_cap = 4"

record broker =
  b_ring :: ring_buffer
  b_clients :: "nat \<Rightarrow> conn option"
  published :: "snapshot list"      \<comment> \<open>all of them, oldest first; not part of the code\<close>

definition new_broker :: broker where
  "new_broker = \<lparr>b_ring = empty_ring, b_clients = Map.empty, published = []\<rparr>"

text \<open>The send that drops the snapshot when the channel is full.\<close>

definition offer :: "snapshot \<Rightarrow> conn \<Rightarrow> conn" where
  "offer s c = (if length (channel c) < channel_cap then c\<lparr>channel := channel c @ [s]\<rparr> else c)"

definition publish :: "snapshot \<Rightarrow> broker \<Rightarrow> broker" where
  "publish snap b =
     (let s = computeOscilloScales (b_ring b) snap windowSnaps
      in \<lparr>b_ring = push s (b_ring b), b_clients = (\<lambda>c. map_option (offer s) (b_clients b c)), published = published b @ [s]\<rparr>)"

definition loop_step ::
  "(string \<Rightarrow> rat option) \<Rightarrow> (string \<Rightarrow> (string \<times> string \<times> string) list list option) \<Rightarrow> host_role \<Rightarrow> tick \<Rightarrow>
     loop_state \<times> broker \<Rightarrow> (loop_state \<times> broker) option" where
  "loop_step pf unmarshal role t st =
     map_option (\<lambda>(snap, ls). (ls, publish snap (snd st))) (collect_tick pf unmarshal role t (fst st))"

definition subscribe :: "nat \<Rightarrow> broker \<Rightarrow> broker" where
  "subscribe c b = b\<lparr>b_clients := (b_clients b)(c \<mapsto>
     \<lparr>conn_phase = Subscribed, channel = [], greeting = [], written = [], conn_from = length (published b)\<rparr>)\<rparr>"

definition unsubscribe :: "nat \<Rightarrow> broker \<Rightarrow> broker" where
  "unsubscribe c b = b\<lparr>b_clients := (b_clients b)(c := None)\<rparr>"

text \<open>The handler sends the last snapshot once, then what its channel yields.\<close>

definition greet :: "nat \<Rightarrow> broker \<Rightarrow> broker" where
  "greet c b =
     (case b_clients b c of
        None \<Rightarrow> b
      | Some k \<Rightarrow>
          if conn_phase k = Subscribed then
            let g = (case last_snapshot (b_ring b) of None \<Rightarrow> [] | Some s \<Rightarrow> [s])
            in b\<lparr>b_clients := (b_clients b)(c \<mapsto> k\<lparr>conn_phase := Streaming, greeting := g\<rparr>)\<rparr>
          else b)"

definition deliver :: "nat \<Rightarrow> broker \<Rightarrow> broker" where
  "deliver c b =
     (case b_clients b c of
        None \<Rightarrow> b
      | Some k \<Rightarrow>
          (case channel k of
             [] \<Rightarrow> b
           | s # ss \<Rightarrow>
               if conn_phase k = Streaming
               then b\<lparr>b_clients := (b_clients b)(c \<mapsto> k\<lparr>channel := ss, written := written k @ [s]\<rparr>)\<rparr>
               else b))"

text \<open>What the client reads on the wire; \<open>marshal\<close> is \<open>json.Marshal\<close>.\<close>

definition writeSSE :: "(snapshot \<Rightarrow> string option) \<Rightarrow> snapshot \<Rightarrow> string" where
  "writeSSE marshal s = (case marshal s of None \<Rightarrow> [] | Some d \<Rightarrow> ''data: '' @ d @ [CHR 0x0A, CHR 0x0A])"

definition stream_text :: "(snapshot \<Rightarrow> string option) \<Rightarrow> conn \<Rightarrow> string" where
  "stream_text marshal c = concat (map (writeSSE marshal) (greeting c @ written c))"

datatype event = Publish snapshot | Connect nat | Greet nat | Deliver nat | Disconnect nat

inductive broker_step :: "broker \<Rightarrow> event \<Rightarrow> broker \<Rightarrow> bool" where
  Publish: "broker_step b (Publish s) (publish s b)"
| Connect: "b_clients b c = None \<Longrightarrow> broker_step b (Connect c) (subscribe c b)"
| Greet: "broker_step b (Greet c) (greet c b)"
| Deliver: "broker_step b (Deliver c) (deliver c b)"
| Disconnect: "broker_step b (Disconnect c) (unsubscribe c b)"

inductive_cases broker_stepE: "broker_step b e b'"

inductive broker_run :: "event list \<Rightarrow> broker \<Rightarrow> bool" where
  Start: "broker_run [] new_broker"
| Step: "broker_run es b \<Longrightarrow> broker_step b e b' \<Longrightarrow> broker_run (es @ [e]) b'"

section \<open>The ring holds the last snapshots\<close>

text \<open>Newest first.\<close>

definition recent :: "ring_buffer \<Rightarrow> snapshot list" where
  "recent b = map (slot b) [0..<ring_count b]"

definition ring_ok :: "ring_buffer \<Rightarrow> bool" where
  "ring_ok b \<longleftrightarrow> length (ring b) = ringSize \<and> head b < ringSize \<and> ring_count b \<le> ringSize \<and>
     (ring_count b < ringSize \<longrightarrow> head b = ring_count b)"

lemma ring_ok_empty [simp]: "ring_ok empty_ring"
  by (simp add: ring_ok_def empty_ring_def ringSize_def)

lemma recent_empty [simp]: "recent empty_ring = []"
  by (simp add: recent_def empty_ring_def)

lemma mod60: "j < 120 \<Longrightarrow> j mod 60 = (if j < 60 then j else j - (60 :: nat))"
  by (simp add: mod_if [of j])

lemma index_0: "h < 60 \<Longrightarrow> ((h + 1) mod 60 + 59) mod 60 = (h :: nat)"
  by (simp add: mod60)

lemma index_Suc:
  assumes "h < 60" and "i < 59"
  shows "((h + 1) mod 60 + 60 - 1 - Suc i) mod 60 = (h + 60 - 1 - i) mod (60 :: nat)" "(h + 60 - 1 - i) mod 60 \<noteq> h"
  using assms by (auto simp: mod60)

lemma ring_ok_push: "ring_ok b \<Longrightarrow> ring_ok (push s b)"
  by (auto simp: ring_ok_def push_def ringSize_def)

lemma slot_push_0: "ring_ok b \<Longrightarrow> slot (push s b) 0 = s"
  using index_0 [of "head b"] by (simp add: ring_ok_def slot_def push_def ringSize_def add.commute)

lemma slot_push_Suc: "ring_ok b \<Longrightarrow> Suc i < ringSize \<Longrightarrow> slot (push s b) (Suc i) = slot b i"
  using index_Suc [of "head b" i] by (simp add: ring_ok_def slot_def push_def ringSize_def del: diff_Suc_Suc)

lemma recent_push:
  assumes "ring_ok b"
  shows "recent (push s b) = take ringSize (s # recent b)"
proof (rule nth_equalityI)
  have c: "ring_count b \<le> 60" using assms by (simp add: ring_ok_def ringSize_def)
  show l: "length (recent (push s b)) = length (take ringSize (s # recent b))"
    using c by (simp add: recent_def push_def ringSize_def)
  fix i assume i: "i < length (recent (push s b))"
  then have i60: "i < 60" "i < Suc (ring_count b)" using l by (simp_all add: ringSize_def recent_def)
  have "recent (push s b) ! i = slot (push s b) i" using i by (simp add: recent_def)
  also have "\<dots> = take ringSize (s # recent b) ! i"
  proof (cases i)
    case 0
    then show ?thesis using slot_push_0 [OF assms] by (simp add: ringSize_def)
  next
    case (Suc j)
    then show ?thesis using slot_push_Suc [OF assms, of j s] i60 by (simp add: ringSize_def recent_def)
  qed
  finally show "recent (push s b) ! i = take ringSize (s # recent b) ! i" .
qed

lemma last_snapshot_recent: "last_snapshot b = (case recent b of [] \<Rightarrow> None | s # _ \<Rightarrow> Some s)"
  by (simp add: last_snapshot_def recent_def upt_conv_Cons del: upt_Suc)

text \<open>A bounded history: the interface through which the connections and the scales see the ring.\<close>

locale history =
  fixes add :: "'s \<Rightarrow> 'b \<Rightarrow> 'b" and view :: "'b \<Rightarrow> 's list" and ok :: "'b \<Rightarrow> bool" and start :: 'b and cap :: nat
  assumes start_ok: "ok start" and start_view: "view start = []" and add_ok: "ok b \<Longrightarrow> ok (add s b)"
    and add_view: "ok b \<Longrightarrow> view (add s b) = take cap (s # view b)"
begin

lemma fold_ok: "ok b \<Longrightarrow> ok (fold add ss b)"
  by (induction ss arbitrary: b) (simp_all add: add_ok)

lemma history: "view (fold add ss start) = take cap (rev ss)"
proof (induction ss rule: rev_induct)
  case (snoc s ss)
  have "view (fold add (ss @ [s]) start) = take cap (s # view (fold add ss start))"
    using add_view [OF fold_ok [OF start_ok]] by simp
  then show ?case using snoc by (cases cap) simp_all
qed (simp add: start_view)

lemma newest: "0 < cap \<Longrightarrow> ss \<noteq> [] \<Longrightarrow> \<exists>rest. view (fold add ss start) = last ss # rest"
  unfolding history by (cases ss rule: rev_cases; cases cap) simp_all

end

interpretation ring: history push recent ring_ok empty_ring ringSize
  by unfold_locales (simp_all add: ring_ok_push recent_push)

section \<open>The window of the scales\<close>

lemma window_of_recent:
  assumes "ring_count b \<le> ringSize"
  shows "window_of b window = filter (\<lambda>s. Timestamp s \<noteq> 0) (drop 1 (take window (recent b)))"
proof -
  have "drop 1 (take window (recent b)) = map (slot b) [1..<min window (ring_count b)]"
    by (auto simp: recent_def take_map drop_map take_upt drop_upt min_def)
  then show ?thesis by (auto simp: window_of_def Let_def min_def)
qed

lemma low_le: "low f ss a \<le> a \<and> (\<forall>s \<in> set ss. low f ss a \<le> f s)"
proof (induction ss arbitrary: a)
  case (Cons s ss)
  have e: "low f (s # ss) a = low f ss (if f s < a then f s else a)" by (simp add: low_def)
  show ?case unfolding e using Cons [of "if f s < a then f s else a"] by (auto split: if_splits intro: order_trans less_imp_le)
qed (simp add: low_def)

lemma high_ge: "a \<le> high f ss a \<and> (\<forall>s \<in> set ss. f s \<le> high f ss a)"
proof (induction ss arbitrary: a)
  case (Cons s ss)
  have e: "high f (s # ss) a = high f ss (if a < f s then f s else a)" by (simp add: high_def)
  show ?case unfolding e using Cons [of "if a < f s then f s else a"] by (auto split: if_splits intro: order_trans less_imp_le)
qed (simp add: high_def)

lemma cpu_scale_bounds:
  assumes "lo \<le> x" and "x \<le> hi" and "0 \<le> x" and "x \<le> 100"
  shows "0 \<le> fst (cpu_scale lo hi) \<and> fst (cpu_scale lo hi) \<le> x \<and> x \<le> snd (cpu_scale lo hi) \<and> snd (cpu_scale lo hi) \<le> 100"
proof -
  define m where "m = (if (if hi - lo < 1 / 2 then 1 / 2 else hi - lo) * (5 / 100) < 1 / 10 then 1 / 10
    else (if hi - lo < 1 / 2 then 1 / 2 else hi - lo) * (5 / 100))"
  have "1 / 10 \<le> m" unfolding m_def by simp
  moreover have "cpu_scale lo hi = (if lo - m < 0 then 0 else lo - m, if 100 < hi + m then 100 else hi + m)"
    unfolding cpu_scale_def Let_def m_def ..
  ultimately show ?thesis using assms by auto
qed

lemma clock_scale_bounds:
  assumes "lo \<le> x" and "x \<le> hi" and "0 \<le> x"
  shows "0 \<le> fst (clock_scale lo hi) \<and> fst (clock_scale lo hi) \<le> x \<and> x \<le> snd (clock_scale lo hi)"
  using assms by (simp add: clock_scale_def Let_def)

lemma mem_scale_bounds:
  assumes "lo \<le> x" and "x \<le> hi" and "0 \<le> lo" and "hi < 2 ^ 62" and "x \<le> memTotal"
  shows "0 \<le> fst (mem_scale memTotal lo hi) \<and> fst (mem_scale memTotal lo hi) \<le> x \<and>
    x \<le> snd (mem_scale memTotal lo hi) \<and> snd (mem_scale memTotal lo hi) \<le> memTotal"
proof -
  have p: "(2 :: int) ^ 64 = 4 * 2 ^ 62" "(1 :: int) < 2 ^ 62" by simp_all
  have u: "u64 (hi - lo) = hi - lo" using assms p by (intro u64_id) linarith+
  define d where "d = (if hi - lo < 1 then 1 else hi - lo)"
  define g where "g = (if d div 20 < 1 then 1 else d div 20)"
  have "d < 2 ^ 62" "1 \<le> d" using assms p unfolding d_def by auto
  moreover have "d div 20 \<le> d" using \<open>1 \<le> d\<close> by (simp add: div_le_dividend)
  ultimately have g: "1 \<le> g" "g < 2 ^ 62" using p unfolding g_def by auto
  have t: "u64 (hi + g) = hi + g" using assms g p by (intro u64_id) linarith+
  have "mem_scale memTotal lo hi = (if g < lo then lo - g else 0, if memTotal < hi + g then memTotal else hi + g)"
    unfolding mem_scale_def Let_def u d_def [symmetric] g_def [symmetric] t ..
  then show ?thesis using assms g by (auto split: if_splits)
qed

section \<open>What the connections hold\<close>

text \<open>
  The invariant of a connection: its channel is bounded; what was written and what waits is part, in order, of what was published
  since it was opened; it was greeted at most once, with a snapshot no older than the newest one at that time.
\<close>

definition conn_ok :: "snapshot list \<Rightarrow> conn \<Rightarrow> bool" where
  "conn_ok pub k \<longleftrightarrow>
     conn_from k \<le> length pub \<and> length (channel k) \<le> channel_cap \<and>
     subseq (written k @ channel k) (drop (conn_from k) pub) \<and>
     (conn_phase k = Subscribed \<longrightarrow> written k = []) \<and>
     (greeting k = [] \<or> (\<exists>i. i < length pub \<and> conn_from k \<le> Suc i \<and> greeting k = [pub ! i]))"

definition broker_ok :: "broker \<Rightarrow> bool" where
  "broker_ok b \<longleftrightarrow> b_ring b = fold push (published b) empty_ring \<and>
     (\<forall>c k. b_clients b c = Some k \<longrightarrow> conn_ok (published b) k)"

lemma broker_okD: "broker_ok b \<Longrightarrow> b_clients b c = Some k \<Longrightarrow> conn_ok (published b) k"
  by (simp add: broker_ok_def)

lemma broker_ok_update:
  "broker_ok b \<Longrightarrow> conn_ok (published b) k \<Longrightarrow> broker_ok (b\<lparr>b_clients := (b_clients b)(c \<mapsto> k)\<rparr>)"
  by (simp add: broker_ok_def)

lemma conn_ok_offer:
  assumes "conn_ok pub k"
  shows "conn_ok (pub @ [s]) (offer s k)"
proof -
  have d: "drop (conn_from k) (pub @ [s]) = drop (conn_from k) pub @ [s]" using assms by (simp add: conn_ok_def)
  have sub: "subseq (written k @ channel k) (drop (conn_from k) pub)" using assms by (simp add: conn_ok_def)
  have "subseq ((written k @ channel k) @ [s]) (drop (conn_from k) pub @ [s])" using sub by (rule list_emb_append_mono) simp
  moreover have "subseq ((written k @ channel k) @ []) (drop (conn_from k) pub @ [s])" using sub by (rule list_emb_append_mono) simp
  moreover have "greeting k = [] \<or> (\<exists>i. i < length (pub @ [s]) \<and> conn_from k \<le> Suc i \<and> greeting k = [(pub @ [s]) ! i])"
  proof (cases "greeting k = []")
    case False
    then obtain i where "i < length pub" "conn_from k \<le> Suc i" "greeting k = [pub ! i]" using assms by (auto simp: conn_ok_def)
    then show ?thesis by (intro disjI2 exI [of _ i]) (simp add: nth_append)
  qed simp
  ultimately show ?thesis using assms by (simp add: conn_ok_def offer_def d)
qed

lemma last_published: "ss \<noteq> [] \<Longrightarrow> last_snapshot (fold push ss empty_ring) = Some (last ss)"
  using ring.newest [of ss] by (auto simp: last_snapshot_recent ringSize_def)

lemma conn_ok_greet:
  assumes "conn_ok pub k"
  shows "conn_ok pub (k\<lparr>conn_phase := Streaming,
    greeting := (case last_snapshot (fold push pub empty_ring) of None \<Rightarrow> [] | Some s \<Rightarrow> [s])\<rparr>)"
proof (cases "pub = []")
  case False
  then have "last_snapshot (fold push pub empty_ring) = Some (pub ! (length pub - 1))"
    using last_published by (simp add: last_conv_nth)
  with False assms show ?thesis by (auto simp: conn_ok_def intro!: exI [of _ "length pub - 1"])
qed (use assms in \<open>simp add: conn_ok_def last_snapshot_def empty_ring_def\<close>)

lemma broker_ok_step: "broker_step b e b' \<Longrightarrow> broker_ok b \<Longrightarrow> broker_ok b'"
proof (induction rule: broker_step.induct)
  case (Publish b s)
  let ?s = "computeOscilloScales (b_ring b) s windowSnaps"
  have r: "b_ring b = fold push (published b) empty_ring" using Publish by (simp add: broker_ok_def)
  have "conn_ok (published b @ [?s]) k'" if "map_option (offer ?s) (b_clients b c) = Some k'" for c k'
    using that conn_ok_offer [OF broker_okD [OF Publish]] by auto
  with r show ?case by (simp add: broker_ok_def publish_def Let_def)
next
  case (Connect b c)
  then show ?case unfolding subscribe_def by (rule_tac broker_ok_update) (simp_all add: conn_ok_def)
next
  case (Greet b c)
  have r: "b_ring b = fold push (published b) empty_ring" using Greet by (simp add: broker_ok_def)
  show ?case
  proof (cases "b_clients b c")
    case (Some k)
    show ?thesis
      using broker_ok_update [OF Greet conn_ok_greet [OF broker_okD [OF Greet Some]]] Greet
      by (simp add: greet_def Some r Let_def)
  qed (use Greet in \<open>simp add: greet_def\<close>)
next
  case (Deliver b c)
  show ?case
  proof (cases "\<exists>k s ss. b_clients b c = Some k \<and> channel k = s # ss \<and> conn_phase k = Streaming")
    case True
    then obtain k s ss where k: "b_clients b c = Some k" "channel k = s # ss" "conn_phase k = Streaming" by blast
    then have "conn_ok (published b) (k\<lparr>channel := ss, written := written k @ [s]\<rparr>)"
      using broker_okD [OF Deliver k(1)] by (simp add: conn_ok_def)
    from broker_ok_update [OF Deliver this] k show ?thesis by (simp add: deliver_def)
  next
    case False
    then have "deliver c b = b" by (auto simp: deliver_def split: option.splits list.splits)
    then show ?thesis using Deliver by simp
  qed
next
  case (Disconnect b c)
  then show ?case by (simp add: broker_ok_def unsubscribe_def)
qed

lemma broker_run_ok: "broker_run es b \<Longrightarrow> broker_ok b"
  by (induction rule: broker_run.induct) (simp_all add: broker_ok_step, simp add: broker_ok_def new_broker_def)

lemma window_history:
  "window_of (fold push ss empty_ring) windowSnaps = filter (\<lambda>s. Timestamp s \<noteq> 0) (drop 1 (take windowSnaps (rev ss)))"
proof -
  have "ring_count (fold push ss empty_ring) \<le> ringSize"
    using ring.fold_ok [OF ring_ok_empty] by (simp add: ring_ok_def)
  from window_of_recent [OF this] show ?thesis by (simp add: ring.history windowSnaps_def ringSize_def)
qed

section \<open>Properties\<close>

text \<open>
  C22. The ring refines a bounded history: after any snapshots were pushed it holds the last sixty of them, newest first, the handler finds the
  last one, and the scales look at the last fifteen of them but for the newest.
\<close>

theorem ring_refines_history:
  "recent (fold push ss empty_ring) = take ringSize (rev ss) \<and>
   last_snapshot (fold push ss empty_ring) = (if ss = [] then None else Some (last ss)) \<and>
   window_of (fold push ss empty_ring) windowSnaps =
     filter (\<lambda>s. Timestamp s \<noteq> 0) (drop 1 (take windowSnaps (rev ss)))"
proof -
  have "last_snapshot (fold push [] empty_ring) = None" by (simp add: last_snapshot_def empty_ring_def)
  then show ?thesis using last_published window_history by (auto simp: ring.history)
qed

text \<open>
  C23. What a client is sent: in every state the broker can reach, a connection has at most four snapshots waiting, and those written and waiting are,
  in order, some of those published since it was opened, never anything else; the greeting is one that was published no earlier than the last one before.
\<close>

theorem stream_in_order:
  assumes "broker_run es b" and "b_clients b c = Some k"
  shows "length (channel k) \<le> 4 \<and> subseq (written k @ channel k) (drop (conn_from k) (published b)) \<and>
    list_all (\<lambda>s. \<exists>i. conn_from k \<le> Suc i \<and> i < length (published b) \<and> s = published b ! i) (greeting k) \<and>
    length (greeting k) \<le> 1 \<and> recent (b_ring b) = take ringSize (rev (published b))"
proof -
  have "broker_ok b" by (rule broker_run_ok [OF assms(1)])
  then have "conn_ok (published b) k" "b_ring b = fold push (published b) empty_ring"
    using assms(2) by (auto simp: broker_ok_def)
  then show ?thesis by (auto simp: conn_ok_def channel_cap_def ring.history)
qed

definition sample :: "int \<Rightarrow> rat \<Rightarrow> snapshot" where
  "sample t usage = zero_snapshot\<lparr>Timestamp := t, CPUUsage := usage, MemTotal := 100\<rparr>"

lemma scaled_Timestamp [simp]: "Timestamp (computeOscilloScales b s w) = Timestamp s"
  by (simp add: computeOscilloScales_def Let_def)

theorem stream_in_order_witness:
  "\<exists>es b k. broker_run es b \<and> b_clients b 7 = Some k \<and> length (channel k) \<le> 4"
proof -
  have "broker_step new_broker (Connect 7) (subscribe 7 new_broker)"
    by (rule broker_step.Connect) (simp add: new_broker_def)
  from broker_run.Step [OF broker_run.Start this] have r: "broker_run [Connect 7] (subscribe 7 new_broker)" by simp
  have k: "b_clients (subscribe 7 new_broker) 7 =
    Some \<lparr>conn_phase = Subscribed, channel = [], greeting = [], written = [], conn_from = length (published new_broker)\<rparr>"
    by (simp add: subscribe_def)
  from stream_in_order [OF r k] r k show ?thesis by blast
qed

text \<open>Any further steps, of whichever clients.\<close>

inductive broker_steps :: "broker \<Rightarrow> event list \<Rightarrow> broker \<Rightarrow> bool" where
  Done: "broker_steps b [] b"
| More: "broker_step b e b1 \<Longrightarrow> broker_steps b1 es b2 \<Longrightarrow> broker_steps b (e # es) b2"

inductive_cases broker_steps_ConsE: "broker_steps b (e # es) b'"
inductive_simps broker_steps_Nil: "broker_steps b [] b'"

text \<open>How often the handler of a client reads its channel: only once it is streaming, that is after its greeting.\<close>

fun reads :: "nat \<Rightarrow> phase \<Rightarrow> event list \<Rightarrow> nat" where
  "reads c ph [] = 0"
| "reads c ph (Greet d # es) = reads c (if d = c then Streaming else ph) es"
| "reads c ph (Deliver d # es) = (if d = c \<and> ph = Streaming then Suc (reads c ph es) else reads c ph es)"
| "reads c ph (e # es) = reads c ph es"

lemma client_step:
  assumes "broker_step b e b'" and "b_clients b c = Some k" and "e \<noteq> Disconnect c"
  shows "\<exists>k'. b_clients b' c = Some k' \<and> prefix (written k @ channel k) (written k' @ channel k') \<and>
    min (length (written k @ channel k)) (length (written k) + reads c (conn_phase k) (e # es))
      \<le> min (length (written k' @ channel k')) (length (written k') + reads c (conn_phase k') es)"
  using assms(1)
proof cases
  case (Publish s)
  let ?s = "computeOscilloScales (b_ring b) s windowSnaps"
  have "b_clients b' c = Some (offer ?s k)" using Publish assms(2) by (simp add: publish_def Let_def)
  moreover have "written (offer ?s k) = written k" "conn_phase (offer ?s k) = conn_phase k"
    "prefix (channel k) (channel (offer ?s k))"
    by (simp_all add: offer_def)
  moreover from this(3) have "length (channel k) \<le> length (channel (offer ?s k))" by (rule prefix_length_le)
  ultimately show ?thesis using Publish by (intro exI [of _ "offer ?s k"]) simp
next
  case (Connect d)
  then show ?thesis using assms(2) by (auto simp: subscribe_def)
next
  case (Greet d)
  then show ?thesis using assms(2) by (cases "conn_phase k") (auto simp: greet_def split: option.splits)
next
  case (Deliver d)
  show ?thesis
  proof (cases "d = c")
    case True
    then show ?thesis using Deliver assms(2) by (cases "channel k") (auto simp: deliver_def)
  next
    case False
    have "b_clients (deliver d b) c = b_clients b c"
      using False by (auto simp: deliver_def split: option.splits list.splits)
    then show ?thesis using Deliver False assms(2) by simp
  qed
next
  case (Disconnect d)
  then show ?thesis using assms(2,3) by (simp add: unsubscribe_def)
qed

lemma client_steps:
  "broker_steps b es b' \<Longrightarrow> b_clients b c = Some k \<Longrightarrow> Disconnect c \<notin> set es \<Longrightarrow>
   \<exists>k'. b_clients b' c = Some k' \<and> prefix (written k @ channel k) (written k' @ channel k') \<and>
     min (length (written k @ channel k)) (length (written k) + reads c (conn_phase k) es) \<le> length (written k')"
proof (induction arbitrary: k rule: broker_steps.induct)
  case (More b e b1 es b2)
  from More.prems(2) have "e \<noteq> Disconnect c" "Disconnect c \<notin> set es" by auto
  from client_step [OF More.hyps(1) More.prems(1) this(1), of es] obtain k1 where
    k1: "b_clients b1 c = Some k1" "prefix (written k @ channel k) (written k1 @ channel k1)"
      "min (length (written k @ channel k)) (length (written k) + reads c (conn_phase k) (e # es))
        \<le> min (length (written k1 @ channel k1)) (length (written k1) + reads c (conn_phase k1) es)" by blast
  from More.IH [OF k1(1) \<open>Disconnect c \<notin> set es\<close>] obtain k' where
    k': "b_clients b2 c = Some k'" "prefix (written k1 @ channel k1) (written k' @ channel k')"
      "min (length (written k1 @ channel k1)) (length (written k1) + reads c (conn_phase k1) es) \<le> length (written k')" by blast
  show ?case using k'(1) prefix_order.trans [OF k1(2) k'(2)] order_trans [OF k1(3) k'(3)] by blast
qed simp

text \<open>
  C24. Publishing never waits for a client, and a client with room in its channel gets the snapshot. However the steps of the collector
  and of all clients follow each other from there, as long as this client does not disconnect: once its handler has read its channel as often as
  something is in it, four times at most, the client has been written everything that was waiting and then the new snapshot, with its
  scales, before any later one. A client whose channel is full is left as it is.
\<close>

theorem snapshot_delivered:
  assumes "b_clients b c = Some k" and "broker_steps (publish s b) es b'" and "Disconnect c \<notin> set es"
    and "length (channel k) < reads c (conn_phase k) es"
  shows "if length (channel k) < channel_cap
    then \<exists>k' later. b_clients b' c = Some k' \<and>
      written k' = written k @ channel k @ [computeOscilloScales (b_ring b) s windowSnaps] @ later
    else b_clients (publish s b) c = Some k"
proof (cases "length (channel k) < channel_cap")
  case True
  let ?s = "computeOscilloScales (b_ring b) s windowSnaps"
  let ?k = "k\<lparr>channel := channel k @ [?s]\<rparr>"
  have p: "b_clients (publish s b) c = Some ?k" using True assms(1) by (simp add: publish_def Let_def offer_def)
  from client_steps [OF assms(2) p assms(3)] obtain k' where k': "b_clients b' c = Some k'"
    "prefix (written ?k @ channel ?k) (written k' @ channel k')"
    "min (length (written ?k @ channel ?k)) (length (written ?k) + reads c (conn_phase ?k) es) \<le> length (written k')" by blast
  have "length (written ?k @ channel ?k) \<le> length (written k')" using k'(3) assms(4) by simp
  from prefix_length_prefix [OF k'(2) _ this] have "prefix (written ?k @ channel ?k) (written k')" by simp
  then obtain later where "written k' = (written k @ channel k @ [?s]) @ later" by (auto simp: prefix_def)
  with True k'(1) show ?thesis by simp
next
  case False
  then have "b_clients (publish s b) c = Some k" using assms(1) by (simp add: publish_def Let_def offer_def)
  with False show ?thesis by simp
qed

theorem snapshot_delivered_witness:
  "\<exists>b' k later. broker_steps (publish (sample 5 1) (subscribe 7 new_broker))
       [Connect 8, Greet 7, Publish (sample 7 1), Greet 8, Deliver 8, Deliver 7, Disconnect 8] b' \<and>
     b_clients b' 7 = Some k \<and> written k = [computeOscilloScales empty_ring (sample 5 1) windowSnaps] @ later"
proof -
  let ?b = "subscribe 7 new_broker"
  let ?es = "[Connect 8, Greet 7, Publish (sample 7 1), Greet 8, Deliver 8, Deliver 7, Disconnect 8]"
  let ?k = "\<lparr>conn_phase = Subscribed, channel = [], greeting = [], written = [], conn_from = 0\<rparr>"
  have k: "b_clients ?b 7 = Some ?k" by (simp add: subscribe_def new_broker_def)
  have n: "b_clients (publish (sample 5 1) ?b) 8 = None" by (simp add: publish_def Let_def subscribe_def new_broker_def)
  obtain b' where s: "broker_steps (publish (sample 5 1) ?b) ?es b'"
    using broker_steps.More [OF broker_step.Connect [OF n]] broker_step.Greet broker_step.Publish broker_step.Deliver
      broker_step.Disconnect broker_steps.Done broker_steps.More by meson
  have "b_ring ?b = empty_ring" by (simp add: subscribe_def new_broker_def)
  with snapshot_delivered [OF k s] s show ?thesis by (auto simp: channel_cap_def)
qed

text \<open>
  The greeting can be out of order: when two snapshots are published between the opening of a connection and its greeting, the client is sent the
  second, then the first, then the second again.
\<close>

theorem greeting_out_of_order:
  "\<exists>b k. broker_run [Connect c, Publish x, Publish y, Greet c, Deliver c, Deliver c] b \<and> b_clients b c = Some k \<and>
     map Timestamp (greeting k @ written k) = [Timestamp y, Timestamp x, Timestamp y]"
proof -
  define b0 where "b0 = subscribe c new_broker"
  define b1 where "b1 = publish x b0"
  define b2 where "b2 = publish y b1"
  let ?x = "computeOscilloScales (b_ring b0) x windowSnaps" and ?y = "computeOscilloScales (b_ring b1) y windowSnaps"
  have r: "broker_run [Connect c] b0"
    unfolding b0_def by (rule broker_run.Step [OF broker_run.Start, of "Connect c", simplified])
      (rule broker_step.Connect, simp add: new_broker_def)
  have "broker_run ([Connect c] @ [Publish x]) b1" unfolding b1_def by (rule broker_run.Step [OF r broker_step.Publish])
  then have "broker_run (([Connect c] @ [Publish x]) @ [Publish y]) b2"
    unfolding b2_def by (rule broker_run.Step) (rule broker_step.Publish)
  from broker_run.Step [OF this broker_step.Greet [of _ c]] have "broker_run [Connect c, Publish x, Publish y, Greet c] (greet c b2)" by simp
  from broker_run.Step [OF this broker_step.Deliver [of _ c]]
  have "broker_run [Connect c, Publish x, Publish y, Greet c, Deliver c] (deliver c (greet c b2))" by simp
  from broker_run.Step [OF this broker_step.Deliver [of _ c]]
  have run: "broker_run [Connect c, Publish x, Publish y, Greet c, Deliver c, Deliver c] (deliver c (deliver c (greet c b2)))" by simp
  have k0: "b_clients b0 c = Some \<lparr>conn_phase = Subscribed, channel = [], greeting = [], written = [], conn_from = 0\<rparr>"
    by (simp add: b0_def subscribe_def new_broker_def)
  have k2: "b_clients b2 c = Some \<lparr>conn_phase = Subscribed, channel = [?x, ?y], greeting = [], written = [], conn_from = 0\<rparr>"
    by (simp add: b2_def b1_def publish_def Let_def k0 offer_def channel_cap_def)
  have "b_ring b2 = fold push [?x, ?y] empty_ring" by (simp add: b2_def b1_def b0_def subscribe_def new_broker_def publish_def Let_def)
  then have l: "last_snapshot (b_ring b2) = Some ?y" using last_published [of "[?x, ?y]"] by simp
  have "b_clients (deliver c (deliver c (greet c b2))) c =
      Some \<lparr>conn_phase = Streaming, channel = [], greeting = [?y], written = [?x, ?y], conn_from = 0\<rparr>"
    by (simp add: greet_def k2 l deliver_def)
  with run show ?thesis by (intro exI conjI) (assumption, assumption, simp)
qed

text \<open>A snapshot whose values are in their ranges.\<close>

definition reading_ok :: "int \<Rightarrow> snapshot \<Rightarrow> bool" where
  "reading_ok mt s \<longleftrightarrow> 0 \<le> CPUUsage s \<and> CPUUsage s \<le> 100 \<and> 0 \<le> CPUFreqAvg s \<and> 0 \<le> MemUsed s \<and> MemUsed s \<le> mt"

lemma low_mem: "low f ss a = a \<or> (\<exists>s \<in> set ss. low f ss a = f s)"
proof (induction ss arbitrary: a)
  case (Cons s ss)
  have e: "low f (s # ss) a = low f ss (if f s < a then f s else a)" by (simp add: low_def)
  show ?case unfolding e using Cons [of "if f s < a then f s else a"] by (auto split: if_splits)
qed (simp add: low_def)

lemma high_mem: "high f ss a = a \<or> (\<exists>s \<in> set ss. high f ss a = f s)"
proof (induction ss arbitrary: a)
  case (Cons s ss)
  have e: "high f (s # ss) a = high f ss (if a < f s then f s else a)" by (simp add: high_def)
  show ?case unfolding e using Cons [of "if a < f s then f s else a"] by (auto split: if_splits)
qed (simp add: high_def)

lemma low_high_in: "s \<in> set (snap # ws) \<Longrightarrow> low f ws (f snap) \<le> f s \<and> f s \<le> high f ws (f snap)"
  using low_le [of f ws "f snap"] high_ge [of "f snap" f ws] by auto

text \<open>
  The scales fit the curve: when the values are in their ranges, the scales of processor and memory contain the snapshot and every one the loop looks at and
  stay between 0 and 100 percent, 0 and the total; so does the scale of the clock for every clock that is known.
\<close>

theorem scales_contain_window:
  assumes "list_all (reading_ok (MemTotal snap)) (snap # window_of b windowSnaps)" and "MemTotal snap < 2 ^ 62"
  shows "let r = computeOscilloScales b snap windowSnaps in list_all (\<lambda>s. CPUYMin r \<le> CPUUsage s \<and> CPUUsage s \<le> CPUYMax r \<and> MemYMin r \<le> MemUsed s \<and> MemUsed s \<le> MemYMax r \<and>
      (CPUFreqAvg s = 0 \<or> CPUFreqYMin r \<le> CPUFreqAvg s \<and> CPUFreqAvg s \<le> CPUFreqYMax r)) (snap # window_of b windowSnaps) \<and>
    0 \<le> CPUYMin r \<and> CPUYMax r \<le> 100 \<and> 0 \<le> MemYMin r \<and> MemYMax r \<le> MemTotal snap \<and> 0 \<le> CPUFreqYMin r \<and>
    CPUFreqYMin r \<le> CPUFreqAvg snap \<and> CPUFreqAvg snap \<le> CPUFreqYMax r"
proof -
  define r where "r = computeOscilloScales b snap windowSnaps"
  let ?ws = "window_of b windowSnaps" and ?mt = "MemTotal snap"
  let ?fs = "filter (\<lambda>s. 0 < CPUFreqAvg s) ?ws"
  let ?all = "set (snap # ?ws)"
  have rng: "reading_ok ?mt s" if "s \<in> ?all" for s using assms(1) that by (auto simp: list_all_iff)
  have cpu: "0 \<le> CPUYMin r \<and> CPUYMin r \<le> CPUUsage s \<and> CPUUsage s \<le> CPUYMax r \<and> CPUYMax r \<le> 100" if "s \<in> ?all" for s
    using cpu_scale_bounds [of "low CPUUsage ?ws (CPUUsage snap)" "CPUUsage s" "high CPUUsage ?ws (CPUUsage snap)"]
      low_high_in [OF that, of CPUUsage] rng [OF that]
    by (simp add: r_def computeOscilloScales_def Let_def reading_ok_def)
  have ml: "0 \<le> low MemUsed ?ws (MemUsed snap)"
    using low_mem [of MemUsed ?ws "MemUsed snap"] rng by (auto simp: reading_ok_def)
  have mh: "high MemUsed ?ws (MemUsed snap) < 2 ^ 62"
    using high_mem [of MemUsed ?ws "MemUsed snap"] rng assms(2) by (fastforce simp: reading_ok_def)
  have mem: "0 \<le> MemYMin r \<and> MemYMin r \<le> MemUsed s \<and> MemUsed s \<le> MemYMax r \<and> MemYMax r \<le> ?mt" if "s \<in> ?all" for s
    using mem_scale_bounds [OF _ _ ml mh, of "MemUsed s" ?mt] low_high_in [OF that, of MemUsed] rng [OF that]
    by (simp add: r_def computeOscilloScales_def Let_def reading_ok_def)
  have freq: "0 \<le> CPUFreqYMin r \<and> CPUFreqYMin r \<le> CPUFreqAvg s \<and> CPUFreqAvg s \<le> CPUFreqYMax r"
    if "s \<in> set (snap # ?fs)" for s
    using clock_scale_bounds [of "low CPUFreqAvg ?fs (CPUFreqAvg snap)" "CPUFreqAvg s" "high CPUFreqAvg ?fs (CPUFreqAvg snap)"]
      low_high_in [OF that, of CPUFreqAvg] rng [of s] that
    by (auto simp: r_def computeOscilloScales_def Let_def reading_ok_def)
  have "CPUFreqAvg s = 0 \<or> CPUFreqYMin r \<le> CPUFreqAvg s \<and> CPUFreqAvg s \<le> CPUFreqYMax r" if "s \<in> ?all" for s
  proof (cases "CPUFreqAvg s = 0")
    case False
    then have "s \<in> set (snap # ?fs)" using that rng [OF that] by (auto simp: reading_ok_def)
    then show ?thesis using freq by blast
  qed simp
  then show ?thesis unfolding Let_def r_def [symmetric] using cpu mem cpu [of snap] mem [of snap] freq [of snap] by (simp add: list_all_iff)
qed

theorem scales_contain_window_witness:
  "CPUYMax (computeOscilloScales empty_ring (sample 3 10) windowSnaps) \<le> 100"
proof -
  have "window_of empty_ring windowSnaps = []" by (simp add: window_of_def empty_ring_def)
  then have "list_all (reading_ok (MemTotal (sample 3 10))) (sample 3 10 # window_of empty_ring windowSnaps)"
    by (simp add: reading_ok_def sample_def zero_snapshot_def)
  from scales_contain_window [OF this] show ?thesis by (simp add: sample_def Let_def)
qed

text \<open>
  C27. The scales ignore the snapshot before the current one, whatever it is: the loop over the window starts one slot too far back, so a client
  can be shown a peak of 90 percent on a scale that ends near 10 at the next tick.
\<close>

theorem previous_snapshot_ignored:
  "computeOscilloScales (fold push (ss @ [x]) empty_ring) snap windowSnaps =
     computeOscilloScales (fold push (ss @ [y]) empty_ring) snap windowSnaps \<and>
   CPUYMax (computeOscilloScales (fold push [sample 1 10, sample 2 90] empty_ring) (sample 3 10) windowSnaps) \<le> 11"
proof -
  have w: "window_of (fold push (ss @ [x]) empty_ring) windowSnaps = window_of (fold push (ss @ [y]) empty_ring) windowSnaps" for ss x y
    unfolding window_history by (simp add: windowSnaps_def)
  have "window_of (fold push [sample 1 10, sample 2 90] empty_ring) windowSnaps = [sample 1 10]"
    using window_history [of "[sample 1 10, sample 2 90]"] by (simp add: windowSnaps_def sample_def)
  then have "CPUYMax (computeOscilloScales (fold push [sample 1 10, sample 2 90] empty_ring) (sample 3 10) windowSnaps) \<le> 11"
    by (simp add: computeOscilloScales_def Let_def low_def high_def cpu_scale_def sample_def)
  then show ?thesis using w [of ss x y] by (simp only: computeOscilloScales_def Let_def)
qed

end
