(* ===== verification/SysInfo.thy ===== *)
theory SysInfo
  imports CpuMetrics Http
begin

text \<open>
  What \<open>sse/sysinfo.go\<close> and \<open>sse/metrics.go\<close> tell about hardware and packages: firmware, processor, release, kernel modules, graphics cards and
  the package database. A handler answers \<open>Inl\<close> an error response or \<open>Inr\<close> the value it encodes as JSON with status 200.
\<close>

section \<open>Processor and release\<close>

definition after_colon :: "string \<Rightarrow> string option" where
  "after_colon line = (case cut CHR '':'' line of (_, v, ok) \<Rightarrow> if ok then Some (trim_space v) else None)"

definition cpuinfo_line :: "string \<Rightarrow> string \<times> string \<times> nat \<Rightarrow> string \<times> string \<times> nat" where
  "cpuinfo_line line st =
     (case st of (model, vendor, cores) \<Rightarrow>
        (if has_prefix line ''model name'' \<and> model = [] then (case after_colon line of None \<Rightarrow> model | Some v \<Rightarrow> v) else model,
         if has_prefix line ''vendor_id'' \<and> vendor = [] then (case after_colon line of None \<Rightarrow> vendor | Some v \<Rightarrow> v) else vendor,
         if has_prefix line ''processor'' then cores + 1 else cores))"

definition getCPUInfo :: "machine \<Rightarrow> string \<times> string \<times> nat" where
  "getCPUInfo m =
     (case m_read m ''/proc/cpuinfo'' of
        None \<Rightarrow> (''unknown'', ''unknown'', 0)
      | Some d \<Rightarrow> fold cpuinfo_line (lines_of d) ([], [], 0))"

definition quote_mark :: string where
  "quote_mark = [CHR 0x22]"

definition release_line :: "string \<Rightarrow> string \<times> string \<Rightarrow> string \<times> string" where
  "release_line line st =
     (if has_prefix line ''PRETTY_NAME='' then (trim_cutset (drop 12 line) quote_mark, snd st)
      else if has_prefix line ''VERSION_ID='' then (fst st, trim_cutset (drop 11 line) quote_mark)
      else st)"

definition getOSRelease :: "machine \<Rightarrow> string \<times> string" where
  "getOSRelease m =
     (case m_read m ''/etc/os-release'' of
        None \<Rightarrow> (''unknown'', ''unknown'')
      | Some d \<Rightarrow>
          (case fold release_line (lines_of d) ([], []) of
             (pretty, version) \<Rightarrow> (if pretty = [] then ''unknown'' else pretty, if version = [] then ''unknown'' else version)))"

section \<open>Firmware\<close>

definition dmi_file :: "machine \<Rightarrow> string \<Rightarrow> string" where
  "dmi_file m f = trim_space (readFirstFile m [''/sys/devices/virtual/dmi/id/'' @ f])"

definition isYear :: "string \<Rightarrow> bool" where
  "isYear s \<longleftrightarrow> length s = 4 \<and> (case atoi s of (n, ok) \<Rightarrow> ok \<and> 1990 \<le> n \<and> n \<le> 2100)"

text \<open>\<open>None\<close> is the panic of the index expression on a date of four bytes.\<close>

definition extractBIOSYear :: "string \<Rightarrow> string option" where
  "extractBIOSYear date =
     (if date = [] then Some []
      else if length date = 4 then None
      else if 4 \<le> length date \<and> date ! 4 = CHR ''-'' \<and> isYear (take 4 date) then Some (take 4 date)
      else
        let ps = split_on CHR ''/'' date
        in if length ps = 3 then
             let lst = ps ! 2; sp = takeWhile (\<lambda>c. c \<noteq> CHR '' '') lst;
                 lst = (if CHR '' '' \<in> set lst \<and> sp \<noteq> [] then sp else lst)
             in Some (if isYear lst then lst else [])
           else Some [])"

record bios_info =
  bios_Vendor :: string
  bios_Version :: string
  bios_Date :: string
  bios_Year :: string

definition CollectBIOSInfo :: "machine \<Rightarrow> bios_info option" where
  "CollectBIOSInfo m =
     map_option (\<lambda>y. \<lparr>bios_Vendor = dmi_file m ''bios_vendor'', bios_Version = dmi_file m ''bios_version'',
                      bios_Date = dmi_file m ''bios_date'', bios_Year = y\<rparr>)
       (extractBIOSYear (dmi_file m ''bios_date''))"

definition CollectBoardVersion :: "machine \<Rightarrow> string" where
  "CollectBoardVersion m = dmi_file m ''board_version''"

text \<open>Firmware, board version, whether there is any; the outer \<open>None\<close> is the panic.\<close>

definition BIOSHandler :: "machine \<Rightarrow> request \<Rightarrow> (response + bios_info \<times> string \<times> bool) option" where
  "BIOSHandler m r =
     (if req_method r \<noteq> ''GET'' then Some (Inl method_not_allowed)
      else map_option (\<lambda>b. Inr (b, CollectBoardVersion m, bios_Vendor b \<noteq> [] \<or> bios_Version b \<noteq> [])) (CollectBIOSInfo m))"

section \<open>Kernel modules\<close>

record kernel_module =
  km_name :: string
  km_size :: int
  km_use :: int
  km_used_by :: string
  km_state :: string
  km_offset :: string

definition field_or_empty :: "string list \<Rightarrow> nat \<Rightarrow> string" where
  "field_or_empty fs i = (if i < length fs then fs ! i else [])"

definition module_line :: "string \<Rightarrow> kernel_module option" where
  "module_line l =
     (let line = trim_space l; fs = GoPrelude.fields line
      in if line = [] \<or> length fs < 3 then None
         else Some \<lparr>km_name = fs ! 0, km_size = fst (parse_int 10 64 (fs ! 1)), km_use = fst (atoi (fs ! 2)),
                    km_used_by = field_or_empty fs 3, km_state = field_or_empty fs 4, km_offset = field_or_empty fs 5\<rparr>)"

definition CollectKernelModules :: "machine \<Rightarrow> kernel_module list" where
  "CollectKernelModules m =
     (case m_read m ''/proc/modules'' of
        None \<Rightarrow> []
      | Some d \<Rightarrow> List.map_filter module_line (lines_of (trim_space d)))"

definition CollectModulesSummary :: "machine \<Rightarrow> nat \<times> string list" where
  "CollectModulesSummary m =
     (let mods = CollectKernelModules m in (length mods, exchange_sort str_less (map km_name mods)))"

text \<open>The summary, or the count and the modules.\<close>

definition ModulesHandler ::
  "machine \<Rightarrow> request \<Rightarrow> response + (nat \<times> string list) + (nat \<times> kernel_module list)" where
  "ModulesHandler m r =
     (if req_method r \<noteq> ''GET'' then Inl method_not_allowed
      else if query_get r ''summary'' = ''1'' then Inr (Inl (CollectModulesSummary m))
      else Inr (Inr (length (CollectKernelModules m), CollectKernelModules m)))"

section \<open>Graphics cards\<close>

definition trimPath :: "string \<Rightarrow> string" where
  "trimPath p = rev (takeWhile (\<lambda>c. c \<noteq> CHR ''/'') (rev p))"

definition isCardEntry :: "string \<Rightarrow> bool" where
  "isCardEntry name \<longleftrightarrow> has_prefix name ''card'' \<and> drop 4 name \<noteq> [] \<and> list_all is_digit_byte (drop 4 name)"

definition extractPCIFromUevent :: "machine \<Rightarrow> string \<Rightarrow> string" where
  "extractPCIFromUevent m p =
     (case m_read m p of
        None \<Rightarrow> []
      | Some d \<Rightarrow>
          (case List.find (\<lambda>l. has_prefix l ''PCI_SLOT_NAME='') (lines_of d) of
             None \<Rightarrow> [] | Some l \<Rightarrow> trim_prefix l ''PCI_SLOT_NAME=''))"

definition isPCIDisplayClass :: "string \<Rightarrow> bool" where
  "isPCIDisplayClass classHex =
     (let s = trim_prefix (to_lower classHex) ''0x''
      in 4 \<le> length classHex \<and> 4 \<le> length s \<and> has_prefix s ''03'')"

definition known_vendors :: "(string \<times> string) list" where
  "known_vendors =
     [(''8086'', ''Intel Corporation''), (''1002'', ''Advanced Micro Devices''), (''10de'', ''NVIDIA Corporation''),
      (''1234'', ''QEMU Virtual GPU''), (''1af4'', ''VirtIO GPU''), (''15ad'', ''VMware SVGA''),
      (''1414'', ''Microsoft Hyper-V GPU'')]"

definition resolveVendor :: "string \<Rightarrow> string" where
  "resolveVendor hexCode =
     (case map_of known_vendors (to_lower (trim_prefix hexCode ''0x'')) of
        Some v \<Rightarrow> v
      | None \<Rightarrow> if hexCode \<noteq> [] then ''GPU '' @ hexCode else ''Unknown'')"

definition resolveGPUName :: "string \<Rightarrow> string \<Rightarrow> string \<Rightarrow> string" where
  "resolveGPUName vendor deviceHex driver =
     (if contains vendor ''Intel'' \<and> driver = ''i915'' then ''Intel Graphics (i915)''
      else if contains vendor ''Intel'' \<and> driver = ''xe'' then ''Intel Arc Graphics (xe)''
      else if contains vendor ''AMD'' \<and> driver = ''amdgpu'' then ''AMD Radeon (amdgpu)''
      else if contains vendor ''AMD'' \<and> driver = ''radeon'' then ''AMD Radeon (radeon)''
      else if contains vendor ''NVIDIA'' \<and> driver = ''nouveau'' then ''NVIDIA (nouveau)''
      else if contains vendor ''NVIDIA'' \<and> driver \<noteq> [] then ''NVIDIA ('' @ driver @ '')''
      else if vendor = ''QEMU Virtual GPU'' \<or> vendor = ''VirtIO GPU'' then vendor
      else if deviceHex \<noteq> [] \<and> deviceHex \<noteq> ''0x0000'' then vendor @ '' ['' @ deviceHex @ '']''
      else vendor)"

record gpu_info =
  gpu_name :: string
  gpu_driver :: string
  gpu_pci :: string
  gpu_vendor :: string
  gpu_present :: bool

text \<open>A card of the direct rendering manager; an address counts once.\<close>

definition drm_card :: "machine \<Rightarrow> dir_entry \<Rightarrow> gpu_info list \<Rightarrow> gpu_info list" where
  "drm_card m e found =
     (let base = ''/sys/class/drm/'' @ entry_name e @ ''/device''; pci = extractPCIFromUevent m (base @ ''/uevent'')
      in if \<not> isCardEntry (entry_name e) then found
         else if pci = [] \<or> pci \<in> gpu_pci ` set found then found
         else
           let vendor = resolveVendor (trim_space (readFirstFile m [base @ ''/vendor'']));
               driver = (case m_link m (base @ ''/driver'') of None \<Rightarrow> [] | Some l \<Rightarrow> trimPath l);
               dev = trim_space (readFirstFile m [base @ ''/device''])
           in found @ [\<lparr>gpu_name = resolveGPUName vendor dev driver, gpu_driver = driver, gpu_pci = pci,
                        gpu_vendor = vendor, gpu_present = True\<rparr>])"

definition pci_card :: "machine \<Rightarrow> dir_entry \<Rightarrow> gpu_info list \<Rightarrow> gpu_info list" where
  "pci_card m e found =
     (let addr = entry_name e; base = ''/sys/bus/pci/devices/'' @ addr
      in if addr \<in> gpu_pci ` set found then found
         else if \<not> isPCIDisplayClass (trim_space (readFirstFile m [base @ ''/class''])) then found
         else
           let vendor = resolveVendor (trim_space (readFirstFile m [base @ ''/vendor'']));
               dev = trim_space (readFirstFile m [base @ ''/device''])
           in found @ [\<lparr>gpu_name = resolveGPUName vendor dev [], gpu_driver = [], gpu_pci = addr,
                        gpu_vendor = vendor, gpu_present = True\<rparr>])"

definition dir_or_empty :: "machine \<Rightarrow> string \<Rightarrow> dir_entry list" where
  "dir_or_empty m p = (case m_dir m p of None \<Rightarrow> [] | Some es \<Rightarrow> es)"

definition CollectGPUs :: "machine \<Rightarrow> gpu_info list" where
  "CollectGPUs m =
     fold (pci_card m) (dir_or_empty m ''/sys/bus/pci/devices'') (fold (drm_card m) (dir_or_empty m ''/sys/class/drm'') [])"

definition GPUsHandler :: "machine \<Rightarrow> request \<Rightarrow> response + nat \<times> gpu_info list" where
  "GPUsHandler m r =
     (if req_method r \<noteq> ''GET'' then Inl method_not_allowed else Inr (length (CollectGPUs m), CollectGPUs m))"

section \<open>Packages\<close>

record apk_package =
  apk_name :: string
  apk_version :: string
  apk_arch :: string
  apk_size :: int
  apk_desc :: string

definition no_package :: apk_package where
  "no_package = \<lparr>apk_name = [], apk_version = [], apk_arch = [], apk_size = 0, apk_desc = []\<rparr>"

definition apk_field :: "char \<Rightarrow> string \<Rightarrow> apk_package \<Rightarrow> apk_package" where
  "apk_field k v p =
     (if k = CHR ''P'' then p\<lparr>apk_name := v\<rparr>
      else if k = CHR ''V'' then p\<lparr>apk_version := v\<rparr>
      else if k = CHR ''A'' then p\<lparr>apk_arch := v\<rparr>
      else if k = CHR ''I'' then p\<lparr>apk_size := fst (parse_int 10 64 v)\<rparr>
      else if k = CHR ''T'' then p\<lparr>apk_desc := v\<rparr>
      else p)"

text \<open>The packages found, last first, and the one being read.\<close>

definition apk_line :: "string \<Rightarrow> apk_package list \<times> apk_package \<Rightarrow> apk_package list \<times> apk_package" where
  "apk_line line st =
     (case line of
        [] \<Rightarrow> if apk_name (snd st) \<noteq> [] then (snd st # fst st, no_package) else st
      | k # c # v \<Rightarrow> if c = CHR '':'' then (fst st, apk_field k v (snd st)) else st
      | _ \<Rightarrow> st)"

definition parse_apk :: "string \<Rightarrow> apk_package list" where
  "parse_apk d =
     (case fold apk_line (lines_of d) ([], no_package) of
        (found, cur) \<Rightarrow> rev (if apk_name cur \<noteq> [] then cur # found else found))"

definition CollectAPKPackages :: "machine \<Rightarrow> apk_package list" where
  "CollectAPKPackages m =
     (case m_read m ''/lib/apk/db/installed'' of None \<Rightarrow> [] | Some d \<Rightarrow> parse_apk d)"

definition CollectAPKSummary :: "machine \<Rightarrow> nat \<times> bool" where
  "CollectAPKSummary m =
     (if \<not> fileExists m ''/lib/apk/db/installed'' then (0, False) else (length (CollectAPKPackages m), True))"

text \<open>The summary, or the count, whether the database exists and the packages.\<close>

definition PackagesHandler ::
  "machine \<Rightarrow> request \<Rightarrow> response + (nat \<times> bool) + (nat \<times> bool \<times> apk_package list)" where
  "PackagesHandler m r =
     (if req_method r \<noteq> ''GET'' then Inl method_not_allowed
      else if query_get r ''summary'' = ''1'' then Inr (Inl (CollectAPKSummary m))
      else
        let pkgs = CollectAPKPackages m; pre = query_get r ''filter'';
            pkgs = (if pre \<noteq> [] then filter (\<lambda>p. has_prefix (apk_name p) pre) pkgs else pkgs)
        in Inr (Inr (length pkgs, True, pkgs)))"

section \<open>Facts\<close>

lemma drm_card_distinct: "distinct (map gpu_pci found) \<Longrightarrow> distinct (map gpu_pci (drm_card m e found))"
  by (auto simp: drm_card_def Let_def)

lemma pci_card_distinct: "distinct (map gpu_pci found) \<Longrightarrow> distinct (map gpu_pci (pci_card m e found))"
  by (auto simp: pci_card_def Let_def)

text \<open>A package database as the package manager writes it, with the fields that are read.\<close>

definition apk_lines :: "apk_package \<Rightarrow> string list" where
  "apk_lines p = [''P:'' @ apk_name p, ''V:'' @ apk_version p, ''A:'' @ apk_arch p, ''I:'' @ itoa (apk_size p), ''T:'' @ apk_desc p, []]"

definition print_apk :: "apk_package list \<Rightarrow> string" where
  "print_apk ps = join [CHR 0x0A] (concat (map apk_lines ps) @ [[]])"

definition apk_ok :: "apk_package \<Rightarrow> bool" where
  "apk_ok p \<longleftrightarrow> apk_name p \<noteq> [] \<and> 0 \<le> apk_size p \<and> apk_size p < 2 ^ 63 \<and>
     list_all (\<lambda>s. CHR 0x0A \<notin> set s) [apk_name p, apk_version p, apk_arch p, apk_desc p]"

lemma itoa_parse: "0 \<le> i \<Longrightarrow> i < 2 ^ 63 \<Longrightarrow> fst (parse_int 10 64 (itoa i)) = i"
  using atoi_nat_to_dec [of "nat i"] by (simp add: atoi_def itoa_def nat_less_iff)

lemma fold_apk_lines:
  assumes "apk_ok p"
  shows "fold apk_line (apk_lines p) (found, no_package) = (p # found, no_package)"
proof -
  have "apk_line (''P:'' @ n) (found, q) = (found, q\<lparr>apk_name := n\<rparr>)"
    "apk_line (''V:'' @ n) (found, q) = (found, q\<lparr>apk_version := n\<rparr>)"
    "apk_line (''A:'' @ n) (found, q) = (found, q\<lparr>apk_arch := n\<rparr>)"
    "apk_line (''I:'' @ n) (found, q) = (found, q\<lparr>apk_size := fst (parse_int 10 64 n)\<rparr>)"
    "apk_line (''T:'' @ n) (found, q) = (found, q\<lparr>apk_desc := n\<rparr>)" for n q
    by (simp_all add: apk_line_def apk_field_def)
  moreover have e: "apk_line [] (found, p) = (p # found, no_package)" using assms by (simp add: apk_line_def apk_ok_def)
  have upd: "no_package\<lparr>apk_name := apk_name p, apk_version := apk_version p, apk_arch := apk_arch p,
      apk_size := apk_size p, apk_desc := apk_desc p\<rparr> = p" by (cases p) simp
  have "apk_line [] (found, no_package\<lparr>apk_name := apk_name p, apk_version := apk_version p, apk_arch := apk_arch p,
      apk_size := apk_size p, apk_desc := apk_desc p\<rparr>) = (p # found, no_package)" unfolding upd by (rule e)
  ultimately show ?thesis using itoa_parse [of "apk_size p"] assms
    by (simp add: apk_lines_def apk_ok_def)
qed

lemma fold_apk_db:
  "list_all apk_ok ps \<Longrightarrow> fold apk_line (concat (map apk_lines ps)) (found, no_package) = (rev ps @ found, no_package)"
  by (induction ps arbitrary: found) (simp_all add: fold_apk_lines)

lemma itoa_no_break: "0 \<le> i \<Longrightarrow> CHR 0x0A \<notin> set (itoa i)"
  using nat_to_dec_digits [of "nat i"] by (auto simp: itoa_def list_all_iff is_digit_byte_def in_range_def)

section \<open>Properties\<close>

text \<open>
  Reading back a package database gives the packages that were written, whatever their number, when names are not empty and fields hold no line break.
\<close>

theorem apk_database_roundtrip:
  assumes "list_all apk_ok ps"
  shows "parse_apk (print_apk ps) = ps"
proof -
  have "list_all (\<lambda>w. CHR 0x0A \<notin> set w) (concat (map apk_lines ps) @ [[]])"
    using assms by (induction ps) (auto simp: apk_lines_def apk_ok_def itoa_no_break)
  then have "lines_of (print_apk ps) = concat (map apk_lines ps) @ [[]]"
    unfolding lines_of_def print_apk_def by (intro split_on_join) simp_all
  then show ?thesis
    using fold_apk_db [OF assms, of "[]"] by (simp add: parse_apk_def apk_line_def no_package_def)
qed

theorem apk_database_roundtrip_witness:
  "parse_apk (print_apk [\<lparr>apk_name = ''musl'', apk_version = ''1.2.5-r0'', apk_arch = ''x86_64'', apk_size = 65536,
     apk_desc = ''the C library''\<rparr>]) =
   [\<lparr>apk_name = ''musl'', apk_version = ''1.2.5-r0'', apk_arch = ''x86_64'', apk_size = 65536, apk_desc = ''the C library''\<rparr>]"
  by (rule apk_database_roundtrip) (simp add: apk_ok_def)

text \<open>
  The firmware request panics exactly on a date of four bytes, as a bare year is, although its form was to be recognised; every other date gives an answer.
\<close>

theorem bios_date_panics:
  "BIOSHandler m r = None \<longleftrightarrow> req_method r = ''GET'' \<and> length (dmi_file m ''bios_date'') = 4"
proof -
  have "extractBIOSYear d = None \<longleftrightarrow> length d = 4" for d
    by (auto simp: extractBIOSYear_def Let_def)
  then show ?thesis by (simp add: BIOSHandler_def CollectBIOSInfo_def)
qed

text \<open>
  The lists of the hardware are in order: the module names of the summary are all the loaded ones, sorted, and no graphics card is listed twice.
\<close>

theorem hardware_lists:
  "sorted_wrt (\<lambda>a b. \<not> str_less b a) (snd (CollectModulesSummary m)) \<and>
   mset (snd (CollectModulesSummary m)) = mset (map km_name (CollectKernelModules m)) \<and>
   fst (CollectModulesSummary m) = length (CollectKernelModules m) \<and> distinct (map gpu_pci (CollectGPUs m))"
proof -
  have "distinct (map gpu_pci (fold (drm_card m) es found))" if "distinct (map gpu_pci found)" for es found
    using that by (induction es arbitrary: found) (simp_all add: drm_card_distinct)
  moreover have "distinct (map gpu_pci (fold (pci_card m) es found))" if "distinct (map gpu_pci found)" for es found
    using that by (induction es arbitrary: found) (simp_all add: pci_card_distinct)
  ultimately have "distinct (map gpu_pci (CollectGPUs m))" by (simp add: CollectGPUs_def)
  then show ?thesis by (simp add: CollectModulesSummary_def Let_def exchange_sort_strings)
qed

text \<open>The names for AMD cards are never given: the vendor they look for is not one the table resolves to.\<close>

lemma amd_names_unreachable:
  "resolveGPUName (resolveVendor ''0x1002'') ''0x73bf'' ''amdgpu'' = ''Advanced Micro Devices [0x73bf]''"
  by code_simp

end
