(* ===== verification/SystemApi.thy ===== *)
theory SystemApi
  imports Broker SysInfo PublicVersion
begin

text \<open>
  The system information (\<open>SystemInfoHandler\<close> in \<open>sse/broker.go\<close>): what the collectors say about the machine together with the last snapshot of the ring.
\<close>

record system_info =
  si_Hostname :: string
  si_OSRelease :: string
  si_OSVersion :: string
  si_Kernel :: string
  si_Date :: string
  si_Uptime :: string
  si_UnyportVersion :: string
  si_CPUModel :: string
  si_CPUVendor :: string
  si_CPUCores :: nat
  si_BoardName :: string
  si_BoardVendor :: string
  si_BoardVersion :: string
  si_BIOS :: bios_info
  si_GPUs :: "gpu_info list"
  si_APK :: "nat \<times> bool"
  si_Modules :: "nat \<times> string list"
  si_HostRole :: host_role
  si_XenRole :: string
  si_NetIface :: string
  si_NetIP :: string
  si_CPUUsage :: rat
  si_CPUPerCore :: "rat list"
  si_CPUFreqAvg :: int
  si_CPUFreqMax :: int
  si_CPUFreqCore :: "int list"
  si_CPUYMin :: rat
  si_CPUYMax :: rat
  si_CPUFreqYMin :: int
  si_CPUFreqYMax :: int
  si_MemYMin :: int
  si_MemYMax :: int
  si_CPUPeakCores :: "nat list"
  si_MemTotalMB :: int
  si_MemUsedMB :: int
  si_MemCachedMB :: int
  si_MemFreeMB :: int
  si_MemStackUsed :: int
  si_MemStackCached :: int
  si_MemStackFree :: int
  si_MemUsedPct :: int
  si_MemCachedPct :: int
  si_LBU :: lbu_status
  si_XenInfo :: xen_info
  si_XenDomains :: "xen_dom list"

definition xen_role_name :: "host_role \<Rightarrow> string" where
  "xen_role_name role =
     (if Virtualization role \<noteq> ''xen'' then []
      else if VirtualizationRole role = ''dom0'' then ''Dom0''
      else if VirtualizationRole role = ''domu'' then ''DomU''
      else [])"

definition live_snapshot :: "ring_buffer \<Rightarrow> snapshot" where
  "live_snapshot b = (case last_snapshot b of None \<Rightarrow> zero_snapshot | Some s \<Rightarrow> s)"

text \<open>\<open>date\<close> is the formatted time; \<open>None\<close> is the panic of the firmware date.\<close>

definition SystemInfoHandler :: "machine \<Rightarrow> string \<Rightarrow> host_role \<Rightarrow> ring_buffer \<Rightarrow> system_info option" where
  "SystemInfoHandler m date role b =
     (case (getCPUInfo m, getOSRelease m, CollectBIOSInfo m) of
        ((model, vendor, cores), (pretty, version), Some bios) \<Rightarrow>
          (let snap = live_snapshot b; proc = (\<lambda>f. trim_space (readFirstFile m [f]))
           in Some \<lparr>si_Hostname = proc ''/proc/sys/kernel/hostname'', si_OSRelease = pretty, si_OSVersion = version,
                si_Kernel = proc ''/proc/sys/kernel/osrelease'', si_Date = date, si_Uptime = proc ''/proc/uptime'',
                si_UnyportVersion = Version, si_CPUModel = model, si_CPUVendor = vendor, si_CPUCores = cores,
                si_BoardName = dmi_file m ''board_name'', si_BoardVendor = dmi_file m ''board_vendor'',
                si_BoardVersion = CollectBoardVersion m, si_BIOS = bios, si_GPUs = CollectGPUs m, si_APK = CollectAPKSummary m,
                si_Modules = CollectModulesSummary m, si_HostRole = role, si_XenRole = xen_role_name role,
                si_NetIface = NetIface snap, si_NetIP = NetIP snap, si_CPUUsage = CPUUsage snap, si_CPUPerCore = CPUPerCore snap,
                si_CPUFreqAvg = CPUFreqAvg snap, si_CPUFreqMax = CPUFreqMax snap, si_CPUFreqCore = CPUFreqCore snap,
                si_CPUYMin = CPUYMin snap, si_CPUYMax = CPUYMax snap, si_CPUFreqYMin = CPUFreqYMin snap,
                si_CPUFreqYMax = CPUFreqYMax snap, si_MemYMin = MemYMin snap, si_MemYMax = MemYMax snap,
                si_CPUPeakCores = CPUPeakCores snap, si_MemTotalMB = MemTotal snap, si_MemUsedMB = MemUsed snap,
                si_MemCachedMB = MemCached snap, si_MemFreeMB = MemFree snap, si_MemStackUsed = MemStackUsed snap,
                si_MemStackCached = MemStackCached snap, si_MemStackFree = MemStackFree snap, si_MemUsedPct = MemUsedPct snap,
                si_MemCachedPct = MemCachedPct snap, si_LBU = snap_LBU snap, si_XenInfo = snap_XenInfo snap,
                si_XenDomains = XenDomains snap\<rparr>)
      | _ \<Rightarrow> None)"

section \<open>Facts\<close>

text \<open>The values are those of the last published snapshot, and the only way to get no answer is the firmware date.\<close>

lemma system_info_live:
  "SystemInfoHandler m date role (fold push (ss @ [s]) empty_ring) = Some i \<Longrightarrow>
     si_CPUUsage i = CPUUsage s \<and> si_MemUsedMB i = MemUsed s \<and> si_NetIface i = NetIface s \<and> si_XenDomains i = XenDomains s"
  using last_published [of "ss @ [s]"]
  by (auto simp: SystemInfoHandler_def live_snapshot_def Let_def split: prod.splits option.splits)

lemma system_info_panics: "SystemInfoHandler m date role b = None \<longleftrightarrow> CollectBIOSInfo m = None"
  by (auto simp: SystemInfoHandler_def Let_def split: prod.splits option.splits)

end
