(* ===== verification/VersionCheck.thy ===== *)
theory VersionCheck
  imports HostRole PublicVersion "HOL-Library.Monad_Syntax"
begin

text \<open>
  The check for new versions (\<open>VersionsHandler\<close> and \<open>fetchLatestRepoVersions\<close> in \<open>sse/broker.go\<close>). The answer of the
  tag server is an input; the two regular expressions are matchers over the same language.
\<close>

section \<open>Versions in tags\<close>

definition number :: "string \<Rightarrow> (string \<times> string) option" where
  "number s = (let d = takeWhile is_digit_byte s in if d = [] then None else Some (d, drop (length d) s))"

definition literal :: "string \<Rightarrow> string \<Rightarrow> string option" where
  "literal p s = (if has_prefix s p then Some (drop (length p) s) else None)"

text \<open>\<open>\d+\.\d+\.\d+\<close>, with the rest.\<close>

definition dotted3 :: "string \<Rightarrow> (string \<times> string) option" where
  "dotted3 s = do {
     (a, r) \<leftarrow> number s;
     r \<leftarrow> literal ''.'' r;
     (b, r) \<leftarrow> number r;
     r \<leftarrow> literal ''.'' r;
     (c, r) \<leftarrow> number r;
     Some (a @ ''.'' @ b @ ''.'' @ c, r)
   }"

definition kernel_tag :: "string \<Rightarrow> string \<Rightarrow> string option" where
  "kernel_tag slug name = do {
     r \<leftarrow> literal (''kernel-'' @ slug @ ''-'') name;
     (v, r) \<leftarrow> dotted3 r;
     r \<leftarrow> literal ''-'' r;
     (_, r) \<leftarrow> number r;
     r \<leftarrow> literal ''-lts'' r;
     if r = [] then Some v else None
   }"

definition alpine_tag :: "string \<Rightarrow> string \<Rightarrow> string option" where
  "alpine_tag slug name = do {
     r \<leftarrow> literal (''alpine-'' @ slug @ ''-'') name;
     (v, r) \<leftarrow> dotted3 r;
     if r = [] then Some v else None
   }"

text \<open>\<open>compareDotVersions\<close> of the package \<open>sse\<close>, which compares all parts.\<close>

definition sse_compareDotVersions :: "string \<Rightarrow> string \<Rightarrow> int" where
  "sse_compareDotVersions a b =
     (if a = b then 0
      else if b = [] then 1
      else
        let pa = split_on CHR ''.'' a; pb = split_on CHR ''.'' b
        in compare_from 0 (if length pa < length pb then length pb else length pa) pa pb)"

definition better_version :: "(string \<Rightarrow> string option) \<Rightarrow> string \<Rightarrow> string \<Rightarrow> string" where
  "better_version match tag best =
     (case match (trim_space tag) of
        None \<Rightarrow> best
      | Some v \<Rightarrow> if 0 < sse_compareDotVersions v best then v else best)"

definition highestVersionFromTagNames :: "string list \<Rightarrow> (string \<Rightarrow> string option) \<Rightarrow> string" where
  "highestVersionFromTagNames tags match = fold (better_version match) tags []"

section \<open>The check and its cache\<close>

text \<open>No answer, or a status and the names of the decoded tags (\<open>None\<close>: decoding failed).\<close>

datatype tags_reply = NoTags | Tags nat "string list option"

definition fetchLatestRepoVersions :: "tags_reply \<Rightarrow> string \<Rightarrow> (string \<times> string) option" where
  "fetchLatestRepoVersions reply slug =
     (case reply of
        NoTags \<Rightarrow> None
      | Tags code body \<Rightarrow>
          if code < 200 \<or> 300 \<le> code then None
          else map_option
            (\<lambda>tags. let names = filter (\<lambda>n. trim_space n \<noteq> []) tags;
                        k = highestVersionFromTagNames names (kernel_tag slug)
                    in (if k = [] then k else k @ ''-lts'', highestVersionFromTagNames names (alpine_tag slug)))
            body)"

definition role_slug :: "host_role \<Rightarrow> string" where
  "role_slug role =
     (if Virtualization role = ''xen'' \<and> VirtualizationRole role = ''domu'' then ''domU''
      else if Environment role = ''vm'' then ''domU''
      else ''dom0'')"

definition check_interval :: int where
  "check_interval = 60 * 60 * 1000000000"

definition cache_fresh :: "int \<Rightarrow> versions_cache \<Rightarrow> bool" where
  "cache_fresh now c = (case versionsChecked c of None \<Rightarrow> False | Some t \<Rightarrow> now - t < check_interval)"

definition check_versions :: "int \<Rightarrow> host_role \<Rightarrow> tags_reply \<Rightarrow> versions_cache \<Rightarrow> versions_cache" where
  "check_versions now role reply c =
     (if cache_fresh now c then c
      else case fetchLatestRepoVersions reply (role_slug role) of
        None \<Rightarrow> c\<lparr>versionsChecked := Some now\<rparr>
      | Some (k, a) \<Rightarrow> \<lparr>versionsKernel = k, versionsAlpine = a, versionsChecked = Some now\<rparr>)"

text \<open>The warning of a check that fails.\<close>

definition version_warnings :: "int \<Rightarrow> host_role \<Rightarrow> tags_reply \<Rightarrow> versions_cache \<Rightarrow> string list" where
  "version_warnings now role reply c =
     (if cache_fresh now c then []
      else case fetchLatestRepoVersions reply (role_slug role) of
        None \<Rightarrow> [''version check unavailable'']
      | Some _ \<Rightarrow> [])"

definition VersionsHandler ::
  "int \<Rightarrow> host_role \<Rightarrow> tags_reply \<Rightarrow> request \<Rightarrow> versions_cache \<Rightarrow> response \<times> versions_cache" where
  "VersionsHandler now role reply r c =
     (let c' = check_versions now role reply c
      in (with_header ''Cache-Control'' ''public, max-age=3600''
            (json_response 200
               (JObj [(''kernel_lts'', JStr (trim_space (versionsKernel c'))), (''alpine'', JStr (trim_space (versionsAlpine c'))),
                      (''role'', JStr (role_slug role)),
                      (''available'', JBool (versionsKernel c' \<noteq> [] \<or> versionsAlpine c' \<noteq> []))])), c'))"

section \<open>The order of versions\<close>

text \<open>The parts of a version, padded with zeros to \<open>n\<close>.\<close>

definition parts :: "nat \<Rightarrow> string \<Rightarrow> int list" where
  "parts n v = map (part_value (split_on CHR ''.'' v)) [0..<n]"

lemma length_parts [simp]: "length (parts n v) = n"
  by (simp add: parts_def)

lemma compare_from_lex: "compare_from i n as bs = lex_sign (map (part_value as) [i..<i + n]) (map (part_value bs) [i..<i + n])"
proof (induction i n as bs rule: compare_from.induct)
  case (2 i n as bs)
  have "[i..<i + Suc n] = i # [Suc i..<Suc i + n]" by (simp add: upt_conv_Cons)
  with 2 show ?case by simp
qed simp

lemma lex_sign_append: "length xs = length ys \<Longrightarrow> lex_sign (xs @ zs) (ys @ zs) = lex_sign xs ys"
proof (induction xs ys rule: list_induct2)
  case Nil
  show ?case by (induction zs) auto
qed auto

lemma parts_pad:
  assumes "length (split_on CHR ''.'' v) \<le> n" and "n \<le> N"
  shows "parts N v = parts n v @ replicate (N - n) 0"
proof -
  have "[0..<N] = [0..<n] @ [n..<N]" using assms(2) by (metis le_add_diff_inverse upt_add_eq_append zero_le)
  moreover have "map (part_value (split_on CHR ''.'' v)) [n..<N] = replicate (N - n) 0"
    using assms by (intro nth_equalityI) (auto simp: part_value_def)
  ultimately show ?thesis by (simp add: parts_def)
qed

lemma sse_compare_parts:
  assumes "b \<noteq> []" and "length (split_on CHR ''.'' a) \<le> N" and "length (split_on CHR ''.'' b) \<le> N"
  shows "sse_compareDotVersions a b = lex_sign (parts N a) (parts N b)"
proof (cases "a = b")
  case True
  have "lex_sign xs xs = 0" for xs by (induction xs) auto
  with True show ?thesis by (simp add: sse_compareDotVersions_def)
next
  case False
  define n where "n = max (length (split_on CHR ''.'' a)) (length (split_on CHR ''.'' b))"
  have "sse_compareDotVersions a b = lex_sign (parts n a) (parts n b)"
    using False assms(1) by (simp add: sse_compareDotVersions_def compare_from_lex parts_def n_def max_def not_less Let_def)
  also have "\<dots> = lex_sign (parts N a) (parts N b)"
    using assms parts_pad [of a n N] parts_pad [of b n N] by (simp add: n_def lex_sign_append)
  finally show ?thesis .
qed

lemma sse_compare_trans:
  assumes "0 \<le> sse_compareDotVersions a b" and "0 \<le> sse_compareDotVersions b c" and "b \<noteq> []" and "c \<noteq> []"
  shows "0 \<le> sse_compareDotVersions a c"
proof -
  define N where "N = max (length (split_on CHR ''.'' a)) (max (length (split_on CHR ''.'' b)) (length (split_on CHR ''.'' c)))"
  have e: "sse_compareDotVersions a b = lex_sign (parts N a) (parts N b)"
    "sse_compareDotVersions b c = lex_sign (parts N b) (parts N c)"
    "sse_compareDotVersions a c = lex_sign (parts N a) (parts N c)"
    using assms(3,4) by (auto simp: N_def intro!: sse_compare_parts)
  show ?thesis using assms(1,2) lex_sign_trans [of "parts N a" "parts N b" "parts N c"] unfolding e by simp
qed

lemma sse_compare_antisym:
  assumes "a \<noteq> []" and "b \<noteq> []"
  shows "sse_compareDotVersions a b = - sse_compareDotVersions b a"
proof -
  define N where "N = max (length (split_on CHR ''.'' a)) (length (split_on CHR ''.'' b))"
  have "sse_compareDotVersions a b = lex_sign (parts N a) (parts N b)"
    by (rule sse_compare_parts [OF assms(2)]) (simp_all add: N_def)
  moreover have "sse_compareDotVersions b a = lex_sign (parts N b) (parts N a)"
    by (rule sse_compare_parts [OF assms(1)]) (simp_all add: N_def)
  ultimately show ?thesis using lex_sign_antisym [of "parts N a" "parts N b"] by linarith
qed

text \<open>The fold keeps a version no earlier one exceeds.\<close>

definition matched :: "(string \<Rightarrow> string option) \<Rightarrow> string list \<Rightarrow> string set" where
  "matched match tags = {v. \<exists>t \<in> set tags. match (trim_space t) = Some v}"

lemma highest_invariant:
  assumes "[] \<notin> matched match tags"
  shows "(let best = highestVersionFromTagNames tags match in
     (best = [] \<and> matched match tags = {} \<or> best \<in> matched match tags) \<and>
     (\<forall>v \<in> matched match tags. 0 \<le> sse_compareDotVersions best v))"
  using assms
proof (induction tags rule: rev_induct)
  case (snoc t tags)
  let ?b = "highestVersionFromTagNames tags match"
  have m: "matched match (tags @ [t]) = matched match tags \<union> set_option (match (trim_space t))"
    by (auto simp: matched_def)
  have ih: "?b = [] \<and> matched match tags = {} \<or> ?b \<in> matched match tags"
    "\<forall>v \<in> matched match tags. 0 \<le> sse_compareDotVersions ?b v"
    using snoc m by (auto simp: Let_def)
  show ?case
  proof (cases "match (trim_space t)")
    case None
    then have "highestVersionFromTagNames (tags @ [t]) match = ?b"
      by (simp add: highestVersionFromTagNames_def better_version_def)
    with ih m None show ?thesis by (simp add: Let_def)
  next
    case (Some v)
    then have v: "v \<noteq> []" using snoc.prems by (auto simp: m)
    have e: "highestVersionFromTagNames (tags @ [t]) match = (if 0 < sse_compareDotVersions v ?b then v else ?b)"
      using Some by (simp add: highestVersionFromTagNames_def better_version_def)
    have r: "sse_compareDotVersions v v = 0" by (simp add: sse_compareDotVersions_def)
    show ?thesis
    proof (cases "0 < sse_compareDotVersions v ?b")
      case True
      have "0 \<le> sse_compareDotVersions v w" if w: "w \<in> matched match tags" for w
      proof -
        have "w \<noteq> []" "?b \<noteq> []" using w ih(1) snoc.prems by (auto simp: m)
        then show ?thesis using sse_compare_trans [of v ?b w] True ih(2) w by simp
      qed
      then show ?thesis using True Some r m by (simp add: e Let_def)
    next
      case False
      then have b: "?b \<noteq> []" using v by (auto simp: sse_compareDotVersions_def split: if_splits)
      then have "0 \<le> sse_compareDotVersions ?b v" using False sse_compare_antisym [OF v b] by simp
      then show ?thesis using False Some ih b m by (auto simp: e Let_def)
    qed
  qed
qed (simp add: matched_def highestVersionFromTagNames_def)

lemma dotted3_nonempty: "dotted3 s = Some (v, r) \<Longrightarrow> v \<noteq> []"
  by (auto simp: dotted3_def bind_eq_Some_conv)

lemma tags_nonempty: "[] \<notin> matched (kernel_tag slug) tags" "[] \<notin> matched (alpine_tag slug) tags"
  by (auto simp: matched_def kernel_tag_def alpine_tag_def bind_eq_Some_conv dest!: dotted3_nonempty split: if_splits)

section \<open>Properties\<close>

text \<open>
  The version that is offered is the highest of the tags: it is the version of one of the tags for this role, or empty when there is none, and no tag
  for this role has a version that compares higher, whatever the order of the tags; the same holds for the tags of the system.
\<close>

theorem highest_version_maximal:
  "let best = highestVersionFromTagNames tags (kernel_tag slug); os = highestVersionFromTagNames tags (alpine_tag slug) in
     (if best = [] then list_all (\<lambda>t. kernel_tag slug (trim_space t) = None) tags
      else list_ex (\<lambda>t. kernel_tag slug (trim_space t) = Some best) tags) \<and>
     list_all (\<lambda>t. case kernel_tag slug (trim_space t) of None \<Rightarrow> True | Some v \<Rightarrow> 0 \<le> sse_compareDotVersions best v) tags \<and>
     list_all (\<lambda>t. case alpine_tag slug (trim_space t) of None \<Rightarrow> True | Some v \<Rightarrow> 0 \<le> sse_compareDotVersions os v) tags"
proof -
  have k: "(highestVersionFromTagNames tags (kernel_tag slug) = [] \<and> matched (kernel_tag slug) tags = {} \<or>
      highestVersionFromTagNames tags (kernel_tag slug) \<in> matched (kernel_tag slug) tags) \<and>
    (\<forall>v \<in> matched (kernel_tag slug) tags. 0 \<le> sse_compareDotVersions (highestVersionFromTagNames tags (kernel_tag slug)) v)"
    using highest_invariant [OF tags_nonempty(1) [of slug tags]] unfolding Let_def .
  have a: "\<forall>v \<in> matched (alpine_tag slug) tags. 0 \<le> sse_compareDotVersions (highestVersionFromTagNames tags (alpine_tag slug)) v"
    using highest_invariant [OF tags_nonempty(2) [of slug tags]] unfolding Let_def by blast
  have ka: "list_all (\<lambda>t. case m (trim_space t) of None \<Rightarrow> True | Some v \<Rightarrow> 0 \<le> sse_compareDotVersions b v) tags"
    if "\<forall>v \<in> matched m tags. 0 \<le> sse_compareDotVersions b v" for m b
    using that by (auto simp: list_all_iff matched_def split: option.split)
  have "if highestVersionFromTagNames tags (kernel_tag slug) = [] then list_all (\<lambda>t. kernel_tag slug (trim_space t) = None) tags
      else list_ex (\<lambda>t. kernel_tag slug (trim_space t) = Some (highestVersionFromTagNames tags (kernel_tag slug))) tags"
  proof (cases "highestVersionFromTagNames tags (kernel_tag slug) = []")
    case True
    then have "matched (kernel_tag slug) tags = {}" using k tags_nonempty(1) [of slug tags] by auto
    then have "kernel_tag slug (trim_space t) = None" if "t \<in> set tags" for t
      using that unfolding matched_def by (cases "kernel_tag slug (trim_space t)") blast+
    with True show ?thesis by (simp add: list_all_iff)
  next
    case False
    then have "highestVersionFromTagNames tags (kernel_tag slug) \<in> matched (kernel_tag slug) tags" using k by blast
    with False show ?thesis by (auto simp: list_ex_iff matched_def)
  qed
  then show ?thesis using ka [OF conjunct2 [OF k]] ka [OF a] unfolding Let_def by blast
qed

text \<open>What a sequence of requests, each with its time and the answer that a check would get, asks the tag server.\<close>

fun version_requests :: "host_role \<Rightarrow> (int \<times> tags_reply) list \<Rightarrow> versions_cache \<Rightarrow> nat \<times> versions_cache" where
  "version_requests role [] c = (0, c)"
| "version_requests role ((now, reply) # rs) c =
     (case version_requests role rs (check_versions now role reply c) of
        (n, c') \<Rightarrow> (if cache_fresh now c then n else Suc n, c'))"

lemma checked_no_requests:
  "versionsChecked c = Some t \<Longrightarrow> list_all (\<lambda>(now, _). now - t < check_interval) rs \<Longrightarrow> version_requests role rs c = (0, c)"
  by (induction rs) (auto simp: cache_fresh_def check_versions_def)

lemma check_versions_checked: "\<not> cache_fresh now c \<Longrightarrow> versionsChecked (check_versions now role reply c) = Some now"
  by (auto simp: check_versions_def split: option.splits)

text \<open>
  The tag server is asked at most once an hour, whether it answers or not: among requests within an hour of the first at most one asks it, and the
  answers that are offered after a failed check are those of the last successful one.
\<close>

theorem version_check_hourly:
  assumes "list_all (\<lambda>(now, _). now0 \<le> now \<and> now < now0 + check_interval) rs" and "sorted (map fst rs)"
  shows "fst (version_requests role rs c) \<le> 1 \<and>
    versionsKernel (check_versions now role NoTags c) = versionsKernel c \<and>
    versionsAlpine (check_versions now role NoTags c) = versionsAlpine c"
proof -
  have "fst (version_requests role rs c) \<le> 1" using assms
  proof (induction rs)
    case (Cons x rs)
    obtain now' reply where x: "x = (now', reply)" by fastforce
    show ?case
    proof (cases "cache_fresh now' c")
      case True
      then have "check_versions now' role reply c = c" by (simp add: check_versions_def)
      then show ?thesis using Cons x True by (simp split: prod.splits)
    next
      case False
      have "now - now' < check_interval" if "(now, rp) \<in> set rs" for now rp
        using Cons.prems(1) that x by (fastforce simp: list_all_iff)
      then have "list_all (\<lambda>(now, _). now - now' < check_interval) rs" by (auto simp: list_all_iff)
      from checked_no_requests [OF check_versions_checked [OF False] this] show ?thesis using False x by simp
    qed
  qed simp
  moreover have "versionsKernel (check_versions now role NoTags c) = versionsKernel c"
    "versionsAlpine (check_versions now role NoTags c) = versionsAlpine c"
    by (simp_all add: check_versions_def fetchLatestRepoVersions_def)
  ultimately show ?thesis by blast
qed

theorem version_check_hourly_witness:
  "fst (version_requests alpineBaremetalRole [(5, NoTags), (9, Tags 200 None)] empty_versions) \<le> 1"
  using version_check_hourly [of 0 "[(5, NoTags), (9, Tags 200 None)]" alpineBaremetalRole empty_versions 0]
  by (simp add: check_interval_def)

end
