(* ===== verification/StartupHistory.thy ===== *)
theory StartupHistory
  imports CpuMetrics
begin

text \<open>
  The history of starts: the file \<open>startup-history.jsonl\<close> that \<open>cmd/unyport/main.go\<close> appends to. Encoding and decoding one line of
  JSON and formatting a time are parameters; a file is its bytes, \<open>None\<close> when it cannot be opened.
\<close>

section \<open>Lines\<close>

text \<open>
  \<open>bufio.Scanner\<close> over the lines of a file: the lines, without a final carriage return, up to the first that does not fit into the buffer of
  65536 bytes with its line break, and whether there was none such.
\<close>

definition drop_cr :: "string \<Rightarrow> string" where
  "drop_cr l = (if l \<noteq> [] \<and> last l = CHR 0x0D then butlast l else l)"

definition scan_lines :: "string \<Rightarrow> string list \<times> bool" where
  "scan_lines s =
     (let ls = split_on CHR 0x0A s;
          ls = (if last ls = [] then butlast ls else ls);
          fit = takeWhile (\<lambda>l. int (length l) \<le> 65535) ls
      in (map drop_cr fit, length fit = length ls))"

section \<open>Recording a start\<close>

record startup_event =
  ev_timestamp :: string
  ev_event :: string
  ev_theme :: string
  BootID :: string
  RebootedAt :: string

text \<open>The library the recorder uses.\<close>

record history_env =
  encode_event :: "startup_event \<Rightarrow> string"            \<comment> \<open>\<open>json.Encoder.Encode\<close>, without the final line break\<close>
  decode_event :: "string \<Rightarrow> startup_event option"     \<comment> \<open>\<open>json.Unmarshal\<close>\<close>
  format_time :: "int \<Rightarrow> string"                       \<comment> \<open>UTC, \<open>time.RFC3339Nano\<close>, from nanoseconds\<close>
  parse_float :: "string \<Rightarrow> rat option"

definition readFirstLine :: "machine \<Rightarrow> string \<Rightarrow> string" where
  "readFirstLine m p = (case m_read m p of None \<Rightarrow> [] | Some d \<Rightarrow> trim_space d)"

definition estimateLastBootRFC3339 :: "history_env \<Rightarrow> machine \<Rightarrow> int \<Rightarrow> string" where
  "estimateLastBootRFC3339 e m now =
     (case m_read m ''/proc/uptime'' of
        None \<Rightarrow> []
      | Some d \<Rightarrow>
          (case GoPrelude.fields d of
             [] \<Rightarrow> []
           | f # _ \<Rightarrow>
               (case parse_float e f of
                  None \<Rightarrow> []
                | Some secs \<Rightarrow> if secs < 0 then [] else format_time e (now - trunc (secs * 1000000000)))))"

definition same_boot :: "history_env \<Rightarrow> string \<Rightarrow> string \<Rightarrow> string \<Rightarrow> bool" where
  "same_boot e bootID rebootedAt l =
     (let line = trim_space l
      in line \<noteq> [] \<and>
         (case decode_event e line of
            None \<Rightarrow> False
          | Some rec \<Rightarrow> bootID \<noteq> [] \<and> BootID rec = bootID \<or> rebootedAt \<noteq> [] \<and> RebootedAt rec = rebootedAt))"

definition startupHistoryContains :: "history_env \<Rightarrow> string option \<Rightarrow> string \<Rightarrow> string \<Rightarrow> bool" where
  "startupHistoryContains e file bootID rebootedAt =
     (case file of
        None \<Rightarrow> False
      | Some d \<Rightarrow> list_ex (same_boot e bootID rebootedAt) (fst (scan_lines d)))"

text \<open>
  \<open>writable\<close>: whether the directory can be made and the file opened for appending; \<open>written\<close>: how much of the line the write puts
  into the file, all of it when \<open>None\<close>.
\<close>

definition recordStartupEvent ::
  "history_env \<Rightarrow> machine \<Rightarrow> int \<Rightarrow> string \<Rightarrow> bool \<Rightarrow> nat option \<Rightarrow> string option \<Rightarrow> string option" where
  "recordStartupEvent e m now theme writable written file =
     (let bootID = trim_space (readFirstLine m ''/proc/sys/kernel/random/boot_id'');
          rebootedAt = estimateLastBootRFC3339 e m now
      in if startupHistoryContains e file bootID rebootedAt then file
         else if \<not> writable then file
         else
           let line = encode_event e \<lparr>ev_timestamp = format_time e now, ev_event = ''startup'', ev_theme = theme,
                        BootID = bootID, RebootedAt = rebootedAt\<rparr> @ [CHR 0x0A]
           in Some ((case file of None \<Rightarrow> [] | Some d \<Rightarrow> d) @ (case written of None \<Rightarrow> line | Some n \<Rightarrow> take n line)))"

section \<open>Facts about lines\<close>

lemma scan_lines_append:
  assumes "d = [] \<or> last d = CHR 0x0A" and "snd (scan_lines d)" and "CHR 0x0A \<notin> set l" and "int (length l) \<le> 65535" and "l \<noteq> []"
  shows "fst (scan_lines (d @ l @ [CHR 0x0A])) = fst (scan_lines d) @ [drop_cr l] \<and> snd (scan_lines (d @ l @ [CHR 0x0A]))"
proof -
  have takeWhile_all: "takeWhile P xs = xs" if "length (takeWhile P xs) = length xs" for P and xs :: "string list"
    using that by (metis takeWhile_eq_take take_all order_refl)
  define raw where "raw s = (let ls = split_on CHR 0x0A s in if last ls = [] then butlast ls else ls)" for s
  have sl: "scan_lines s = (map drop_cr (takeWhile (\<lambda>l. int (length l) \<le> 65535) (raw s)),
      length (takeWhile (\<lambda>l. int (length l) \<le> 65535) (raw s)) = length (raw s))" for s
    by (simp add: scan_lines_def raw_def Let_def)
  have one: "split_on CHR 0x0A (l @ [CHR 0x0A]) = [l, []]" using split_on_append [OF assms(3), of "[]"] by simp
  have r: "raw (d @ l @ [CHR 0x0A]) = raw d @ [l]"
  proof (cases "d = []")
    case True
    then show ?thesis using one by (simp add: raw_def)
  next
    case False
    then obtain d' where d: "d = d' @ [CHR 0x0A]" using assms(1) by (cases d rule: rev_cases) auto
    have "raw d = split_on CHR 0x0A d'" using split_on_append_break [of "CHR 0x0A" d' "[]"] by (simp add: d raw_def)
    moreover have "split_on CHR 0x0A (d @ l @ [CHR 0x0A]) = split_on CHR 0x0A d' @ [l, []]"
      using split_on_append_break [of "CHR 0x0A" d' "l @ [CHR 0x0A]"] one by (simp add: d)
    ultimately show ?thesis by (simp add: raw_def butlast_append)
  qed
  have fits: "takeWhile (\<lambda>l. int (length l) \<le> 65535) (raw d) = raw d"
    using assms(2) takeWhile_all [of _ "raw d"] unfolding sl by simp
  have "takeWhile (\<lambda>l. int (length l) \<le> 65535) (raw d @ [l]) = raw d @ [l]"
    using assms(4) fits by (simp add: takeWhile_eq_all_conv takeWhile_append)
  then show ?thesis unfolding sl r fits by simp
qed

section \<open>Properties\<close>

text \<open>What the recorder relies on: an encoded event is one line, and decoding it gives back a plain boot number.\<close>

definition history_env_ok :: "history_env \<Rightarrow> bool" where
  "history_env_ok e \<longleftrightarrow>
     (\<forall>ev. CHR 0x0A \<notin> set (encode_event e ev) \<and> encode_event e ev \<noteq> [] \<and> trim_space (encode_event e ev) = encode_event e ev \<and>
        drop_cr (encode_event e ev) = encode_event e ev \<and>
        (graphic (BootID ev) \<longrightarrow> map_option BootID (decode_event e (encode_event e ev)) = Some (BootID ev)))"

text \<open>The file a start appends to: whole lines, none of them too long for the scanner.\<close>

definition sound_history :: "string option \<Rightarrow> bool" where
  "sound_history f \<longleftrightarrow> (case f of None \<Rightarrow> True | Some d \<Rightarrow> (d = [] \<or> last d = CHR 0x0A) \<and> snd (scan_lines d))"

definition old_text :: "string option \<Rightarrow> string" where
  "old_text f = (case f of None \<Rightarrow> [] | Some d \<Rightarrow> d)"

text \<open>A start: the machine, the time, the theme, and what the file system allows.\<close>

definition start_again ::
  "history_env \<Rightarrow> string option \<Rightarrow> machine \<times> int \<times> string \<times> bool \<times> nat option \<Rightarrow> string option" where
  "start_again e f st = (case st of (m, now, theme, wr, wn) \<Rightarrow> recordStartupEvent e m now theme wr wn f)"

definition machine_boot :: "machine \<Rightarrow> string" where
  "machine_boot m = trim_space (readFirstLine m ''/proc/sys/kernel/random/boot_id'')"

definition start_line :: "history_env \<Rightarrow> machine \<Rightarrow> int \<Rightarrow> string \<Rightarrow> string" where
  "start_line e m now theme =
     encode_event e \<lparr>ev_timestamp = format_time e now, ev_event = ''startup'', ev_theme = theme, BootID = machine_boot m,
       RebootedAt = estimateLastBootRFC3339 e m now\<rparr>"

lemma contains_old:
  "\<not> startupHistoryContains e f boot reb \<Longrightarrow> filter (same_boot e boot []) (fst (scan_lines (old_text f))) = []"
  by (cases f)
    (auto simp: startupHistoryContains_def old_text_def scan_lines_def list_ex_iff filter_empty_conv same_boot_def Let_def
      split: option.splits)

text \<open>
  C39. A start of the server is recorded once per boot. The first start whose line is written keeps what the file held, or makes the file, and
  appends one line: the encoded event of this start. That is the only line of this boot, and no sequence of later starts in the same boot, whatever
  their times, themes and file system errors, changes the file.
\<close>

theorem start_recorded_once:
  assumes "history_env_ok e" and "graphic (machine_boot m)" and "machine_boot m \<noteq> []"
    and "\<not> startupHistoryContains e f (machine_boot m) (estimateLastBootRFC3339 e m now)"
    and "sound_history f" and "int (length (start_line e m now theme)) \<le> 65535"
    and "list_all (\<lambda>st. machine_boot (fst st) = machine_boot m) later"
  shows "recordStartupEvent e m now theme True None f = Some (old_text f @ start_line e m now theme @ [CHR 0x0A]) \<and>
    filter (same_boot e (machine_boot m) []) (fst (scan_lines (old_text f @ start_line e m now theme @ [CHR 0x0A]))) =
      [start_line e m now theme] \<and>
    foldl (start_again e) (Some (old_text f @ start_line e m now theme @ [CHR 0x0A])) later =
      Some (old_text f @ start_line e m now theme @ [CHR 0x0A])"
proof -
  let ?b = "machine_boot m" and ?l = "start_line e m now theme"
  let ?d = "old_text f @ ?l @ [CHR 0x0A]"
  have l: "CHR 0x0A \<notin> set ?l" "?l \<noteq> []" "trim_space ?l = ?l" "drop_cr ?l = ?l"
    "map_option BootID (decode_event e ?l) = Some ?b"
    using spec [OF assms(1) [unfolded history_env_ok_def], of "\<lparr>ev_timestamp = format_time e now, ev_event = ''startup'',
        ev_theme = theme, BootID = ?b, RebootedAt = estimateLastBootRFC3339 e m now\<rparr>"] assms(2)
    by (simp_all add: start_line_def)
  have "old_text f = [] \<or> last (old_text f) = CHR 0x0A" "snd (scan_lines (old_text f))"
    using assms(5) by (auto simp: sound_history_def old_text_def scan_lines_def split: option.splits)
  from scan_lines_append [OF this l(1) assms(6) l(2)] l(4)
  have sc: "fst (scan_lines ?d) = fst (scan_lines (old_text f)) @ [?l]" by simp
  have own: "same_boot e ?b reb ?l" for reb
    using l(2,3,5) assms(3) by (auto simp: same_boot_def split: option.splits)
  have c: "startupHistoryContains e (Some ?d) ?b reb" for reb
    using sc own by (simp add: startupHistoryContains_def)
  have "recordStartupEvent e m now theme True None f = Some ?d"
    using assms(4) by (simp add: recordStartupEvent_def machine_boot_def start_line_def old_text_def Let_def)
  moreover have "filter (same_boot e ?b []) (fst (scan_lines ?d)) = [?l]"
    using contains_old [OF assms(4)] sc own by simp
  moreover have "foldl (start_again e) (Some ?d) later = Some ?d"
    using assms(7)
  proof (induction later)
    case (Cons st later)
    then have "start_again e (Some ?d) st = Some ?d"
      using c by (cases st) (simp add: start_again_def recordStartupEvent_def machine_boot_def Let_def)
    with Cons show ?case by simp
  qed simp
  ultimately show ?thesis by blast
qed

text \<open>An encoding of the boot number alone, in brackets.\<close>

definition demo_history :: history_env where
  "demo_history = \<lparr>encode_event = \<lambda>ev. ''<'' @ filter (\<lambda>c. 32 < byte c \<and> byte c < 128) (BootID ev) @ ''>'',
     decode_event = \<lambda>l. Some \<lparr>ev_timestamp = [], ev_event = ''startup'', ev_theme = [], BootID = butlast (tl l), RebootedAt = []\<rparr>,
     format_time = \<lambda>_. [], parse_float = \<lambda>_. None\<rparr>"

lemma demo_history_ok: "history_env_ok demo_history"
proof -
  have t: "trim_space s = s" if "\<forall>c \<in> set s. 32 < byte c \<and> byte c < 128" for s using trim_space_graphic that by blast
  have f: "filter (\<lambda>c. 32 < byte c \<and> byte c < (128 :: nat)) b = b" if "graphic b" for b
    using that by (auto simp: graphic_def filter_id_conv list_all_iff)
  show ?thesis unfolding history_env_ok_def
  proof (intro allI conjI impI)
    fix ev :: startup_event
    let ?l = "encode_event demo_history ev"
    have g: "\<forall>c \<in> set ?l. 32 < byte c \<and> byte c < 128" by (auto simp: demo_history_def)
    show "CHR 0x0A \<notin> set ?l" using g by (auto dest: bspec)
    show "?l \<noteq> []" by (simp add: demo_history_def)
    show "trim_space ?l = ?l" by (rule t [OF g])
    show "drop_cr ?l = ?l" by (simp add: drop_cr_def demo_history_def)
    assume "graphic (BootID ev)"
    from f [OF this] show "map_option BootID (decode_event demo_history ?l) = Some (BootID ev)"
      by (simp add: demo_history_def butlast_append)
  qed
qed

definition booted :: "string \<Rightarrow> machine" where
  "booted b = bare_machine\<lparr>m_read := [''/proc/sys/kernel/random/boot_id'' \<mapsto> b]\<rparr>"

theorem start_recorded_once_witness:
  "recordStartupEvent demo_history (booted ''b7'') 5 ''dark'' True None (Some (''<b6>'' @ [CHR 0x0A])) =
     Some (''<b6>'' @ [CHR 0x0A] @ ''<b7>'' @ [CHR 0x0A]) \<and>
   foldl (start_again demo_history) (Some (''<b6>'' @ [CHR 0x0A] @ ''<b7>'' @ [CHR 0x0A]))
     [(booted ''b7'', 6, ''light'', True, None), (booted ''b7'', 7, ''light'', False, None)] =
     Some (''<b6>'' @ [CHR 0x0A] @ ''<b7>'' @ [CHR 0x0A])"
proof -
  let ?f = "Some (''<b6>'' @ [CHR 0x0A])"
  have b: "machine_boot (booted ''b7'') = ''b7''" "graphic ''b7''" by code_simp+
  have n: "\<not> startupHistoryContains demo_history ?f ''b7'' (estimateLastBootRFC3339 demo_history (booted ''b7'') 5)"
    by code_simp
  have s: "sound_history ?f" by code_simp
  have l: "start_line demo_history (booted ''b7'') 5 ''dark'' = ''<b7>''" by code_simp
  have g: "graphic (machine_boot (booted ''b7''))" "machine_boot (booted ''b7'') \<noteq> []" using b by simp_all
  have n': "\<not> startupHistoryContains demo_history ?f (machine_boot (booted ''b7''))
      (estimateLastBootRFC3339 demo_history (booted ''b7'') 5)"
    using n b by simp
  show ?thesis
    using start_recorded_once [OF demo_history_ok g n' s, of "''dark''"
        "[(booted ''b7'', 6, ''light'', True, None), (booted ''b7'', 7, ''light'', False, None)]"] l
    by (simp add: old_text_def)
qed

end
