(* ===== verification/Reboots.thy ===== *)
theory Reboots
  imports StartupHistory Http
begin

text \<open>
  The heat map of reboots (\<open>RebootsHandler\<close> in \<open>sse/broker.go\<close>): the starts of the history, or of the log where there is none,
  counted by day of the year. \<open>day\<close> is \<open>time.Parse\<close> followed by the conversion to the local time zone: the year, the month and the day. The
  days of the year are those of the calendar; a zone whose midnight is skipped by daylight saving is not considered.
\<close>

section \<open>Counting by day\<close>

type_synonym day_count = "((int \<times> nat \<times> nat) \<times> nat) list"

fun bump :: "'k \<Rightarrow> ('k \<times> nat) list \<Rightarrow> ('k \<times> nat) list" where
  "bump k [] = [(k, 1)]"
| "bump k ((k', n) # m) = (if k = k' then (k, n + 1) # m else (k', n) # bump k m)"

definition count_of :: "('k \<times> nat) list \<Rightarrow> 'k \<Rightarrow> nat" where
  "count_of m k = (case map_of m k of None \<Rightarrow> 0 | Some n \<Rightarrow> n)"

definition bump_day :: "(string \<Rightarrow> (int \<times> nat \<times> nat) option) \<Rightarrow> int \<Rightarrow> string \<Rightarrow> day_count \<Rightarrow> day_count" where
  "bump_day day year t out =
     (case day t of None \<Rightarrow> out | Some d \<Rightarrow> if fst d \<noteq> year then out else bump d out)"

text \<open>The history: a boot is counted once, by its number or else by the time it is said to have been booted.\<close>

record history_state =
  seenBootIDs :: "string list"
  seenRebootTimes :: "string list"
  day_counts :: day_count

definition is_start :: "startup_event \<Rightarrow> bool" where
  "is_start rec \<longleftrightarrow> ev_event rec = ''startup'' \<and> \<not> (ev_timestamp rec = [] \<and> RebootedAt rec = [])"

definition reference_time :: "startup_event \<Rightarrow> string" where
  "reference_time rec = (if RebootedAt rec = [] then ev_timestamp rec else RebootedAt rec)"

definition history_record ::
  "(string \<Rightarrow> (int \<times> nat \<times> nat) option) \<Rightarrow> int \<Rightarrow> startup_event \<Rightarrow> history_state \<Rightarrow> history_state" where
  "history_record day year rec st =
     (if \<not> is_start rec then st
      else
        let out = bump_day day year (reference_time rec) (day_counts st)
        in if BootID rec \<noteq> [] then
             (if BootID rec \<in> set (seenBootIDs st) then st
              else st\<lparr>seenBootIDs := BootID rec # seenBootIDs st, day_counts := out\<rparr>)
           else if RebootedAt rec \<noteq> [] then
             (if RebootedAt rec \<in> set (seenRebootTimes st) then st
              else st\<lparr>seenRebootTimes := RebootedAt rec # seenRebootTimes st, day_counts := out\<rparr>)
           else st\<lparr>day_counts := out\<rparr>)"

definition history_line :: "history_env \<Rightarrow> string \<Rightarrow> startup_event option" where
  "history_line e l = (let line = trim_space l in if line = [] then None else decode_event e line)"

text \<open>The counts and whether the error is nil.\<close>

definition parseStartupHistoryByDay ::
  "history_env \<Rightarrow> (string \<Rightarrow> (int \<times> nat \<times> nat) option) \<Rightarrow> string option \<Rightarrow> int \<Rightarrow> day_count \<times> bool" where
  "parseStartupHistoryByDay e day file year =
     (case file of
        None \<Rightarrow> ([], False)
      | Some d \<Rightarrow>
          (case scan_lines d of (ls, ok) \<Rightarrow>
             (day_counts (fold (history_record day year) (List.map_filter (history_line e) ls)
                \<lparr>seenBootIDs = [], seenRebootTimes = [], day_counts = []\<rparr>), ok)))"

text \<open>The log: \<open>time=([0-9T:\-:\.]+Z).*msg="?startup"?\<close>, leftmost match.\<close>

definition log_time_char :: "char \<Rightarrow> bool" where
  "log_time_char c \<longleftrightarrow> is_digit_byte c \<or> c \<in> {CHR ''T'', CHR '':'', CHR ''-'', CHR ''.''}"

fun startup_time :: "string \<Rightarrow> string option" where
  "startup_time [] = None"
| "startup_time (c # s) =
     (if has_prefix (c # s) ''time='' then
        let t = drop 5 (c # s); run = takeWhile log_time_char t; rest = drop (length run) t
        in if run \<noteq> [] \<and> has_prefix rest ''Z'' \<and> (contains rest ''msg=startup'' \<or> contains rest (''msg='' @ [CHR 0x22] @ ''startup''))
           then Some (run @ ''Z'') else startup_time s
      else startup_time s)"

definition parseStartupRebootsByDay ::
  "(string \<Rightarrow> (int \<times> nat \<times> nat) option) \<Rightarrow> string option \<Rightarrow> int \<Rightarrow> day_count \<times> bool" where
  "parseStartupRebootsByDay day file year =
     (case file of
        None \<Rightarrow> ([], False)
      | Some d \<Rightarrow>
          (case scan_lines d of (ls, ok) \<Rightarrow>
             (fold (bump_day day year) (List.map_filter startup_time ls) [], ok)))"

section \<open>The year\<close>

definition isLeapYear :: "int \<Rightarrow> bool" where
  "isLeapYear year = (if year mod 400 = 0 then True else if year mod 100 = 0 then False else year mod 4 = 0)"

definition month_lengths :: "int \<Rightarrow> nat list" where
  "month_lengths year = [31, if isLeapYear year then 29 else 28, 31, 30, 31, 30, 31, 31, 30, 31, 30, 31]"

definition days_of_year :: "int \<Rightarrow> (int \<times> nat \<times> nat) list" where
  "days_of_year year =
     concat (map (\<lambda>(mo, len). map (\<lambda>d. (year, mo, d)) [1..<len + 1]) (zip [1..<13] (month_lengths year)))"

definition rebootHeatmapLevel :: "nat \<Rightarrow> nat" where
  "rebootHeatmapLevel n = (if n = 0 then 0 else if n = 1 then 1 else if n = 2 then 2 else 3)"

text \<open>The weekday of the first of January, Sunday being 0.\<close>

definition new_year_weekday :: "int \<Rightarrow> int" where
  "new_year_weekday year =
     (let y = year - 1 in (1 + 365 * y + y div 4 - y div 100 + y div 400) mod 7)"

definition pad :: "nat \<Rightarrow> nat \<Rightarrow> string" where
  "pad w n = (let s = nat_to_dec n in replicate (w - length s) CHR ''0'' @ s)"

text \<open>\<open>2006-01-02\<close>.\<close>

definition format_day :: "int \<times> nat \<times> nat \<Rightarrow> string" where
  "format_day d = (case d of (year, mo, da) \<Rightarrow> pad 4 (nat year) @ ''-'' @ pad 2 mo @ ''-'' @ pad 2 da)"

definition month_names :: "string list" where
  "month_names = [''Jan'', ''Feb'', ''Mar'', ''Apr'', ''May'', ''Jun'', ''Jul'', ''Aug'', ''Sep'', ''Oct'', ''Nov'', ''Dec'']"

definition weekday_names :: "string list" where
  "weekday_names = [''Sun'', ''Mon'', ''Tue'', ''Wed'', ''Thu'', ''Fri'', ''Sat'']"

text \<open>\<open>Mon 02 Jan 2006\<close>, for the \<open>i\<close>th day of the year.\<close>

definition format_label :: "nat \<Rightarrow> int \<times> nat \<times> nat \<Rightarrow> string" where
  "format_label i d =
     (case d of (year, mo, da) \<Rightarrow>
        weekday_names ! nat ((new_year_weekday year + int i) mod 7) @ '' '' @ pad 2 da @ '' '' @
        month_names ! (mo - 1) @ '' '' @ pad 4 (nat year))"

record heat_cell =
  cell_date :: string
  cell_count :: nat
  cell_level :: nat
  cell_label :: string

record heat_map =
  heat_year :: int
  TotalReboots :: nat
  MaxPerDay :: nat
  LeadBlank :: int
  heat_days :: "heat_cell list"

definition heat_cell_of :: "day_count \<Rightarrow> nat \<times> (int \<times> nat \<times> nat) \<Rightarrow> heat_cell" where
  "heat_cell_of counts x =
     (case x of (i, d) \<Rightarrow>
        \<lparr>cell_date = format_day d, cell_count = count_of counts d, cell_level = rebootHeatmapLevel (count_of counts d),
         cell_label = format_label i d\<rparr>)"

definition heat_map_of :: "int \<Rightarrow> day_count \<Rightarrow> heat_map" where
  "heat_map_of year counts =
     (let daysInYear = (if isLeapYear year then 366 else 365);
          cells = map (heat_cell_of counts) (enumerate 0 (take daysInYear (days_of_year year)))
      in \<lparr>heat_year = year, TotalReboots = sum_list (map cell_count cells), MaxPerDay = fold max (map cell_count cells) 0,
          LeadBlank = (new_year_weekday year + 6) mod 7, heat_days = cells\<rparr>)"

definition reboot_counts ::
  "history_env \<Rightarrow> (string \<Rightarrow> (int \<times> nat \<times> nat) option) \<Rightarrow> string option \<Rightarrow> string option \<Rightarrow> int \<Rightarrow> day_count" where
  "reboot_counts e day history logfile year =
     (case parseStartupHistoryByDay e day history year of
        (counts, ok) \<Rightarrow> if \<not> ok \<or> counts = [] then fst (parseStartupRebootsByDay day logfile year) else counts)"

definition cell_json :: "heat_cell \<Rightarrow> json" where
  "cell_json c = JObj [(''date'', JStr (cell_date c)), (''count'', JNum (int (cell_count c))),
     (''level'', JNum (int (cell_level c))), (''label'', JStr (cell_label c))]"

definition RebootsHandler ::
  "history_env \<Rightarrow> (string \<Rightarrow> (int \<times> nat \<times> nat) option) \<Rightarrow> string option \<Rightarrow> string option \<Rightarrow> int \<Rightarrow> request \<Rightarrow> response" where
  "RebootsHandler e day history logfile year r =
     (let h = heat_map_of year (reboot_counts e day history logfile year)
      in with_header ''Cache-Control'' ''no-store, no-cache, must-revalidate, max-age=0''
           (with_header ''Pragma'' ''no-cache'' (with_header ''Expires'' ''0''
             (json_response 200
               (JObj [(''year'', JNum (heat_year h)), (''total_reboots'', JNum (int (TotalReboots h))),
                      (''max_per_day'', JNum (int (MaxPerDay h))), (''lead_blank'', JNum (LeadBlank h)),
                      (''days'', JArr (map cell_json (heat_days h)))])))))"

section \<open>Facts\<close>

lemma count_of_bump: "count_of (bump k m) k' = count_of m k' + (if k = k' then 1 else 0)"
  by (induction k m rule: bump.induct) (auto simp: count_of_def)

lemma bump_not_Nil [simp]: "bump k m \<noteq> []"
  by (cases m) (auto split: prod.splits if_splits)

text \<open>The year's days of a list of times.\<close>

definition days_in :: "(string \<Rightarrow> (int \<times> nat \<times> nat) option) \<Rightarrow> int \<Rightarrow> string list \<Rightarrow> (int \<times> nat \<times> nat) list" where
  "days_in day year ts = filter (\<lambda>d. fst d = year) (List.map_filter day ts)"

lemma days_in_simps [simp]:
  "days_in day year [] = []"
  "days_in day year (t # ts) = (case day t of None \<Rightarrow> days_in day year ts
     | Some d \<Rightarrow> if fst d = year then d # days_in day year ts else days_in day year ts)"
  by (auto simp: days_in_def List.map_filter_simps split: option.splits)

lemma count_of_bump_day: "count_of (bump_day day year t out) k = count_of out k + count_list (days_in day year [t]) k"
  by (auto simp: bump_day_def count_of_bump split: option.splits)

lemma count_of_bump_days: "count_of (fold (bump_day day year) ts out) k = count_of out k + count_list (days_in day year ts) k"
  by (induction ts arbitrary: out) (auto simp: count_of_bump_day split: option.splits)

text \<open>The specification of the history: of the starts of one boot only the first counts.\<close>

fun same_start :: "startup_event \<Rightarrow> startup_event \<Rightarrow> bool" where
  "same_start r r' \<longleftrightarrow>
     (if BootID r \<noteq> [] then BootID r' = BootID r
      else RebootedAt r \<noteq> [] \<and> BootID r' = [] \<and> RebootedAt r' = RebootedAt r)"

function boots :: "startup_event list \<Rightarrow> startup_event list" where
  "boots [] = []"
| "boots (r # rs) = r # boots (filter (\<lambda>r'. \<not> same_start r r') rs)"
  by pat_completeness auto
termination
  by (relation "measure length") (auto simp: le_imp_less_Suc)

definition unseen :: "history_state \<Rightarrow> startup_event \<Rightarrow> bool" where
  "unseen st r \<longleftrightarrow>
     (if BootID r \<noteq> [] then BootID r \<notin> set (seenBootIDs st)
      else RebootedAt r = [] \<or> RebootedAt r \<notin> set (seenRebootTimes st))"

lemma history_record_seen: "is_start r \<Longrightarrow> \<not> unseen st r \<Longrightarrow> history_record day year r st = st"
  by (auto simp: history_record_def unseen_def Let_def split: if_splits)

lemma history_record_unseen:
  assumes "is_start r" and "unseen st r"
  shows "day_counts (history_record day year r st) = bump_day day year (reference_time r) (day_counts st) \<and>
    unseen (history_record day year r st) r' = (unseen st r' \<and> \<not> same_start r r')"
  using assms by (auto simp: history_record_def unseen_def Let_def)

lemma history_fold:
  "list_all is_start rs \<Longrightarrow>
   count_of (day_counts (fold (history_record day year) rs st)) k =
     count_of (day_counts st) k + count_list (days_in day year (map reference_time (boots (filter (unseen st) rs)))) k"
proof (induction rs arbitrary: st)
  case (Cons r rs)
  show ?case
  proof (cases "unseen st r")
    case True
    let ?st = "history_record day year r st"
    have s: "is_start r" using Cons.prems by simp
    have "filter (unseen ?st) rs = filter (\<lambda>r'. \<not> same_start r r') (filter (unseen st) rs)"
      using history_record_unseen [OF s True] by (auto simp: conj_commute intro: filter_cong)
    then show ?thesis
      using Cons True history_record_unseen [OF s True] count_of_bump_day
      by (auto simp: count_of_bump_day split: option.splits)
  next
    case False
    then show ?thesis using Cons history_record_seen [OF _ False] by simp
  qed
qed simp

lemma history_not_start: "fold (history_record day year) rs st = fold (history_record day year) (filter is_start rs) st"
  by (induction rs arbitrary: st) (simp_all add: history_record_def)

lemma boots_subset: "set (boots rs) \<subseteq> set rs"
proof (induction rs rule: boots.induct)
  case (2 r rs)
  have "set (filter (\<lambda>r'. \<not> same_start r r') rs) \<subseteq> set rs" by (rule filter_is_subset)
  with 2 have "set (boots (filter (\<lambda>r'. \<not> same_start r r') rs)) \<subseteq> set rs" by (rule order_trans)
  then show ?case by (simp del: same_start.simps) blast
qed simp

lemma boots_apart: "sorted_wrt (\<lambda>r r'. \<not> same_start r r') (boots rs)"
proof (induction rs rule: boots.induct)
  case (2 r rs)
  then show ?case using boots_subset [of "filter (\<lambda>r'. \<not> same_start r r') rs"] by (auto simp del: same_start.simps)
qed simp

section \<open>The calendar\<close>

lemma length_by_month:
  "length ms = length ls \<Longrightarrow>
   length (concat (map (\<lambda>(mo, len). map (\<lambda>d. (year, mo, d)) [1..<len + 1]) (zip ms ls))) = sum_list ls"
  by (induction ms ls rule: list_induct2') (simp_all del: upt_Suc)

lemma length_days_of_year: "length (days_of_year year) = (if isLeapYear year then 366 else 365)"
proof -
  have "length (days_of_year year) = sum_list (month_lengths year)"
    unfolding days_of_year_def by (rule length_by_month) (simp add: month_lengths_def)
  then show ?thesis by (simp add: month_lengths_def)
qed

lemma distinct_by_month:
  "distinct ms \<Longrightarrow> length ms = length ls \<Longrightarrow>
   distinct (concat (map (\<lambda>(mo, len). map (\<lambda>d. (year, mo, d)) [1..<len + 1]) (zip ms ls)))"
proof (induction ms ls rule: list_induct2')
  case (4 mo ms len ls)
  let ?rest = "concat (map (\<lambda>(mo, len). map (\<lambda>d. (year, mo, d)) [1..<len + 1]) (zip ms ls))"
  have in_ms: "mo' \<in> set ms" if "(y, mo', d) \<in> set ?rest" for y mo' d using that by (auto dest: set_zip_leftD simp del: upt_Suc)
  have nm: "mo \<notin> set ms" using 4 by simp
  have "x \<notin> set ?rest" if "x \<in> set (map (\<lambda>d. (year, mo, d)) [1..<len + 1])" for x
  proof -
    obtain d where "x = (year, mo, d)" using \<open>x \<in> _\<close> unfolding set_map by blast
    with in_ms nm show ?thesis by blast
  qed
  then have "set (map (\<lambda>d. (year, mo, d)) [1..<len + 1]) \<inter> set ?rest = {}" by blast
  moreover have "distinct (map (\<lambda>d. (year, mo, d)) [1..<len + 1])" by (simp add: distinct_map inj_on_def del: upt_Suc)
  moreover have "distinct ?rest" using 4 by simp
  ultimately show ?case by (simp del: upt_Suc)
qed auto

lemma distinct_days_of_year: "distinct (days_of_year year)"
  unfolding days_of_year_def by (rule distinct_by_month) (simp_all add: month_lengths_def)

lemma days_of_yearI:
  assumes "(mo, l) \<in> set (zip [1..<13] (month_lengths year))" and "0 < d" and "d \<le> l"
  shows "(year, mo, d) \<in> set (days_of_year year)"
proof -
  let ?F = "\<lambda>(mo, len). map (\<lambda>d. (year, mo, d)) [1..<len + 1]"
  have "?F (mo, l) \<in> set (map ?F (zip [1..<13] (month_lengths year)))"
    unfolding list.set_map [of ?F] by (rule imageI [OF assms(1)])
  moreover have "(year, mo, d) \<in> set (?F (mo, l))" using assms(2,3) by (simp del: upt_Suc)
  ultimately show ?thesis unfolding days_of_year_def set_concat by (rule UN_I)
qed

lemma days_of_year_range:
  assumes "(y, mo, d) \<in> set (days_of_year year)"
  shows "y = year \<and> mo < 13 \<and> 0 < mo \<and> d < 32 \<and> 0 < d"
proof -
  have "list_all (\<lambda>l. l \<le> 31) (month_lengths year)" by (simp add: month_lengths_def)
  then have l: "l \<le> 31" if "l \<in> set (month_lengths year)" for l using that by (auto simp: list_all_iff)
  from assms obtain l where z: "(mo, l) \<in> set (zip [1..<13] (month_lengths year))" "y = year" "0 < d" "d \<le> l"
    by (auto simp: days_of_year_def)
  moreover have "mo \<in> set [1..<13]" by (rule set_zip_leftD [OF z(1)])
  moreover have "l \<le> 31" by (rule l [OF set_zip_rightD [OF z(1)]])
  ultimately show ?thesis by simp
qed

lemma pad_2:
  assumes "n < 100"
  shows "length (pad 2 n) = 2"
proof -
  have "n div 10 < 10" using assms by simp
  then show ?thesis by (simp add: pad_def nat_to_dec.simps [of n] nat_to_dec.simps [of "n div 10"])
qed

lemma pad_parse: "int n \<le> mx \<Longrightarrow> parse_uint_from 10 mx 0 (pad w n) = (int n, True, False)"
proof -
  assume "int n \<le> mx"
  moreover have "parse_uint_from 10 mx 0 (replicate k CHR ''0'' @ s) = parse_uint_from 10 mx 0 s" for k s
    using \<open>int n \<le> mx\<close> by (induction k) (simp_all add: digit_val_def in_range_def)
  ultimately show ?thesis using nat_to_dec_parse by (simp add: pad_def Let_def)
qed

lemma pad_inject:
  assumes "pad w m = pad w n"
  shows "m = n"
proof -
  have "parse_uint_from 10 (int (m + n)) 0 (pad w m) = (int m, True, False)" by (rule pad_parse) simp
  moreover have "parse_uint_from 10 (int (m + n)) 0 (pad w n) = (int n, True, False)" by (rule pad_parse) simp
  ultimately show ?thesis unfolding assms by simp
qed

lemma format_day_inject:
  assumes "d \<in> set (days_of_year year)" and "d' \<in> set (days_of_year year)" and "format_day d = format_day d'"
  shows "d = d'"
proof -
  obtain mo da mo' da' where d: "d = (year, mo, da)" "d' = (year, mo', da')"
    using assms(1,2) by (metis days_of_year_range prod_cases3)
  have r: "mo < 100" "mo' < 100" using assms(1,2) days_of_year_range unfolding d by fastforce+
  have "pad 2 mo @ ''-'' @ pad 2 da = pad 2 mo' @ ''-'' @ pad 2 da'" using assms(3) by (simp add: d format_day_def)
  then have "pad 2 mo = pad 2 mo' \<and> ''-'' @ pad 2 da = ''-'' @ pad 2 da'"
    using r by (simp add: append_eq_append_conv pad_2)
  then show ?thesis using pad_inject unfolding d by auto
qed

section \<open>Properties\<close>

lemma sum_counts: "set ks \<subseteq> set ds \<Longrightarrow> distinct ds \<Longrightarrow> sum_list (map (count_list ks) ds) = length ks"
  by (simp add: sum_list_distinct_conv_sum_set sum_count_set)

lemma heat_cells: "heat_days (heat_map_of year counts) = map (heat_cell_of counts) (enumerate 0 (days_of_year year))"
  by (simp add: heat_map_of_def Let_def length_days_of_year take_all)

lemma map_cells:
  "map cell_date (map (heat_cell_of counts) (enumerate n ds)) = map format_day ds"
  "map cell_count (map (heat_cell_of counts) (enumerate n ds)) = map (count_of counts) ds"
  by (induction ds arbitrary: n) (simp_all add: heat_cell_of_def)

text \<open>
  The heat map has one cell for every day of the year, leap years included, all with different dates, and between none and six blanks before the first,
  so that weeks begin on a Monday.
\<close>

theorem heat_map_days:
  "length (heat_days (heat_map_of year counts)) = (if isLeapYear year then 366 else 365) \<and>
   distinct (map cell_date (heat_days (heat_map_of year counts))) \<and>
   LeadBlank (heat_map_of year counts) \<in> {0..6} \<and> (new_year_weekday year = (1 + LeadBlank (heat_map_of year counts)) mod 7)"
proof -
  have "inj_on format_day (set (days_of_year year))" using format_day_inject by (auto intro!: inj_onI)
  then have "distinct (map cell_date (heat_days (heat_map_of year counts)))"
    using distinct_days_of_year unfolding heat_cells map_cells by (simp add: distinct_map)
  moreover have "0 \<le> new_year_weekday year \<and> new_year_weekday year < 7" by (simp add: new_year_weekday_def Let_def)
  moreover have "LeadBlank (heat_map_of year counts) = (new_year_weekday year + 6) mod 7"
    by (simp add: heat_map_of_def Let_def)
  moreover have "(w + 6) mod 7 \<in> {0..6} \<and> w = (1 + (w + 6) mod 7) mod 7" if "0 \<le> w \<and> w < 7" for w :: int
    using that by (simp, presburger)
  ultimately show ?thesis by (simp add: heat_cells length_days_of_year)
qed

text \<open>The specification: the days of the first starts of the boots.\<close>

definition boot_days ::
  "history_env \<Rightarrow> (string \<Rightarrow> (int \<times> nat \<times> nat) option) \<Rightarrow> string \<Rightarrow> int \<Rightarrow> (int \<times> nat \<times> nat) list" where
  "boot_days e day file year =
     days_in day year (map reference_time (boots (filter is_start (List.map_filter (history_line e) (fst (scan_lines file))))))"

text \<open>
  C38. The heat map counts boots: if the history can be read, the count of a day is the number of boots of that day, a boot being the first of the starts with its
  boot number, or with its boot time when it has no number, and the total is the number of boots in the year.
\<close>

theorem heat_map_counts_boots:
  assumes "\<forall>t d. day t = Some d \<longrightarrow> fst d = year \<longrightarrow> d \<in> set (days_of_year year)"
  shows "map cell_count (heat_days (heat_map_of year (fst (parseStartupHistoryByDay e day (Some file) year)))) =
      map (count_list (boot_days e day file year)) (days_of_year year) \<and>
    TotalReboots (heat_map_of year (fst (parseStartupHistoryByDay e day (Some file) year))) = length (boot_days e day file year)"
proof -
  let ?c = "fst (parseStartupHistoryByDay e day (Some file) year)"
  define days where "days = boot_days e day file year"
  define h where "h = heat_map_of year ?c"
  have "count_of ?c d = count_list days d" for d
  proof -
    let ?st = "\<lparr>seenBootIDs = [], seenRebootTimes = [], day_counts = []\<rparr> :: history_state"
    let ?rs = "List.map_filter (history_line e) (fst (scan_lines file))"
    have "filter (unseen ?st) (filter is_start ?rs) = filter is_start ?rs" by (rule filter_True) (simp add: unseen_def)
    with history_fold [of "filter is_start ?rs" day year ?st d]
    have "count_of (day_counts (fold (history_record day year) (filter is_start ?rs) ?st)) d = count_list days d"
      by (simp only: days_def boot_days_def) (simp add: list_all_iff count_of_def)
    then show ?thesis
      by (simp add: parseStartupHistoryByDay_def split_beta history_not_start [of day year ?rs])
  qed
  then have c: "map (count_of ?c) (days_of_year year) = map (count_list days) (days_of_year year)" by simp
  have cells: "map cell_count (heat_days h) = map (count_of ?c) (days_of_year year)"
    unfolding h_def heat_cells map_cells ..
  have "TotalReboots h = sum_list (map cell_count (heat_days h))" by (simp add: h_def heat_map_of_def Let_def)
  moreover have "set days \<subseteq> set (days_of_year year)"
  proof
    fix d assume "d \<in> set days"
    then have "fst d = year" "\<exists>t. day t = Some d" by (auto simp: days_def boot_days_def days_in_def map_filter_mem)
    with assms(1) show "d \<in> set (days_of_year year)" by blast
  qed
  ultimately show ?thesis using sum_counts [OF _ distinct_days_of_year] unfolding cells c h_def [symmetric] days_def [symmetric] by simp
qed

definition demo_reader :: history_env where
  "demo_reader = demo_history\<lparr>decode_event := \<lambda>l. Some \<lparr>ev_timestamp = ''t'', ev_event = ''startup'', ev_theme = [], BootID = l,
     RebootedAt = []\<rparr>\<rparr>"

theorem heat_map_counts_boots_witness:
  "TotalReboots (heat_map_of 2024 (fst (parseStartupHistoryByDay demo_reader (\<lambda>_. Some (2024, 1, 2))
     (Some (''a'' @ [CHR 0x0A] @ ''b'' @ [CHR 0x0A] @ ''a'' @ [CHR 0x0A])) 2024))) = 2"
proof -
  let ?day = "\<lambda>_ :: string. Some (2024 :: int, 1 :: nat, 2 :: nat)"
  let ?file = "''a'' @ [CHR 0x0A] @ ''b'' @ [CHR 0x0A] @ ''a'' @ [CHR 0x0A]"
  have "(1, 31) \<in> set (zip [1..<13] (month_lengths 2024))" by code_simp
  from days_of_yearI [OF this] have "(2024, 1, 2) \<in> set (days_of_year 2024)" by simp
  then have ok: "\<forall>t d. ?day t = Some d \<longrightarrow> fst d = 2024 \<longrightarrow> d \<in> set (days_of_year 2024)" by simp
  have "length (boot_days demo_reader ?day ?file 2024) = 2" by code_simp
  with conjunct2 [OF heat_map_counts_boots [OF ok, of demo_reader ?file]] show ?thesis by (simp only:)
qed

end
