(* ===== verification/Logs.thy ===== *)
theory Logs
  imports SysInfo
begin

text \<open>
  The log files (\<open>sse/sysinfo.go\<close>): their list, and the last lines of one, with escape sequences and control characters removed. Reading a file gives the
  bytes that are there at that time; its size may have been another one when it was asked for.
\<close>

section \<open>The files\<close>

definition knownLogFiles :: "string list" where
  "knownLogFiles =
     [''/var/log/messages'', ''/var/log/syslog'', ''/var/log/kern.log'', ''/var/log/auth.log'', ''/var/log/dmesg'',
      ''/var/log/cron'', ''/var/log/daemon.log'', ''/var/log/lbu.log'']"

record log_file_info =
  lfi_name :: string
  lfi_path :: string
  lfi_size_mb :: rat
  lfi_exists :: bool

definition ListLogFiles :: "machine \<Rightarrow> log_file_info list" where
  "ListLogFiles m =
     map (\<lambda>p. \<lparr>lfi_name = trimPath p, lfi_path = p, lfi_size_mb = of_nat (m_size m p) / 1024 / 1024, lfi_exists = True\<rparr>)
       (filter (fileExists m) knownLogFiles)"

definition LogsListHandler :: "machine \<Rightarrow> request \<Rightarrow> response + log_file_info list" where
  "LogsListHandler m r = (if req_method r \<noteq> ''GET'' then Inl method_not_allowed else Inr (ListLogFiles m))"

definition isAllowedLogPath :: "string \<Rightarrow> bool" where
  "isAllowedLogPath p \<longleftrightarrow>
     list_ex (has_prefix p) [''/var/log/'', ''/run/log/'', ''/var/run/log/''] \<or> p \<in> set knownLogFiles"

section \<open>Cleaning a line\<close>

text \<open>The escape sequence at the front, \<open>\x1b\[[0-9;?]*[ -/]*[@-~]\<close>: its length, 0 when there is none.\<close>

definition ansi_len :: "string \<Rightarrow> nat" where
  "ansi_len s =
     (if has_prefix s [CHR 0x1B, CHR ''[''] then
        let t = drop 2 s;
            ps = takeWhile (\<lambda>c. is_digit_byte c \<or> c = CHR '';'' \<or> c = CHR ''?'') t;
            qs = takeWhile (in_range 0x20 0x2F) (drop (length ps) t);
            fs = drop (length ps + length qs) t
        in if fs \<noteq> [] \<and> in_range 0x40 0x7E (hd fs) then 3 + length ps + length qs else 0
      else 0)"

function strip_ansi :: "string \<Rightarrow> string" where
  "strip_ansi s =
     (if s = [] then []
      else if 0 < ansi_len s then strip_ansi (drop (ansi_len s) s)
      else hd s # strip_ansi (tl s))"
  by pat_completeness auto
termination
  by (relation "measure length") auto

declare strip_ansi.simps [simp del]

text \<open>\<open>strings.Map\<close>: control characters go, and a byte that is no part of a rune becomes U+FFFD.\<close>

function drop_controls :: "string \<Rightarrow> string" where
  "drop_controls s =
     (if s = [] then []
      else if 1 < rune_size s then take (rune_size s) s @ drop_controls (drop (rune_size s) s)
      else if 0x80 \<le> byte (hd s) then [CHR 0xEF, CHR 0xBF, CHR 0xBD] @ drop_controls (tl s)
      else if byte (hd s) < 32 \<and> hd s \<noteq> CHR 0x09 then drop_controls (tl s)
      else hd s # drop_controls (tl s))"
  by pat_completeness auto
termination
  by (relation "measure length") auto

declare drop_controls.simps [simp del]

definition clean_line :: "string \<Rightarrow> string" where
  "clean_line l = trim_right (drop_controls (strip_ansi l)) '' ''"

section \<open>The last lines\<close>

definition maxTailBytes :: int where
  "maxTailBytes = 1024 * 1024"

definition last_lines :: "nat \<Rightarrow> 'a list \<Rightarrow> 'a list" where
  "last_lines n ls = (if n < length ls then drop (length ls - n) ls else ls)"

text \<open>\<open>None\<close> is an error.\<close>

definition tailLogFile :: "machine \<Rightarrow> string \<Rightarrow> nat \<Rightarrow> string list option" where
  "tailLogFile m p n =
     (case m_read m p of
        None \<Rightarrow> None
      | Some d \<Rightarrow>
          let size = int (m_size m p); start = (if size - maxTailBytes < 0 then 0 else size - maxTailBytes);
              want = nat (size - start); got = take want (drop (nat start) d);
              kept = (if 0 < start \<and> CHR 0x0A \<in> set got then tl (dropWhile (\<lambda>c. c \<noteq> CHR 0x0A) got) else got)
          in if want \<noteq> 0 \<and> got = [] then None
             else Some (map clean_line (last_lines n (lines_of (trim_right kept [CHR 0x0A])))))"

definition TailLogFile :: "machine \<Rightarrow> string \<Rightarrow> int \<Rightarrow> string list option" where
  "TailLogFile m p n =
     (if \<not> isAllowedLogPath p then None else tailLogFile m p (if n \<le> 0 \<or> 1000 < n then 100 else nat n))"

definition sniffed_error :: "string \<Rightarrow> response" where
  "sniffed_error msg =
     with_header ''Content-Type'' ''text/plain; charset=utf-8''
       (respond 403 (Plain (''{'' @ quote_mark @ ''error'' @ quote_mark @ '':'' @ quote_mark @ msg @ quote_mark @ ''}'')))"

text \<open>File, lines, count. A header set after \<open>WriteHeader\<close> has no effect.\<close>

definition LogsTailHandler :: "machine \<Rightarrow> request \<Rightarrow> response + string \<times> string list \<times> nat" where
  "LogsTailHandler m r =
     (if req_method r \<noteq> ''GET'' then Inl method_not_allowed
      else
        let fileName = query_get r ''file''; nStr = query_get r ''n'';
            n = (if nStr \<noteq> [] \<and> snd (atoi nStr) then fst (atoi nStr) else 100)
        in if fileName = [] then
             Inl (http_error (''{'' @ quote_mark @ ''error'' @ quote_mark @ '':'' @ quote_mark @ ''missing ?file= parameter'' @
                  quote_mark @ ''}'') 400)
           else if list_ex (\<lambda>c. c = CHR ''/'' \<or> c = CHR ''.'' \<or> c = CHR 0x5C) fileName then Inl (sniffed_error ''invalid file name'')
           else case TailLogFile m (''/var/log/'' @ fileName) n of
             None \<Rightarrow> Inl (sniffed_error ''file not accessible'')
           | Some ls \<Rightarrow> Inr (fileName, ls, length ls))"

section \<open>Facts\<close>

lemma rune_size_high: "1 < rune_size s \<Longrightarrow> c \<in> set (take (rune_size s) s) \<Longrightarrow> 128 \<le> byte c"
  by (cases s) (auto simp: cont_def in_range_def split: if_splits list.splits)

definition printable :: "char \<Rightarrow> bool" where
  "printable c \<longleftrightarrow> 32 \<le> byte c \<or> c = CHR 0x09"

lemma drop_controls_printable: "list_all printable (drop_controls s)"
proof (induction s rule: drop_controls.induct)
  case (1 s)
  consider (nil) "s = []" | (wide) "s \<noteq> []" "1 < rune_size s" | (bad) "s \<noteq> []" "\<not> 1 < rune_size s" "0x80 \<le> byte (hd s)"
    | (control) "s \<noteq> []" "\<not> 1 < rune_size s" "\<not> 0x80 \<le> byte (hd s)" "byte (hd s) < 32 \<and> hd s \<noteq> CHR 0x09"
    | (plain) "s \<noteq> []" "\<not> 1 < rune_size s" "\<not> 0x80 \<le> byte (hd s)" "\<not> (byte (hd s) < 32 \<and> hd s \<noteq> CHR 0x09)"
    by blast
  then show ?case
  proof cases
    case nil
    then show ?thesis by (simp add: drop_controls.simps [of "[]"])
  next
    case wide
    have "list_all printable (take (rune_size s) s)"
      unfolding list_all_iff
    proof
      fix c assume "c \<in> set (take (rune_size s) s)"
      from rune_size_high [OF wide(2) this] show "printable c" by (simp add: printable_def)
    qed
    with 1(1) wide show ?thesis by (simp add: drop_controls.simps [of s])
  next
    case bad
    with 1(2) show ?thesis by (simp add: drop_controls.simps [of s] printable_def)
  next
    case control
    with 1(3) show ?thesis by (simp add: drop_controls.simps [of s])
  next
    case plain
    with 1(4) show ?thesis by (auto simp: drop_controls.simps [of s] printable_def)
  qed
qed

lemma set_trim_right: "set (trim_right s cs) \<subseteq> set s"
  unfolding trim_right_def by (auto dest: set_dropWhileD)

lemma clean_line_printable: "list_all printable (clean_line l)"
  using drop_controls_printable set_trim_right unfolding clean_line_def list_all_iff by blast

lemma length_last_lines: "length (last_lines n ls) \<le> n"
  by (simp add: last_lines_def)

lemma tailLogFile_cong:
  "m_read m' p = m_read m p \<Longrightarrow> m_size m' p = m_size m p \<Longrightarrow> tailLogFile m' p n = tailLogFile m p n"
  by (simp only: tailLogFile_def)

lemma dropWhile_breaks:
  "\<exists>k. s = replicate k x @ dropWhile (\<lambda>c. c = x) s"
proof (induction s)
  case (Cons c s)
  then obtain k where "s = replicate k x @ dropWhile (\<lambda>c. c = x) s" ..
  then have k: "x # s = replicate (Suc k) x @ dropWhile (\<lambda>c. c = x) s" by simp
  show ?case
  proof (cases "c = x")
    case True
    with k have "c # s = replicate (Suc k) x @ dropWhile (\<lambda>c. c = x) (c # s)" by simp
    then show ?thesis ..
  next
    case False
    then have "c # s = replicate 0 x @ dropWhile (\<lambda>c. c = x) (c # s)" by simp
    then show ?thesis ..
  qed
qed simp

lemma trim_breaks:
  obtains k where "s = trim_right s [CHR 0x0A] @ replicate k CHR 0x0A"
    and "trim_right s [CHR 0x0A] = [] \<or> last (trim_right s [CHR 0x0A]) \<noteq> CHR 0x0A"
proof -
  define t where "t = dropWhile (\<lambda>c. c = CHR 0x0A) (rev s)"
  have r: "trim_right s [CHR 0x0A] = rev t" by (simp add: trim_right_def t_def)
  obtain k where "rev s = replicate k CHR 0x0A @ t" using dropWhile_breaks [of "rev s" "CHR 0x0A"] unfolding t_def ..
  from arg_cong [OF this, of rev] have "s = rev t @ replicate k CHR 0x0A" by simp
  moreover have "hd t \<noteq> CHR 0x0A" if "t \<noteq> []" using hd_dropWhile [of "\<lambda>c. c = CHR 0x0A" "rev s"] that unfolding t_def by blast
  then have "rev t = [] \<or> last (rev t) \<noteq> CHR 0x0A" by (cases "t = []") (simp_all add: last_rev)
  ultimately show ?thesis using that unfolding r by blast
qed

lemma last_lines_split:
  obtains as where "ls = as @ last_lines n ls" and "length (last_lines n ls) < n \<longrightarrow> as = []"
    and "n \<noteq> 0 \<Longrightarrow> ls \<noteq> [] \<Longrightarrow> last_lines n ls \<noteq> []"
proof
  show "ls = take (length ls - n) ls @ last_lines n ls" by (simp add: last_lines_def)
  show "length (last_lines n ls) < n \<longrightarrow> take (length ls - n) ls = []" by (simp add: last_lines_def)
  show "last_lines n ls \<noteq> []" if "n \<noteq> 0" "ls \<noteq> []"
    using that by (cases ls) (auto simp: last_lines_def)
qed

lemma join_append: "bs \<noteq> [] \<Longrightarrow> join d (as @ bs) = (if as = [] then join d bs else join d as @ d @ join d bs)"
  by (induction as rule: induct_list012) (auto simp: neq_Nil_conv)

lemma tailLogFile_read: "tailLogFile m p n = Some ls \<Longrightarrow> m_read m p \<noteq> None"
  by (cases "m_read m p") (simp_all add: tailLogFile_def)

text \<open>
  The end of a file: \<open>raw\<close> are its last lines, up to \<open>n\<close>, with nothing but line breaks after them. They start at a line of the
  file, unless its last mebibyte has no line break; they are less than \<open>n\<close> only when they are all lines of the file, or all whole lines of
  its last mebibyte.
\<close>

definition end_of_file :: "nat \<Rightarrow> string \<Rightarrow> string list \<Rightarrow> bool" where
  "end_of_file n d raw \<longleftrightarrow>
     (\<exists>before k. let rest = join [CHR 0x0A] raw @ replicate k CHR 0x0A in
        d = before @ rest \<and> raw \<noteq> [] \<and> list_all (\<lambda>l. CHR 0x0A \<notin> set l) raw \<and> (last raw \<noteq> [] \<or> raw = [[]]) \<and> length raw \<le> n \<and>
        (before = [] \<or> last before = CHR 0x0A \<or> int (length rest) = maxTailBytes) \<and>
        (length raw < n \<longrightarrow> before = [] \<or>
           (\<exists>far near. before = far @ near \<and> CHR 0x0A \<notin> set (butlast near) \<and> int (length near + length rest) = maxTailBytes)))"

text \<open>What the reader keeps of a file it sees whole.\<close>

definition kept_part :: "string \<Rightarrow> string" where
  "kept_part d =
     (let start = length d - nat maxTailBytes; got = drop start d
      in if 0 < start \<and> CHR 0x0A \<in> set got then tl (dropWhile (\<lambda>c. c \<noteq> CHR 0x0A) got) else got)"

lemma tailLogFile_kept:
  assumes "m_read m p = Some d" and "int (m_size m p) = int (length d)"
  shows "tailLogFile m p n = Some (map clean_line (last_lines n (lines_of (trim_right (kept_part d) [CHR 0x0A]))))"
proof -
  let ?size = "int (m_size m p)"
  let ?start = "if ?size - maxTailBytes < 0 then 0 else ?size - maxTailBytes"
  have p: "0 < maxTailBytes" by (simp add: maxTailBytes_def)
  have st: "nat ?start = length d - nat maxTailBytes" using assms(2) p by auto
  have pos: "0 < ?start \<longleftrightarrow> 0 < length d - nat maxTailBytes" using assms(2) p by auto
  have "length (drop (nat ?start) d) \<le> nat (?size - ?start)" using assms(2) p unfolding length_drop by auto
  then have t: "take (nat (?size - ?start)) (drop (nat ?start) d) = drop (nat ?start) d" by simp
  have "nat (?size - ?start) \<noteq> 0 \<longrightarrow> drop (nat ?start) d \<noteq> []" using assms(2) p by auto
  then show ?thesis
    unfolding tailLogFile_def assms(1) option.case Let_def t unfolding st pos kept_part_def Let_def by auto
qed

lemma kept_part_suffix:
  obtains P where "d = P @ kept_part d"
    and "P = [] \<or> (last P = CHR 0x0A \<or> int (length (kept_part d)) = maxTailBytes) \<and>
      (\<exists>far near. P = far @ near \<and> CHR 0x0A \<notin> set (butlast near) \<and> int (length near + length (kept_part d)) = maxTailBytes)"
proof -
  define start where "start = length d - nat maxTailBytes"
  define got where "got = drop start d"
  have d: "d = take start d @ got" by (simp add: got_def)
  have p: "0 < maxTailBytes" by (simp add: maxTailBytes_def)
  have len: "0 < start \<Longrightarrow> int (length got) = maxTailBytes" using p by (simp add: got_def start_def)
  have kp: "kept_part d = (if 0 < start \<and> CHR 0x0A \<in> set got then tl (dropWhile (\<lambda>c. c \<noteq> CHR 0x0A) got) else got)"
    by (simp add: kept_part_def Let_def got_def start_def)
  consider "start = 0" | "0 < start" "CHR 0x0A \<notin> set got" | "0 < start" "CHR 0x0A \<in> set got" by blast
  then show ?thesis
  proof cases
    case 1
    then show ?thesis using that [of "[]"] by (simp add: kp got_def)
  next
    case 2
    then have k: "kept_part d = got" by (simp add: kp)
    have "take start d = take start d @ [] \<and> CHR 0x0A \<notin> set (butlast []) \<and> int (length [] + length (kept_part d)) = maxTailBytes"
      using len [OF 2(1)] k by simp
    then show ?thesis using that [of "take start d"] d k len [OF 2(1)] by blast
  next
    case 3
    define w where "w = takeWhile (\<lambda>c. c \<noteq> CHR 0x0A) got"
    have w: "CHR 0x0A \<notin> set w" by (auto simp: w_def dest: set_takeWhileD)
    have "dropWhile (\<lambda>c. c \<noteq> CHR 0x0A) got \<noteq> []" using 3(2) by (auto simp: dropWhile_eq_Nil_conv)
    moreover from this have "hd (dropWhile (\<lambda>c. c \<noteq> CHR 0x0A) got) = CHR 0x0A" using hd_dropWhile by blast
    ultimately have "dropWhile (\<lambda>c. c \<noteq> CHR 0x0A) got = CHR 0x0A # kept_part d"
      using 3 by (cases "dropWhile (\<lambda>c. c \<noteq> CHR 0x0A) got") (simp_all add: kp)
    then have g: "got = (w @ [CHR 0x0A]) @ kept_part d"
      using takeWhile_dropWhile_id [of "\<lambda>c. c \<noteq> CHR 0x0A" got] by (simp add: w_def)
    have dd: "d = (take start d @ w @ [CHR 0x0A]) @ kept_part d" using d g by (simp only: append_assoc)
    have "int (length (w @ [CHR 0x0A]) + length (kept_part d)) = maxTailBytes"
      using len [OF 3(1)] arg_cong [OF g, of length] by (simp only: length_append)
    moreover have "CHR 0x0A \<notin> set (butlast (w @ [CHR 0x0A]))" using w by (simp only: butlast_snoc not_False_eq_True)
    moreover have "last (take start d @ w @ [CHR 0x0A]) = CHR 0x0A" by (simp only: append_assoc [symmetric] last_snoc)
    ultimately show ?thesis using that [OF dd] by blast
  qed
qed

lemma tailLogFile_end:
  assumes "m_read m p = Some d" and "m_size m p = length d" and "tailLogFile m p n = Some ls" and "n \<noteq> 0"
  shows "\<exists>raw. ls = map clean_line raw \<and> end_of_file n d raw"
proof -
  let ?k = "kept_part d"
  let ?t = "trim_right ?k [CHR 0x0A]"
  let ?raw = "last_lines n (lines_of ?t)"
  have ls: "ls = map clean_line ?raw" using tailLogFile_kept [OF assms(1), of n] assms(2,3) by simp
  obtain P where P: "d = P @ ?k" "P = [] \<or> (last P = CHR 0x0A \<or> int (length ?k) = maxTailBytes) \<and>
      (\<exists>far near. P = far @ near \<and> CHR 0x0A \<notin> set (butlast near) \<and> int (length near + length ?k) = maxTailBytes)"
    by (rule kept_part_suffix)
  obtain k where k: "?k = ?t @ replicate k CHR 0x0A" "?t = [] \<or> last ?t \<noteq> CHR 0x0A" by (rule trim_breaks)
  obtain as where as: "lines_of ?t = as @ ?raw" "length ?raw < n \<longrightarrow> as = []" "?raw \<noteq> []"
    using last_lines_split [of "lines_of ?t" n] assms(4) by (metis lines_of_def split_on_not_Nil)
  have nl: "list_all (\<lambda>l. CHR 0x0A \<notin> set l) ?raw"
    using split_on_sep_free as(1) unfolding lines_of_def list_all_iff by (metis Un_iff set_append)
  have lst: "last ?raw \<noteq> [] \<or> ?raw = [[]]"
  proof (cases "?t = []")
    case True
    then have "lines_of ?t = [[]]" by (simp add: lines_of_def)
    then show ?thesis using as by (cases as) auto
  next
    case False
    with last_split_on [OF this, of "CHR 0x0A"] k(2) have "last (lines_of ?t) \<noteq> []" by (simp add: lines_of_def)
    moreover have "last (lines_of ?t) = last ?raw" using arg_cong [OF as(1), of last] as(3) by (simp only: last_append if_False)
    ultimately show ?thesis by (simp only: simp_thms)
  qed
  let ?rest = "join [CHR 0x0A] ?raw @ replicate k CHR 0x0A"
  have j: "?t = (if as = [] then [] else join [CHR 0x0A] as @ [CHR 0x0A]) @ join [CHR 0x0A] ?raw"
  proof -
    have "?t = join [CHR 0x0A] (lines_of ?t)" by (simp only: lines_of_def join_split_on)
    also have "\<dots> = join [CHR 0x0A] (as @ ?raw)" using arg_cong [OF as(1), of "join [CHR 0x0A]"] .
    finally show ?thesis unfolding join_append [OF as(3)] by (cases "as = []") simp_all
  qed
  have n: "length ?raw \<le> n" by (rule length_last_lines)
  have "end_of_file n d ?raw"
  proof (cases "as = []")
    case True
    then have "?k = ?rest" using k(1) j by simp
    then show ?thesis unfolding end_of_file_def Let_def using P nl lst n as(3) by (intro exI [of _ P] exI [of _ k]) metis
  next
    case False
    let ?b = "P @ join [CHR 0x0A] as @ [CHR 0x0A]"
    have j': "?t = (join [CHR 0x0A] as @ [CHR 0x0A]) @ join [CHR 0x0A] ?raw" using j False by (simp only: if_False)
    have "?k = (join [CHR 0x0A] as @ [CHR 0x0A]) @ ?rest"
      using trans [OF k(1) arg_cong [OF j', of "\<lambda>x. x @ replicate k CHR 0x0A"]] by (simp only: append_assoc)
    with P(1) have "d = ?b @ ?rest" by (simp only: append_assoc)
    moreover have "last ?b = CHR 0x0A" by simp
    moreover have "\<not> length ?raw < n" using as(2) False by blast
    ultimately show ?thesis unfolding end_of_file_def Let_def using nl lst n as(3) by blast
  qed
  with ls show ?thesis by blast
qed

lemma tailLogFile_lines:
  assumes "tailLogFile m p n = Some ls"
  shows "length ls \<le> n \<and> list_all (list_all printable) ls"
proof -
  from assms obtain raw where "ls = map clean_line (last_lines n raw)"
    by (auto simp: tailLogFile_def Let_def split: option.splits if_splits)
  then show ?thesis using length_last_lines clean_line_printable by (simp add: list_all_iff)
qed

section \<open>Properties\<close>

text \<open>How many lines a request asks for.\<close>

definition lines_asked :: "request \<Rightarrow> nat" where
  "lines_asked r =
     (case atoi (query_get r ''n'') of (n, ok) \<Rightarrow> if query_get r ''n'' \<noteq> [] \<and> ok \<and> 1 \<le> n \<and> n \<le> 1000 then nat n else 100)"

text \<open>
  C40. Reading a log is confined: an answer is about a file directly in \<open>/var/log\<close> whose name has no separator and no dot, and depends on no other file. When
  the file does not change while it is read, the answer is its end: its last lines, as many as were asked for (100 unless a number from 1 to 1000 is given), fewer
  only when the file, or its last mebibyte, has fewer, each cleaned. No line holds a byte below \<open>0x20\<close> but the tab; \<open>DEL\<close> and the control characters above
  \<open>0x7F\<close> are let through.
\<close>

theorem log_tail_confined:
  assumes "LogsTailHandler m r = Inr (f, ls, k)" and "m_read m' (''/var/log/'' @ f) = m_read m (''/var/log/'' @ f)"
    and "m_size m' (''/var/log/'' @ f) = m_size m (''/var/log/'' @ f)"
  shows "LogsTailHandler m' r = Inr (f, ls, k) \<and> f = query_get r ''file'' \<and> f \<noteq> [] \<and>
    set f \<inter> {CHR ''/'', CHR ''.'', CHR 0x5C} = {} \<and> k = length ls \<and> k \<le> lines_asked r \<and> lines_asked r \<le> 1000 \<and>
    list_all (list_all printable) ls \<and>
    (\<exists>d. m_read m (''/var/log/'' @ f) = Some d \<and>
      (m_size m (''/var/log/'' @ f) = length d \<longrightarrow> (\<exists>raw. ls = map clean_line raw \<and> end_of_file (lines_asked r) d raw)))"
proof -
  let ?nStr = "query_get r ''n''" and ?p = "''/var/log/'' @ f"
  define n where "n = (if ?nStr \<noteq> [] \<and> snd (atoi ?nStr) then fst (atoi ?nStr) else 100)"
  have a: "req_method r = ''GET''" "f = query_get r ''file''" "f \<noteq> []"
    "\<not> list_ex (\<lambda>c. c = CHR ''/'' \<or> c = CHR ''.'' \<or> c = CHR 0x5C) f" "k = length ls"
    and t: "TailLogFile m ?p n = Some ls"
    using assms(1) unfolding LogsTailHandler_def Let_def n_def [symmetric] by (simp_all split: if_splits option.splits)
  have "TailLogFile m' ?p n = TailLogFile m ?p n"
    unfolding TailLogFile_def using tailLogFile_cong [OF assms(2,3)] by presburger
  then have c: "LogsTailHandler m' r = Inr (f, ls, k)"
    unfolding LogsTailHandler_def Let_def n_def [symmetric] using a t by simp
  have asked: "lines_asked r = (if n \<le> 0 \<or> 1000 < n then 100 else nat n)"
    by (cases "atoi ?nStr") (auto simp: lines_asked_def n_def)
  have n': "tailLogFile m ?p (lines_asked r) = Some ls"
    using t unfolding TailLogFile_def asked
    by (cases "isAllowedLogPath ?p") (simp_all only: not_True_eq_False not_False_eq_True if_True if_False option.distinct)
  have b: "lines_asked r \<le> 1000" "lines_asked r \<noteq> 0" by (auto simp: asked)
  obtain d where d: "m_read m ?p = Some d" using tailLogFile_read [OF n'] by blast
  have e: "m_size m ?p = length d \<longrightarrow> (\<exists>raw. ls = map clean_line raw \<and> end_of_file (lines_asked r) d raw)"
    using tailLogFile_end [OF d _ n' b(2)] by blast
  have dots: "set f \<inter> {CHR ''/'', CHR ''.'', CHR 0x5C} = {}" using a(4) by (auto simp: list_ex_iff)
  from tailLogFile_lines [OF n'] have l: "length ls \<le> lines_asked r" "list_all (list_all printable) ls" by blast+
  show ?thesis using c a(2,3,5) dots b(1) l d e by simp
qed

definition tail_request :: "string \<Rightarrow> request" where
  "tail_request f = (base_request ''GET'' ''/api/logs/tail'')\<lparr>query := [(''file'', f)]\<rparr>"

definition log_machine :: machine where
  "log_machine = bare_machine\<lparr>m_read := [''/var/log/messages'' \<mapsto> ''a'' @ [CHR 0x0A] @ ''b'' @ [CHR 0x1B] @ ''[31mc'' @ [CHR 0x0A]],
     m_size := \<lambda>_. 10\<rparr>"

theorem log_tail_confined_witness:
  "LogsTailHandler log_machine (tail_request ''messages'') = Inr (''messages'', [''a'', ''bc''], 2) \<and>
   (\<exists>d raw. m_read log_machine ''/var/log/messages'' = Some d \<and> [''a'', ''bc''] = map clean_line raw \<and> end_of_file 100 d raw)"
proof -
  have h: "LogsTailHandler log_machine (tail_request ''messages'') = Inr (''messages'', [''a'', ''bc''], 2)" by code_simp
  have n: "lines_asked (tail_request ''messages'') = 100" by code_simp
  let ?d = "''a'' @ [CHR 0x0A] @ ''b'' @ [CHR 0x1B] @ ''[31mc'' @ [CHR 0x0A]"
  have p: "''/var/log/'' @ ''messages'' = ''/var/log/messages''" by simp
  have r: "m_read log_machine ''/var/log/messages'' = Some ?d" by (simp add: log_machine_def)
  have z: "m_size log_machine ''/var/log/messages'' = length ?d" by (simp add: log_machine_def)
  from log_tail_confined [OF h refl refl, unfolded p n] r z
  have "\<exists>raw. [''a'', ''bc''] = map clean_line raw \<and> end_of_file 100 ?d raw" by simp
  then obtain raw where w: "[''a'', ''bc''] = map clean_line raw" "end_of_file 100 ?d raw" by (elim exE conjE)
  show ?thesis by (intro conjI exI) (rule h r w)+
qed

text \<open>
  Of the eight log files the list can offer, the four whose names have a dot can never be read: the reader refuses the name, whatever the machine holds.
\<close>

theorem dotted_logs_refused:
  "filter (\<lambda>p. CHR ''.'' \<in> set p) knownLogFiles = [''/var/log/kern.log'', ''/var/log/auth.log'', ''/var/log/daemon.log'', ''/var/log/lbu.log''] \<and>
   list_all (\<lambda>p. LogsTailHandler m (tail_request (trimPath p)) = Inl (sniffed_error ''invalid file name''))
     (filter (\<lambda>p. CHR ''.'' \<in> set p) knownLogFiles)"
proof -
  have f: "filter (\<lambda>p. CHR ''.'' \<in> set p) knownLogFiles = [''/var/log/kern.log'', ''/var/log/auth.log'', ''/var/log/daemon.log'', ''/var/log/lbu.log'']"
    by (simp add: knownLogFiles_def)
  show ?thesis unfolding f
    by (simp add: LogsTailHandler_def tail_request_def base_request_def query_get_def trimPath_def Let_def)
qed

end
