(* ===== verification/Services.thy ===== *)
theory Services
  imports SysInfo
begin

text \<open>
  The OpenRC services (\<open>sse/sysinfo.go\<close>): their runlevels, their state and the answer of the handler. The map of services is an association list
  in the order of insertion; its order does not matter since the services are sorted by their distinct names.
\<close>

section \<open>Services\<close>

datatype service_state = Started | Stopped | CrashedState | Inactive

definition state_name :: "service_state \<Rightarrow> string" where
  "state_name s = (case s of Started \<Rightarrow> ''started'' | Stopped \<Rightarrow> ''stopped'' | CrashedState \<Rightarrow> ''crashed'' | Inactive \<Rightarrow> ''inactive'')"

record openrc_service =
  svc_name :: string
  svc_state :: service_state
  svc_runlevels :: "string list"
  svc_supervised :: bool

type_synonym runlevel_map = "(string \<times> string list) list"

definition enable :: "string \<Rightarrow> dir_entry \<Rightarrow> runlevel_map \<Rightarrow> runlevel_map" where
  "enable lvl e rl =
     (let old = (case map_of rl (entry_name e) of None \<Rightarrow> [] | Some ls \<Rightarrow> ls) in put (entry_name e) (old @ [lvl]) rl)"

definition read_level :: "machine \<Rightarrow> dir_entry \<Rightarrow> runlevel_map \<Rightarrow> runlevel_map" where
  "read_level m lvl rl =
     (if \<not> entry_dir lvl then rl
      else fold (enable (entry_name lvl)) (dir_or_empty m (''/etc/runlevels/'' @ entry_name lvl)) rl)"

definition add_init :: "dir_entry \<Rightarrow> runlevel_map \<Rightarrow> runlevel_map" where
  "add_init e rl =
     (if has_prefix (entry_name e) ''.'' then rl
      else case map_of rl (entry_name e) of Some _ \<Rightarrow> rl | None \<Rightarrow> put (entry_name e) [] rl)"

definition svcRunlevels :: "machine \<Rightarrow> runlevel_map" where
  "svcRunlevels m = fold add_init (dir_or_empty m ''/etc/init.d'') (fold (read_level m) (dir_or_empty m ''/etc/runlevels'') [])"

definition listed :: "machine \<Rightarrow> string \<Rightarrow> string \<Rightarrow> bool" where
  "listed m dir name \<longleftrightarrow> name \<in> entry_name ` set (dir_or_empty m dir)"

definition service_of :: "machine \<Rightarrow> string \<times> string list \<Rightarrow> openrc_service" where
  "service_of m x =
     (case x of (name, runlevels) \<Rightarrow>
        \<lparr>svc_name = name,
         svc_state =
           (if listed m ''/run/openrc/failed'' name then CrashedState
            else if listed m ''/run/openrc/started'' name then Started
            else if runlevels \<noteq> [] then Stopped
            else Inactive),
         svc_runlevels = exchange_sort str_less runlevels,
         svc_supervised = listed m ''/run/openrc/started'' name\<rparr>)"

definition CollectOpenRCServices :: "machine \<Rightarrow> openrc_service list" where
  "CollectOpenRCServices m =
     exchange_sort (\<lambda>a b. str_less (svc_name a) (svc_name b)) (map (service_of m) (svcRunlevels m))"

section \<open>The handler\<close>

definition filter_state :: "string \<Rightarrow> openrc_service list \<Rightarrow> openrc_service list" where
  "filter_state f ss = (if f \<noteq> [] then filter (\<lambda>s. state_name (svc_state s) = f) ss else ss)"

definition filter_level :: "string \<Rightarrow> openrc_service list \<Rightarrow> openrc_service list" where
  "filter_level f ss = (if f \<noteq> [] then filter (\<lambda>s. f \<in> set (svc_runlevels s)) ss else ss)"

record service_stats =
  n_started :: nat
  n_stopped :: nat
  n_crashed :: nat
  n_inactive :: nat

definition count_service :: "openrc_service \<Rightarrow> service_stats \<Rightarrow> service_stats" where
  "count_service s st =
     (case svc_state s of
        Started \<Rightarrow> st\<lparr>n_started := Suc (n_started st)\<rparr>
      | Stopped \<Rightarrow> st\<lparr>n_stopped := Suc (n_stopped st)\<rparr>
      | CrashedState \<Rightarrow> st\<lparr>n_crashed := Suc (n_crashed st)\<rparr>
      | Inactive \<Rightarrow> st\<lparr>n_inactive := Suc (n_inactive st)\<rparr>)"

text \<open>Count, statistics, services.\<close>

definition ServicesHandler :: "machine \<Rightarrow> request \<Rightarrow> response + nat \<times> service_stats \<times> openrc_service list" where
  "ServicesHandler m r =
     (if req_method r \<noteq> ''GET'' then Inl method_not_allowed
      else
        let ss = filter_level (query_get r ''runlevel'') (filter_state (query_get r ''state'') (CollectOpenRCServices m))
        in Inr (length ss, fold count_service ss \<lparr>n_started = 0, n_stopped = 0, n_crashed = 0, n_inactive = 0\<rparr>, ss))"

section \<open>Facts\<close>

lemma put_keys: "fst ` set (put k v m) = insert k (fst ` set m)"
  by (induction k v m rule: put.induct) auto

lemma put_distinct: "distinct (map fst m) \<Longrightarrow> distinct (map fst (put k v m))"
proof (induction k v m rule: put.induct)
  case (2 k v k' v' m)
  have "k' \<notin> fst ` set (put k v m)" if "k \<noteq> k'" using 2(2) that by (simp add: put_keys)
  with 2 show ?case by simp
qed simp

lemma enable_keys:
  "fst ` set (enable l e rl) = insert (entry_name e) (fst ` set rl)" "distinct (map fst rl) \<Longrightarrow> distinct (map fst (enable l e rl))"
  by (simp_all add: enable_def Let_def put_keys put_distinct)

lemma fold_enable_keys:
  "fst ` set (fold (enable l) es rl) = entry_name ` set es \<union> fst ` set rl"
  "distinct (map fst rl) \<Longrightarrow> distinct (map fst (fold (enable l) es rl))"
  by (induction es arbitrary: rl) (simp_all add: enable_keys)

lemma map_of_known: "map_of m k \<noteq> None \<longleftrightarrow> k \<in> fst ` set m"
  by (simp add: map_of_eq_None_iff)

lemma add_init_keys:
  "fst ` set (add_init e rl) = (if has_prefix (entry_name e) ''.'' then fst ` set rl else insert (entry_name e) (fst ` set rl))"
  "distinct (map fst rl) \<Longrightarrow> distinct (map fst (add_init e rl))"
  using map_of_known [of rl "entry_name e"] by (auto simp: add_init_def put_keys put_distinct split: option.split)

lemma fold_add_init_keys:
  "fst ` set (fold add_init es rl) = {n \<in> entry_name ` set es. \<not> has_prefix n ''.''} \<union> fst ` set rl"
  "distinct (map fst rl) \<Longrightarrow> distinct (map fst (fold add_init es rl))"
  by (induction es arbitrary: rl) (auto simp: add_init_keys)

lemma read_level_keys:
  "fst ` set (read_level m l rl) =
     (if entry_dir l then entry_name ` set (dir_or_empty m (''/etc/runlevels/'' @ entry_name l)) else {}) \<union> fst ` set rl"
  "distinct (map fst rl) \<Longrightarrow> distinct (map fst (read_level m l rl))"
  by (simp_all add: read_level_def fold_enable_keys)

lemma distinct_svcRunlevels: "distinct (map fst (svcRunlevels m))"
proof -
  have "distinct (map fst (fold (read_level m) ls rl))" if "distinct (map fst rl)" for ls rl
    using that by (induction ls arbitrary: rl) (simp_all add: read_level_keys)
  from this [of "[]"] show ?thesis by (simp add: svcRunlevels_def fold_add_init_keys)
qed

text \<open>Where a service can come from.\<close>

definition known_service :: "machine \<Rightarrow> string \<Rightarrow> bool" where
  "known_service m n \<longleftrightarrow>
     n \<in> entry_name ` set (dir_or_empty m ''/etc/init.d'') \<and> \<not> has_prefix n ''.'' \<or>
     list_ex (\<lambda>l. entry_dir l \<and> n \<in> entry_name ` set (dir_or_empty m (''/etc/runlevels/'' @ entry_name l)))
       (dir_or_empty m ''/etc/runlevels'')"

lemma svcRunlevels_keys: "n \<in> fst ` set (svcRunlevels m) \<longleftrightarrow> known_service m n"
proof -
  have "n \<in> fst ` set (fold (read_level m) ls rl) \<longleftrightarrow>
      list_ex (\<lambda>l. entry_dir l \<and> n \<in> entry_name ` set (dir_or_empty m (''/etc/runlevels/'' @ entry_name l))) ls \<or> n \<in> fst ` set rl" for ls rl
    by (induction ls arbitrary: rl) (auto simp: read_level_keys)
  then show ?thesis unfolding svcRunlevels_def fold_add_init_keys known_service_def by simp
qed

definition by_name :: "openrc_service \<Rightarrow> openrc_service \<Rightarrow> bool" where
  "by_name a b \<longleftrightarrow> str_less (svc_name a) (svc_name b)"

interpretation services: weak_order by_name UNIV
proof
  show "by_name a b \<Longrightarrow> \<not> by_name b a" for a b
    unfolding by_name_def by (rule strings.asym [OF UNIV_I UNIV_I])
  show "\<not> by_name b a \<Longrightarrow> \<not> by_name c b \<Longrightarrow> \<not> by_name c a" for a b c
    unfolding by_name_def by (rule strings.ntrans [OF UNIV_I UNIV_I UNIV_I])
qed

lemma sorted_wrt_neq: "sorted_wrt (\<lambda>a b. f a \<noteq> f b) xs \<longleftrightarrow> distinct (map f xs)"
  by (induction xs) auto

lemma CollectOpenRCServices_by_name: "CollectOpenRCServices m = exchange_sort by_name (map (service_of m) (svcRunlevels m))"
proof -
  have "(\<lambda>a b. str_less (svc_name a) (svc_name b)) = by_name" by (intro ext) (simp add: by_name_def)
  then show ?thesis by (simp add: CollectOpenRCServices_def)
qed

lemma service_of_name [simp]: "svc_name (service_of m x) = fst x"
  by (cases x) (simp add: service_of_def)

lemma count_services:
  "n_started (fold count_service ss st) + n_stopped (fold count_service ss st) + n_crashed (fold count_service ss st) +
     n_inactive (fold count_service ss st) =
   n_started st + n_stopped st + n_crashed st + n_inactive st + length ss"
  by (induction ss arbitrary: st) (auto simp: count_service_def split: service_state.splits)

section \<open>Properties\<close>

text \<open>
  The list of services is complete and in order: it is strictly sorted by name, so that no service is listed twice, and a name is listed exactly if it is in \<open>/etc/init.d\<close>
  and not hidden, or enabled in a runlevel.
\<close>

theorem services_complete:
  "sorted_wrt (\<lambda>a b. str_less (svc_name a) (svc_name b)) (CollectOpenRCServices m) \<and>
   (n \<in> svc_name ` set (CollectOpenRCServices m) \<longleftrightarrow> known_service m n)"
proof -
  let ?ss = "CollectOpenRCServices m"
  have s: "set ?ss = service_of m ` set (svcRunlevels m)" by (simp add: CollectOpenRCServices_by_name)
  have "mset (map svc_name ?ss) = mset (map fst (svcRunlevels m))"
    by (simp add: CollectOpenRCServices_by_name multiset.map_comp comp_def)
  then have "distinct (map svc_name ?ss)" using distinct_svcRunlevels by (metis mset_eq_imp_distinct_iff)
  then have d: "sorted_wrt (\<lambda>a b. svc_name a \<noteq> svc_name b) ?ss" unfolding sorted_wrt_neq .
  have "sorted_wrt (\<lambda>a b. \<not> str_less (svc_name b) (svc_name a)) ?ss"
    using services.ordered_exchange_sort [of "map (service_of m) (svcRunlevels m)"]
    by (simp add: CollectOpenRCServices_by_name by_name_def)
  with d have "sorted_wrt (\<lambda>a b. svc_name a \<noteq> svc_name b \<and> \<not> str_less (svc_name b) (svc_name a)) ?ss"
    by (simp add: sorted_wrt_iff_nth_less)
  then have "sorted_wrt (\<lambda>a b. str_less (svc_name a) (svc_name b)) ?ss"
    by (rule sorted_wrt_mono_rel [rotated]) (use str_less_total in blast)
  moreover have "n \<in> svc_name ` set ?ss \<longleftrightarrow> known_service m n"
    unfolding s image_image service_of_name svcRunlevels_keys ..
  ultimately show ?thesis by blast
qed

text \<open>
  The statistics of the services add up: whatever the filters, the counts of the four states sum to the number of services in the answer, and every service in it has the
  state and the runlevel that were asked for.
\<close>

theorem service_stats_add_up:
  assumes "ServicesHandler m r = Inr (n, st, ss)"
  shows "n_started st + n_stopped st + n_crashed st + n_inactive st = n \<and> n = length ss \<and>
    list_all (\<lambda>s. (query_get r ''state'' = [] \<or> state_name (svc_state s) = query_get r ''state'') \<and>
      (query_get r ''runlevel'' = [] \<or> query_get r ''runlevel'' \<in> set (svc_runlevels s))) ss"
  using assms
  by (auto simp: ServicesHandler_def Let_def count_services list_all_iff filter_level_def filter_state_def split: if_splits)

theorem service_stats_add_up_witness:
  "\<exists>n st ss. ServicesHandler (bare_machine\<lparr>m_dir := [''/etc/init.d'' \<mapsto> [\<lparr>entry_name = ''sshd'', entry_dir = False, entry_info = None\<rparr>]]\<rparr>)
     (base_request ''GET'' ''/api/services'') = Inr (n, st, ss) \<and> n_started st + n_stopped st + n_crashed st + n_inactive st = n"
proof -
  let ?m = "bare_machine\<lparr>m_dir := [''/etc/init.d'' \<mapsto> [\<lparr>entry_name = ''sshd'', entry_dir = False, entry_info = None\<rparr>]]\<rparr>"
  let ?r = "base_request ''GET'' ''/api/services''"
  obtain n st ss where "ServicesHandler ?m ?r = Inr (n, st, ss)"
    by (simp add: ServicesHandler_def Let_def base_request_def)
  with service_stats_add_up [OF this] show ?thesis by blast
qed

end
