(* ===== verification/Security.thy ===== *)
theory Security
  imports Services
begin

text \<open>
  The security report (\<open>sse/security.go\<close>): kernel settings, the permissions of the user file, watched services and processes, and the TCP ports that listen.
\<close>

section \<open>Checks\<close>

datatype sec_status = OK | Warn | Critical | Unknown

record security_check =
  chk_key :: string
  chk_label :: string
  chk_category :: string
  chk_status :: sec_status
  chk_detail :: string

definition check :: "string \<Rightarrow> string \<Rightarrow> string \<Rightarrow> sec_status \<times> string \<Rightarrow> security_check" where
  "check k l c sd = \<lparr>chk_key = k, chk_label = l, chk_category = c, chk_status = fst sd, chk_detail = snd sd\<rparr>"

definition sysctlCheck ::
  "machine \<Rightarrow> string \<Rightarrow> string \<Rightarrow> string \<Rightarrow> string \<Rightarrow> (string \<Rightarrow> sec_status \<times> string) \<Rightarrow> security_check" where
  "sysctlCheck m k l c p eval =
     (let v = trim_space (readFirstFile m [p])
      in check k l c (if v = [] then (Unknown, ''Not exposed by this kernel'') else eval v))"

text \<open>\<open>os.FileMode.String\<close> of permission bits.\<close>

definition mode_string :: "nat \<Rightarrow> string" where
  "mode_string mode =
     ''-'' @ map (\<lambda>(i, c). if odd (mode div 2 ^ (8 - i)) then c else CHR ''-'') (enumerate 0 ''rwxrwxrwx'')"

definition group_or_other :: "nat \<Rightarrow> bool" where
  "group_or_other mode \<longleftrightarrow> mode mod 64 \<noteq> 0"

definition fileModeCheck :: "machine \<Rightarrow> string \<Rightarrow> string \<Rightarrow> string \<Rightarrow> string \<Rightarrow> security_check" where
  "fileModeCheck m k l c p =
     check k l c
       (if \<not> fileExists m p then (Unknown, ''File not found from current working directory'')
        else if group_or_other (m_mode m p) then
          (Warn, ''File is readable or writable by group/other: '' @ mode_string (m_mode m p mod 512))
        else (OK, ''Restricted permissions: '' @ mode_string (m_mode m p mod 512)))"

definition sec_atoi :: "string \<Rightarrow> int" where
  "sec_atoi s = fst (atoi (trim_space s))"

definition eval_aslr :: "string \<Rightarrow> sec_status \<times> string" where
  "eval_aslr v =
     (if v = ''2'' then (OK, ''Full address space randomization enabled'')
      else if v = ''1'' then (Warn, ''Partial address space randomization'')
      else (Critical, ''Address space randomization disabled''))"

definition eval_kptr :: "string \<Rightarrow> sec_status \<times> string" where
  "eval_kptr v = (if 1 \<le> sec_atoi v then (OK, ''Kernel pointers are restricted'')
                  else (Warn, ''Kernel pointers may be exposed to userspace''))"

definition eval_dmesg :: "string \<Rightarrow> sec_status \<times> string" where
  "eval_dmesg v = (if v = ''1'' then (OK, ''Unprivileged dmesg access is restricted'')
                   else (Warn, ''Unprivileged users may read kernel logs''))"

definition eval_bpf :: "string \<Rightarrow> sec_status \<times> string" where
  "eval_bpf v = (if 1 \<le> sec_atoi v then (OK, ''Unprivileged BPF is disabled'') else (Warn, ''Unprivileged BPF is enabled''))"

definition eval_forward :: "string \<Rightarrow> string \<Rightarrow> sec_status \<times> string" where
  "eval_forward ip v = (if v = ''0'' then (OK, ip @ '' forwarding disabled'') else (Warn, ip @ '' forwarding enabled''))"

definition static_checks :: "machine \<Rightarrow> security_check list" where
  "static_checks m =
     [sysctlCheck m ''aslr'' ''ASLR'' ''kernel'' ''/proc/sys/kernel/randomize_va_space'' eval_aslr,
      sysctlCheck m ''kptr_restrict'' ''Kernel pointer restriction'' ''kernel'' ''/proc/sys/kernel/kptr_restrict'' eval_kptr,
      sysctlCheck m ''dmesg_restrict'' ''Dmesg restriction'' ''kernel'' ''/proc/sys/kernel/dmesg_restrict'' eval_dmesg,
      sysctlCheck m ''unpriv_bpf'' ''Unprivileged BPF'' ''kernel'' ''/proc/sys/kernel/unprivileged_bpf_disabled'' eval_bpf,
      sysctlCheck m ''ipv4_forward'' ''IPv4 forwarding'' ''network'' ''/proc/sys/net/ipv4/ip_forward'' (eval_forward ''IPv4''),
      sysctlCheck m ''ipv6_forward'' ''IPv6 forwarding'' ''network'' ''/proc/sys/net/ipv6/conf/all/forwarding'' (eval_forward ''IPv6''),
      fileModeCheck m ''users_file'' ''Users file permissions'' ''auth'' ''settings/users.json'']"

definition failed_services :: "machine \<Rightarrow> nat" where
  "failed_services m = length (filter (\<lambda>s. svc_state s = CrashedState) (CollectOpenRCServices m))"

definition failedServicesCheck :: "machine \<Rightarrow> security_check" where
  "failedServicesCheck m =
     check ''openrc_failed'' ''OpenRC failed services'' ''services''
       (if 0 < failed_services m then (Critical, itoa (int (failed_services m)) @ '' failed service(s)'')
        else (OK, ''No failed services reported by OpenRC''))"

section \<open>Services\<close>

record security_service =
  ss_name :: string
  ss_state :: string
  ss_status :: sec_status
  ss_critical :: bool
  ss_runlevels :: "string list"
  ss_detail :: string

definition watched :: "(string \<times> bool) list" where
  "watched =
     [(''sshd'', True), (''dropbear'', True), (''nftables'', True), (''iptables'', True), (''ip6tables'', True), (''auditd'', True),
      (''chronyd'', False), (''syslog'', False), (''rsyslog'', False), (''crond'', False), (''acpid'', False)]"

definition security_service_of :: "openrc_service list \<Rightarrow> string \<times> bool \<Rightarrow> security_service" where
  "security_service_of services x =
     (case x of (name, crit) \<Rightarrow>
        case List.find (\<lambda>s. svc_name s = name) services of
          None \<Rightarrow> \<lparr>ss_name = name, ss_state = ''absent'', ss_status = (if crit then Warn else Unknown), ss_critical = crit,
                   ss_runlevels = [], ss_detail = ''OpenRC service not installed''\<rparr>
        | Some svc \<Rightarrow>
            \<lparr>ss_name = name, ss_state = state_name (svc_state svc),
             ss_status = (if svc_state svc = CrashedState then Critical
                          else if crit \<and> svc_state svc \<noteq> Started then Warn else OK),
             ss_critical = crit, ss_runlevels = svc_runlevels svc,
             ss_detail = ''OpenRC state: '' @ state_name (svc_state svc)\<rparr>)"

definition collectSecurityServices :: "machine \<Rightarrow> security_service list" where
  "collectSecurityServices m =
     insertion_sort (\<lambda>a b. str_less (ss_name a) (ss_name b))
       (map (security_service_of (CollectOpenRCServices m)) watched)"

section \<open>Processes\<close>

record security_process =
  sp_name :: string
  sp_count :: nat
  sp_status :: sec_status
  sp_pids :: "int list"
  sp_detail :: string

definition sec_targets :: "string list" where
  "sec_targets = [''unyport'', ''sshd'', ''dropbear'', ''xenstored'', ''xenconsoled'', ''qemu-system'', ''dnsmasq'', ''dockerd'', ''containerd'']"

text \<open>The number of a directory entry's process if it matches the target.\<close>

definition match_process :: "machine \<Rightarrow> string \<Rightarrow> dir_entry \<Rightarrow> int option" where
  "match_process m target e =
     (case atoi (entry_name e) of (pid, ok) \<Rightarrow>
        let base = ''/proc/'' @ entry_name e;
            comm = trim_space (readFirstFile m [base @ ''/comm'']);
            cmd = trim_space (replace_byte CHR 0x00 CHR '' '' (readFirstFile m [base @ ''/cmdline'']))
        in if ok \<and> (comm = target \<or> contains comm target \<or> contains cmd target) then Some pid else None)"

definition scanProcesses :: "machine \<Rightarrow> string \<Rightarrow> int list" where
  "scanProcesses m target = sort (List.map_filter (match_process m target) (dir_or_empty m ''/proc''))"

definition security_process_of :: "machine \<Rightarrow> string \<Rightarrow> security_process" where
  "security_process_of m name =
     (let pids = scanProcesses m name
      in \<lparr>sp_name = name, sp_count = length pids, sp_status = (if pids \<noteq> [] then OK else Unknown), sp_pids = pids,
          sp_detail = (if pids \<noteq> [] then itoa (int (length pids)) @ '' process(es)'' else ''Not running'')\<rparr>)"

definition collectSecurityProcesses :: "machine \<Rightarrow> security_process list" where
  "collectSecurityProcesses m = map (security_process_of m) sec_targets"

section \<open>Listeners\<close>

record security_listener =
  sl_proto :: string
  sl_port :: int
  sl_status :: sec_status
  sl_detail :: string

text \<open>The port of one line of \<open>/proc/net/tcp\<close> in the state LISTEN.\<close>

definition listen_port :: "string \<Rightarrow> int option" where
  "listen_port line =
     (let fs = GoPrelude.fields line; ps = split_on CHR '':'' (fs ! 1)
      in if length fs < 4 then None
         else if fs ! 3 \<noteq> ''0A'' then None
         else if length ps \<noteq> 2 then None
         else case parse_int 16 32 (ps ! 1) of (p, ok) \<Rightarrow> if ok then Some p else None)"

definition tcp_listener :: "string \<Rightarrow> int \<Rightarrow> security_listener" where
  "tcp_listener proto port =
     \<lparr>sl_proto = proto, sl_port = port, sl_status = (if port \<le> 1024 then Warn else OK),
      sl_detail = (if port \<le> 1024 then ''Privileged TCP port exposed'' else ''Listening TCP port'')\<rparr>"

definition add_port :: "int \<Rightarrow> int list \<Rightarrow> int list" where
  "add_port p seen = (if p \<in> set seen then seen else seen @ [p])"

definition parseTCPListeners :: "machine \<Rightarrow> string \<Rightarrow> string \<Rightarrow> security_listener list" where
  "parseTCPListeners m p proto =
     (case m_read m p of
        None \<Rightarrow> []
      | Some d \<Rightarrow> map (tcp_listener proto) (fold add_port (List.map_filter listen_port (tl (lines_of d))) []))"

definition listener_less :: "security_listener \<Rightarrow> security_listener \<Rightarrow> bool" where
  "listener_less a b = (if sl_port a \<noteq> sl_port b then sl_port a < sl_port b else str_less (sl_proto a) (sl_proto b))"

definition collectSecurityListeners :: "machine \<Rightarrow> security_listener list" where
  "collectSecurityListeners m =
     insertion_sort listener_less (parseTCPListeners m ''/proc/net/tcp'' ''tcp4'' @ parseTCPListeners m ''/proc/net/tcp6'' ''tcp6'')"

definition listenerExposureCheck :: "security_listener list \<Rightarrow> security_check" where
  "listenerExposureCheck ls =
     (let privileged = length (filter (\<lambda>l. sl_port l \<le> 1024) ls)
      in check ''listening_ports'' ''Listening TCP ports'' ''network''
           (if 0 < privileged then (Warn, itoa (int privileged) @ '' privileged TCP listener(s)'')
            else (OK, itoa (int (length ls)) @ '' TCP listener(s), none privileged'')))"

section \<open>The report\<close>

record security_summary =
  sum_ok :: nat
  sum_warn :: nat
  sum_critical :: nat
  sum_unknown :: nat

definition addSecurityStatus :: "sec_status \<Rightarrow> security_summary \<Rightarrow> security_summary" where
  "addSecurityStatus st s =
     (case st of
        OK \<Rightarrow> s\<lparr>sum_ok := Suc (sum_ok s)\<rparr>
      | Warn \<Rightarrow> s\<lparr>sum_warn := Suc (sum_warn s)\<rparr>
      | Critical \<Rightarrow> s\<lparr>sum_critical := Suc (sum_critical s)\<rparr>
      | Unknown \<Rightarrow> s\<lparr>sum_unknown := Suc (sum_unknown s)\<rparr>)"

record security_report =
  sec_summary :: security_summary
  sec_checks :: "security_check list"
  sec_services :: "security_service list"
  sec_processes :: "security_process list"
  sec_listeners :: "security_listener list"

definition CollectSecurityStatus :: "machine \<Rightarrow> security_report" where
  "CollectSecurityStatus m =
     (let services = collectSecurityServices m; listeners = collectSecurityListeners m;
          checks = static_checks m @ [failedServicesCheck m] @ [listenerExposureCheck listeners]
      in \<lparr>sec_summary = fold addSecurityStatus (map chk_status checks @ map ss_status (filter ss_critical services))
            \<lparr>sum_ok = 0, sum_warn = 0, sum_critical = 0, sum_unknown = 0\<rparr>,
          sec_checks = checks, sec_services = services, sec_processes = collectSecurityProcesses m, sec_listeners = listeners\<rparr>)"

definition SecurityHandler :: "machine \<Rightarrow> request \<Rightarrow> response + security_report" where
  "SecurityHandler m r = (if req_method r \<noteq> ''GET'' then Inl method_not_allowed else Inr (CollectSecurityStatus m))"

section \<open>Facts\<close>

lemma summary_counts:
  "sum_ok (fold addSecurityStatus ss s) = sum_ok s + count_list ss OK"
  "sum_warn (fold addSecurityStatus ss s) = sum_warn s + count_list ss Warn"
  "sum_critical (fold addSecurityStatus ss s) = sum_critical s + count_list ss Critical"
  "sum_unknown (fold addSecurityStatus ss s) = sum_unknown s + count_list ss Unknown"
  by (induction ss arbitrary: s) (auto simp: addSecurityStatus_def split: sec_status.splits)

lemma count_status: "count_list ss OK + count_list ss Warn + count_list ss Critical + count_list ss Unknown = length ss"
  by (induction ss) (auto, metis sec_status.exhaust)

lemma critical_services:
  "mset (map ss_status (filter ss_critical (collectSecurityServices m))) =
   mset (map (\<lambda>x. ss_status (security_service_of (CollectOpenRCServices m) x)) (filter snd watched))"
proof -
  have c: "ss_critical (security_service_of sv x) = snd x" for sv x
    by (auto simp: security_service_of_def split: prod.splits option.splits)
  have "filter_mset ss_critical (mset (collectSecurityServices m)) =
      filter_mset ss_critical (mset (map (security_service_of (CollectOpenRCServices m)) watched))"
    by (simp add: collectSecurityServices_def)
  then have "mset (filter ss_critical (collectSecurityServices m)) =
      mset (map (security_service_of (CollectOpenRCServices m)) (filter snd watched))"
    by (simp only: mset_filter [symmetric] filter_map comp_def c)
  then show ?thesis by (metis (no_types, lifting) image_mset.compositionality mset_map comp_def multiset.map_cong0)
qed

lemma distinct_add_ports: "distinct seen \<Longrightarrow> distinct (fold add_port ps seen)"
  by (induction ps arbitrary: seen) (simp_all add: add_port_def)

interpretation listeners: weak_order listener_less UNIV
proof
  show "listener_less a b \<Longrightarrow> \<not> listener_less b a" for a b
    using strings.asym [OF UNIV_I UNIV_I, of "sl_proto a" "sl_proto b"] by (auto simp: listener_less_def split: if_splits)
  show "\<not> listener_less b a \<Longrightarrow> \<not> listener_less c b \<Longrightarrow> \<not> listener_less c a" for a b c
    using strings.ntrans [OF UNIV_I UNIV_I UNIV_I, of "sl_proto b" "sl_proto a" "sl_proto c"]
    by (auto simp: listener_less_def split: if_splits)
qed

lemma count_list_append_mset: "count_list xs x = count (mset xs) x"
  by (induction xs) simp_all

lemma check_simps [simp]: "chk_status (check k l c sd) = fst sd"
  by (simp add: check_def)

lemma never_critical [simp]:
  "fst (eval_kptr v) \<noteq> Critical" "fst (eval_dmesg v) \<noteq> Critical" "fst (eval_bpf v) \<noteq> Critical"
  "fst (eval_forward ip v) \<noteq> Critical"
  by (simp_all add: eval_kptr_def eval_dmesg_def eval_bpf_def eval_forward_def)

lemma sysctl_not_critical: "(\<And>v. fst (ev v) \<noteq> Critical) \<Longrightarrow> chk_status (sysctlCheck m k l c p ev) \<noteq> Critical"
  by (simp add: sysctlCheck_def Let_def)

lemma file_mode_not_critical: "chk_status (fileModeCheck m k l c p) \<noteq> Critical"
  by (simp add: fileModeCheck_def)

definition aslr_value :: "machine \<Rightarrow> string" where
  "aslr_value m = trim_space (readFirstFile m [''/proc/sys/kernel/randomize_va_space''])"

lemma aslr_critical:
  "chk_status (sysctlCheck m k l c ''/proc/sys/kernel/randomize_va_space'' eval_aslr) = Critical \<longleftrightarrow>
     aslr_value m \<notin> {[], ''1'', ''2''}"
  by (simp add: sysctlCheck_def Let_def aslr_value_def eval_aslr_def)

lemma static_critical:
  "count_list (map chk_status (static_checks m)) Critical = (if aslr_value m \<in> {[], ''1'', ''2''} then 0 else 1)"
  unfolding static_checks_def list.map count_list.simps
  using sysctl_not_critical file_mode_not_critical aslr_critical by auto

definition crashed_service :: "machine \<Rightarrow> string \<Rightarrow> bool" where
  "crashed_service m name = (case List.find (\<lambda>s. svc_name s = name) (CollectOpenRCServices m) of
     None \<Rightarrow> False | Some svc \<Rightarrow> svc_state svc = CrashedState)"

lemma service_critical: "ss_status (security_service_of (CollectOpenRCServices m) (n, c)) = Critical \<longleftrightarrow> crashed_service m n"
  by (auto simp: security_service_of_def crashed_service_def split: option.splits)

lemma services_critical:
  "count_list (map ss_status (filter ss_critical (collectSecurityServices m))) Critical =
     length (filter (crashed_service m) (map fst (filter snd watched)))"
proof -
  have "count_list (map ss_status (filter ss_critical (collectSecurityServices m))) Critical =
      count_list (map (\<lambda>x. ss_status (security_service_of (CollectOpenRCServices m) x)) (filter snd watched)) Critical"
    unfolding count_list_append_mset critical_services ..
  also have "\<dots> = length (filter (crashed_service m) (map fst ws))" if "ws = filter snd watched" for ws
    unfolding that [symmetric] by (induction ws) (auto simp: service_critical)
  finally show ?thesis by simp
qed

section \<open>Properties\<close>

text \<open>
  The summary of the security report counts every check and every critical service once, fifteen in all, and what it counts as critical is disabled address
  randomisation, a crashed service, and each critical service that crashed.
\<close>

theorem security_summary_counts:
  "(let s = sec_summary (CollectSecurityStatus m) in
     sum_ok s + sum_warn s + sum_critical s + sum_unknown s = 15 \<and>
     sum_critical s = (if aslr_value m \<in> {[], ''1'', ''2''} then 0 else 1) + (if 0 < failed_services m then 1 else 0) +
       length (filter (crashed_service m) [''sshd'', ''dropbear'', ''nftables'', ''iptables'', ''ip6tables'', ''auditd'']))"
proof -
  let ?checks = "static_checks m @ [failedServicesCheck m] @ [listenerExposureCheck (collectSecurityListeners m)]"
  let ?svc = "map ss_status (filter ss_critical (collectSecurityServices m))"
  let ?all = "map chk_status ?checks @ ?svc"
  have w: "map fst (filter snd watched) = [''sshd'', ''dropbear'', ''nftables'', ''iptables'', ''ip6tables'', ''auditd'']"
    by (simp add: watched_def)
  have "length (filter snd watched) = 6" by (simp add: watched_def)
  moreover have "length ?svc = length (map (\<lambda>x. ss_status (security_service_of (CollectOpenRCServices m) x)) (filter snd watched))"
    by (metis critical_services size_mset)
  ultimately have "length ?svc = 6" by simp
  moreover have "length (static_checks m) = 7" by (simp add: static_checks_def)
  ultimately have "length ?all = 15" by simp
  moreover have "chk_status (listenerExposureCheck ls) \<noteq> Critical" for ls by (simp add: listenerExposureCheck_def Let_def)
  then have "count_list ?all Critical = (if aslr_value m \<in> {[], ''1'', ''2''} then 0 else 1) +
      (if 0 < failed_services m then 1 else 0) + length (filter (crashed_service m) (map fst (filter snd watched)))"
    by (simp add: static_critical services_critical failedServicesCheck_def)
  moreover have e: "sec_summary (CollectSecurityStatus m) =
      fold addSecurityStatus ?all \<lparr>sum_ok = 0, sum_warn = 0, sum_critical = 0, sum_unknown = 0\<rparr>"
    by (simp only: CollectSecurityStatus_def Let_def security_report.simps)
  ultimately show ?thesis
    using count_status [of ?all] unfolding Let_def e summary_counts w
    by (simp only: security_summary.simps add_0)
qed

text \<open>
  The listeners are in order of their ports, no port of one protocol is listed twice, and the exposure check warns exactly if one of them is privileged.
\<close>

theorem listeners_ordered:
  "sorted (map sl_port (collectSecurityListeners m)) \<and>
   distinct (map (\<lambda>l. (sl_proto l, sl_port l)) (collectSecurityListeners m)) \<and>
   chk_status (listenerExposureCheck (collectSecurityListeners m)) =
     (if list_ex (\<lambda>l. sl_port l \<le> 1024) (collectSecurityListeners m) then Warn else OK)"
proof -
  let ?ls = "collectSecurityListeners m"
  have "sorted_wrt (\<lambda>a b. \<not> listener_less b a) ?ls"
    unfolding collectSecurityListeners_def by (rule listeners.ordered_insertion_sort) simp
  then have s: "sorted (map sl_port ?ls)"
    unfolding sorted_map by (rule sorted_wrt_mono_rel [rotated]) (auto simp: listener_less_def split: if_splits)
  have p: "\<exists>ps. parseTCPListeners m p proto = map (tcp_listener proto) ps \<and> distinct ps" for p proto
    using distinct_add_ports [of "[]"] by (auto simp: parseTCPListeners_def split: option.splits intro: exI [of _ "[]"])
  obtain ps where ps: "parseTCPListeners m ''/proc/net/tcp'' ''tcp4'' = map (tcp_listener ''tcp4'') ps" "distinct ps" using p by blast
  obtain qs where qs: "parseTCPListeners m ''/proc/net/tcp6'' ''tcp6'' = map (tcp_listener ''tcp6'') qs" "distinct qs" using p by blast
  have "distinct (map (\<lambda>l. (sl_proto l, sl_port l)) (map (tcp_listener ''tcp4'') ps @ map (tcp_listener ''tcp6'') qs))"
    using ps(2) qs(2) by (auto simp: tcp_listener_def distinct_map inj_on_def)
  moreover have "mset (map (\<lambda>l. (sl_proto l, sl_port l)) ?ls) =
      mset (map (\<lambda>l. (sl_proto l, sl_port l)) (map (tcp_listener ''tcp4'') ps @ map (tcp_listener ''tcp6'') qs))"
    by (simp only: mset_map collectSecurityListeners_def mset_insertion_sort ps qs)
  ultimately have d: "distinct (map (\<lambda>l. (sl_proto l, sl_port l)) ?ls)"
    by (simp only: mset_eq_imp_distinct_iff [of "map (\<lambda>l. (sl_proto l, sl_port l)) ?ls"])
  have "chk_status (listenerExposureCheck ls) = (if list_ex (\<lambda>l. sl_port l \<le> 1024) ls then Warn else OK)" for ls
    by (auto simp: listenerExposureCheck_def Let_def list_ex_iff filter_empty_conv)
  with s d show ?thesis by blast
qed

end
