(* ===== verification/SseJson.thy ===== *)
theory SseJson
  imports SystemApi VersionCheck Reboots Logs Security
begin

text \<open>
  The answers of the broker's handlers as JSON values, with the member names of the struct tags
  (\<open>sse/sysinfo.go\<close>, \<open>sse/security.go\<close>). A nil slice is \<open>null\<close> and an empty one \<open>[]\<close>: the handlers of modules, graphics cards and
  packages replace a nil slice, the security report does not. A Go map is encoded with its keys in order. \<open>num\<close> prints a floating-point number.
\<close>

section \<open>Values\<close>

definition jnat :: "nat \<Rightarrow> json" where
  "jnat n = JNum (int n)"

definition jstrs :: "string list \<Rightarrow> json" where
  "jstrs ss = JArr (map JStr ss)"

text \<open>A slice that is nil as long as nothing was appended.\<close>

definition appended :: "('a \<Rightarrow> json) \<Rightarrow> 'a list \<Rightarrow> json" where
  "appended enc xs = (if xs = [] then JNull else JArr (map enc xs))"

section \<open>System information\<close>

definition bios_json :: "bios_info \<Rightarrow> json" where
  "bios_json b = JObj [(''bios_vendor'', JStr (bios_Vendor b)), (''bios_version'', JStr (bios_Version b)),
     (''bios_date'', JStr (bios_Date b)), (''bios_year'', JStr (bios_Year b))]"

definition bios_answer :: "bios_info \<times> string \<times> bool \<Rightarrow> json" where
  "bios_answer x = (case x of (b, board, available) \<Rightarrow>
     JObj [(''bios'', bios_json b), (''board_version'', JStr board), (''available'', JBool available)])"

definition module_json :: "kernel_module \<Rightarrow> json" where
  "module_json k = JObj [(''name'', JStr (km_name k)), (''size'', JNum (km_size k)), (''use_count'', JNum (km_use k)),
     (''used_by'', JStr (km_used_by k)), (''state'', JStr (km_state k)), (''offset'', JStr (km_offset k))]"

definition modules_answer :: "(nat \<times> string list) + (nat \<times> kernel_module list) \<Rightarrow> json" where
  "modules_answer x = (case x of
       Inl (n, names) \<Rightarrow> JObj [(''count'', jnat n), (''modules'', jstrs names)]
     | Inr (n, ks) \<Rightarrow> JObj [(''count'', jnat n), (''modules'', JArr (map module_json ks))])"

definition gpu_json :: "gpu_info \<Rightarrow> json" where
  "gpu_json g = JObj [(''name'', JStr (gpu_name g)), (''driver'', JStr (gpu_driver g)), (''pci_addr'', JStr (gpu_pci g)),
     (''vendor'', JStr (gpu_vendor g)), (''present'', JBool (gpu_present g))]"

definition gpus_answer :: "nat \<times> gpu_info list \<Rightarrow> json" where
  "gpus_answer x = (case x of (n, gs) \<Rightarrow> JObj [(''count'', jnat n), (''gpus'', JArr (map gpu_json gs))])"

definition package_json :: "apk_package \<Rightarrow> json" where
  "package_json p = JObj [(''name'', JStr (apk_name p)), (''version'', JStr (apk_version p)), (''arch'', JStr (apk_arch p)),
     (''size'', JNum (apk_size p)), (''desc'', JStr (apk_desc p))]"

definition packages_answer :: "(nat \<times> bool) + (nat \<times> bool \<times> apk_package list) \<Rightarrow> json" where
  "packages_answer x = (case x of
       Inl (n, ex) \<Rightarrow> JObj [(''count'', jnat n), (''db_exists'', JBool ex)]
     | Inr (n, ex, ps) \<Rightarrow> JObj [(''count'', jnat n), (''db_exists'', JBool ex), (''packages'', JArr (map package_json ps))])"

definition service_json :: "openrc_service \<Rightarrow> json" where
  "service_json s = JObj [(''name'', JStr (svc_name s)), (''state'', JStr (state_name (svc_state s))),
     (''runlevels'', jstrs (svc_runlevels s)), (''supervised'', JBool (svc_supervised s))]"

definition services_answer :: "nat \<times> service_stats \<times> openrc_service list \<Rightarrow> json" where
  "services_answer x = (case x of (n, st, ss) \<Rightarrow>
     JObj [(''count'', jnat n),
       (''stats'', JObj [(''crashed'', jnat (n_crashed st)), (''inactive'', jnat (n_inactive st)),
          (''started'', jnat (n_started st)), (''stopped'', jnat (n_stopped st))]),
       (''services'', JArr (map service_json ss))])"

definition log_json :: "(rat \<Rightarrow> json) \<Rightarrow> log_file_info \<Rightarrow> json" where
  "log_json num f = JObj [(''name'', JStr (lfi_name f)), (''path'', JStr (lfi_path f)), (''size_mb'', num (lfi_size_mb f)),
     (''exists'', JBool (lfi_exists f))]"

definition tail_answer :: "string \<times> string list \<times> nat \<Rightarrow> json" where
  "tail_answer x = (case x of (f, ls, n) \<Rightarrow> JObj [(''file'', JStr f), (''lines'', jstrs ls), (''count'', jnat n)])"

section \<open>The security report\<close>

definition sec_status_name :: "sec_status \<Rightarrow> string" where
  "sec_status_name st = (case st of OK \<Rightarrow> ''ok'' | Warn \<Rightarrow> ''warn'' | Critical \<Rightarrow> ''critical'' | Unknown \<Rightarrow> ''unknown'')"

definition check_json :: "security_check \<Rightarrow> json" where
  "check_json c = JObj [(''key'', JStr (chk_key c)), (''label'', JStr (chk_label c)), (''category'', JStr (chk_category c)),
     (''status'', JStr (sec_status_name (chk_status c))), (''detail'', JStr (chk_detail c))]"

text \<open>The run levels of a service that is not installed are the nil slice.\<close>

definition security_service_json :: "security_service \<Rightarrow> json" where
  "security_service_json s = JObj [(''name'', JStr (ss_name s)), (''state'', JStr (ss_state s)),
     (''status'', JStr (sec_status_name (ss_status s))), (''critical'', JBool (ss_critical s)),
     (''runlevels'', if ss_state s = ''absent'' then JNull else jstrs (ss_runlevels s)), (''detail'', JStr (ss_detail s))]"

definition security_process_json :: "security_process \<Rightarrow> json" where
  "security_process_json p = JObj [(''name'', JStr (sp_name p)), (''count'', jnat (sp_count p)),
     (''status'', JStr (sec_status_name (sp_status p))), (''pids'', appended JNum (sp_pids p)), (''detail'', JStr (sp_detail p))]"

definition security_listener_json :: "security_listener \<Rightarrow> json" where
  "security_listener_json l = JObj [(''proto'', JStr (sl_proto l)), (''port'', JNum (sl_port l)),
     (''status'', JStr (sec_status_name (sl_status l))), (''detail'', JStr (sl_detail l))]"

definition summary_json :: "security_summary \<Rightarrow> json" where
  "summary_json s = JObj [(''ok'', jnat (sum_ok s)), (''warn'', jnat (sum_warn s)), (''critical'', jnat (sum_critical s)),
     (''unknown'', jnat (sum_unknown s))]"

definition security_answer :: "security_report \<Rightarrow> json" where
  "security_answer s = JObj [(''summary'', summary_json (sec_summary s)), (''checks'', JArr (map check_json (sec_checks s))),
     (''services'', JArr (map security_service_json (sec_services s))),
     (''processes'', JArr (map security_process_json (sec_processes s))),
     (''listeners'', appended security_listener_json (sec_listeners s))]"

section \<open>Answers\<close>

text \<open>A handler's refusal, or its answer with status 200.\<close>

definition answer :: "('a \<Rightarrow> json) \<Rightarrow> response + 'a \<Rightarrow> response" where
  "answer enc x = (case x of Inl rs \<Rightarrow> rs | Inr a \<Rightarrow> json_response 200 (enc a))"

text \<open>A handler that panics: the connection is closed without an answer.\<close>

definition aborted :: response where
  "aborted = respond 0 NoContent"

lemma answer_simps [simp]: "answer enc (Inl rs) = rs" "answer enc (Inr a) = json_response 200 (enc a)"
  by (simp_all add: answer_def)

end
