(* ===== verification/JsonText.thy ===== *)
theory JsonText
  imports Http
begin

text \<open>
  The text \<open>encoding/json\<close> writes for a value, byte for byte: compact, with the characters of HTML and the two line
  separators of JavaScript escaped. What the stream relies on is that the text has no line break.
\<close>

section \<open>Strings\<close>

definition hex_digit :: "nat \<Rightarrow> char" where
  "hex_digit n = (if n < 10 then char_of (48 + n) else char_of (87 + n))"

text \<open>An ASCII byte; \<open><\<close>, \<open>>\<close> and \<open>&\<close> are escaped as the control characters are.\<close>

definition json_ascii :: "char \<Rightarrow> string" where
  "json_ascii c =
     (if c = CHR 0x22 \<or> c = CHR 0x5C then [CHR 0x5C, c]
      else if c = CHR 0x08 then [CHR 0x5C, CHR ''b'']
      else if c = CHR 0x0C then [CHR 0x5C, CHR ''f'']
      else if c = CHR 0x0A then [CHR 0x5C, CHR ''n'']
      else if c = CHR 0x0D then [CHR 0x5C, CHR ''r'']
      else if c = CHR 0x09 then [CHR 0x5C, CHR ''t'']
      else if byte c < 0x20 \<or> c = CHR ''<'' \<or> c = CHR ''>'' \<or> c = CHR ''&''
      then [CHR 0x5C, CHR ''u'', CHR ''0'', CHR ''0'', hex_digit (byte c div 16), hex_digit (byte c mod 16)]
      else [c])"

text \<open>A rune of several bytes, or a byte that starts none.\<close>

definition json_rune :: "string \<Rightarrow> string" where
  "json_rune r =
     (if length r = 1 then CHR 0x5C # ''ufffd''
      else if r = [CHR 0xE2, CHR 0x80, CHR 0xA8] then CHR 0x5C # ''u2028''
      else if r = [CHR 0xE2, CHR 0x80, CHR 0xA9] then CHR 0x5C # ''u2029''
      else r)"

function json_escape :: "string \<Rightarrow> string" where
  "json_escape s =
     (if s = [] then []
      else if byte (hd s) < 0x80 then json_ascii (hd s) @ json_escape (tl s)
      else json_rune (take (rune_size s) s) @ json_escape (drop (rune_size s) s))"
  by pat_completeness auto
termination
  by (relation "measure length") auto

declare json_escape.simps [simp del]

definition json_quote :: "string \<Rightarrow> string" where
  "json_quote s = CHR 0x22 # json_escape s @ [CHR 0x22]"

section \<open>Values\<close>

fun json_text :: "json \<Rightarrow> string" where
  "json_text JNull = ''null''"
| "json_text (JBool b) = (if b then ''true'' else ''false'')"
| "json_text (JNum i) = itoa i"
| "json_text (JLit d) = d"
| "json_text (JStr s) = json_quote s"
| "json_text (JArr xs) = CHR ''['' # join '','' (map json_text xs) @ '']''"
| "json_text (JObj ms) = CHR ''{'' # join '','' (map (\<lambda>(k, v). json_quote k @ CHR '':'' # json_text v) ms) @ ''}''"

section \<open>No control character\<close>

definition no_control :: "string \<Rightarrow> bool" where
  "no_control s = list_all (\<lambda>c. 0x20 \<le> byte c) s"

lemma no_control_simps [simp]:
  "no_control []" "no_control (c # s) \<longleftrightarrow> 0x20 \<le> byte c \<and> no_control s"
  "no_control (s @ t) \<longleftrightarrow> no_control s \<and> no_control t"
  by (simp_all add: no_control_def)

lemma no_control_take_drop: "no_control s \<Longrightarrow> no_control (take n s) \<and> no_control (drop n s)"
  unfolding no_control_def list_all_iff by (auto dest: in_set_takeD in_set_dropD)

lemma no_control_join: "no_control sep \<Longrightarrow> list_all no_control ss \<Longrightarrow> no_control (join sep ss)"
  by (induction sep ss rule: join.induct) auto

lemma no_control_dec: "no_control (nat_to_dec n)"
proof (induction n rule: nat_to_dec.induct)
  case (1 n)
  have "byte (char_of (48 + k) :: char) = 48 + k" if "k < 10" for k :: nat using that by simp
  with 1 show ?case by (subst nat_to_dec.simps) (auto simp: Let_def)
qed

lemma no_control_itoa [simp]: "no_control (itoa i)"
  by (simp add: itoa_def no_control_dec)

lemma no_control_ascii: "no_control (json_ascii c)"
proof -
  have h: "0x20 \<le> byte (hex_digit n)" if "n < 16" for n
  proof -
    have "byte (hex_digit n) = (if n < 10 then 48 + n else 87 + n)" using that by (simp add: hex_digit_def)
    then show ?thesis by simp
  qed
  have "byte c < 256" by simp
  then have "byte c div 16 < 16" by (simp add: less_mult_imp_div_less)
  then show ?thesis by (auto simp: json_ascii_def h)
qed

text \<open>The bytes of a rune of several bytes are above ASCII.\<close>

lemma rune_bytes:
  assumes "0x80 \<le> byte (hd s)" and "s \<noteq> []"
  shows "list_all (\<lambda>c. 0x80 \<le> byte c) (take (rune_size s) s)"
proof -
  have r: "in_range lo hi c \<Longrightarrow> lo \<le> byte c" for lo hi c by (simp add: in_range_def)
  have c: "cont c \<Longrightarrow> 0x80 \<le> byte c" for c by (auto simp: cont_def dest: r)
  have a: "in_range 0xA0 0xBF x \<Longrightarrow> 0x80 \<le> byte x" "in_range 0x90 0xBF x \<Longrightarrow> 0x80 \<le> byte x"
    "in_range 0x80 0x9F x \<Longrightarrow> 0x80 \<le> byte x" "in_range 0x80 0x8F x \<Longrightarrow> 0x80 \<le> byte x" for x
    by (auto dest: r)
  from assms show ?thesis
    by (cases s) (auto simp: c a split: list.splits if_splits)
qed

lemma no_control_escape: "no_control (json_escape s)"
proof (induction s rule: json_escape.induct)
  case (1 s)
  show ?case
  proof (cases "s = [] \<or> byte (hd s) < 0x80")
    case True
    then show ?thesis using 1 no_control_ascii by (subst json_escape.simps) auto
  next
    case False
    then have "list_all (\<lambda>c. 0x80 \<le> byte c) (take (rune_size s) s)" by (intro rune_bytes) auto
    then have "no_control (take (rune_size s) s)" by (auto simp: no_control_def list_all_iff)
    then have "no_control (json_rune (take (rune_size s) s))" by (simp add: json_rune_def)
    with False 1 show ?thesis by (subst json_escape.simps) auto
  qed
qed

lemma no_control_quote [simp]: "no_control (json_quote s)"
  by (simp add: json_quote_def no_control_escape)

text \<open>The numbers given by their digits are the only part that is not the encoder's own.\<close>

fun literals :: "json \<Rightarrow> string list" where
  "literals (JLit d) = [d]"
| "literals (JArr xs) = concat (map literals xs)"
| "literals (JObj ms) = concat (map (\<lambda>(k, v). literals v) ms)"
| "literals _ = []"

lemma json_text_no_control: "list_all no_control (literals j) \<Longrightarrow> no_control (json_text j)"
proof (induction j rule: json_text.induct)
  case (6 xs)
  then have "list_all no_control (map json_text xs)" by (auto simp: list_all_iff)
  then show ?case using no_control_join [of "'',''"] by simp
next
  case (7 ms)
  have "no_control (json_quote k @ CHR '':'' # json_text v)" if "(k, v) \<in> set ms" for k v
    using 7 that by (fastforce simp: list_all_iff)
  then have "list_all no_control (map (\<lambda>(k, v). json_quote k @ CHR '':'' # json_text v) ms)"
    by (auto simp: list_all_iff)
  then show ?case using no_control_join [of "'',''"] by simp
qed auto

text \<open>A value whose text has no control character.\<close>

definition plain :: "json \<Rightarrow> bool" where
  "plain j \<longleftrightarrow> list_all no_control (literals j)"

lemma plain_simps [simp]:
  "plain JNull" "plain (JBool b)" "plain (JNum i)" "plain (JStr s)" "plain (JLit d) \<longleftrightarrow> no_control d"
  "plain (JArr xs) \<longleftrightarrow> list_all plain xs" "plain (JObj ms) \<longleftrightarrow> list_all (\<lambda>m. plain (snd m)) ms"
  by (auto simp: plain_def list_all_iff)

lemma plain_text: "plain j \<Longrightarrow> no_control (json_text j)"
  by (simp add: plain_def json_text_no_control)

end
