(* ===== verification/SnapshotJson.thy ===== *)
theory SnapshotJson
  imports SseJson JsonText
begin

text \<open>
  The snapshot and the system information as JSON: one encoder per struct of \<open>sse/metrics.go\<close>, \<open>sse/xen.go\<close> and \<open>sse/broker.go\<close>, with the
  member names of its tags. Slices that are built with \<open>append\<close> are nil, and so \<open>null\<close>, when they are empty (\<open>appended\<close>); the load of the cores is made
  with its length. The list of domains is nil as well, unless \<open>xl list\<close> answered without a domain, which the model does not keep in the snapshot
  and asks of \<open>je_listed\<close>.
\<close>

section \<open>What the library prints\<close>

record json_env =
  je_float :: "rat \<Rightarrow> string"            \<comment> \<open>the digits of a floating-point number\<close>
  je_time :: "int \<Rightarrow> string option"      \<comment> \<open>\<open>time.Time.MarshalJSON\<close>, without the quotes; an error for years of five digits\<close>
  je_listed :: "int \<Rightarrow> bool"             \<comment> \<open>whether \<open>xl list\<close> answered at that reading\<close>

definition jflo :: "json_env \<Rightarrow> rat \<Rightarrow> json" where
  "jflo je x = JLit (je_float je x)"

text \<open>\<open>omitempty\<close>: a member whose value is the zero of its type is left out.\<close>

definition opt_str :: "string \<Rightarrow> string \<Rightarrow> (string \<times> json) list" where
  "opt_str k s = (if s = [] then [] else [(k, JStr s)])"

section \<open>The parts of a snapshot\<close>

definition lbu_json :: "lbu_status \<Rightarrow> json" where
  "lbu_json l = JObj [(''present'', JBool (Present l)), (''state'', JStr (lbu_State l)), (''archive'', JStr (Archive l))]"

definition iface_json :: "net_iface_info \<Rightarrow> json" where
  "iface_json i = JObj ([(''name'', JStr (ni_name i)), (''ip'', JStr (ni_ip i))] @ opt_str ''master'' (ni_master i) @
     opt_str ''master_ip'' (ni_master_ip i) @
     [(''rx_bytes'', JNum (ni_rx i)), (''tx_bytes'', JNum (ni_tx i)), (''rx_bps'', JNum (ni_rx_bps i)),
      (''tx_bps'', JNum (ni_tx_bps i)), (''up'', JBool (ni_up i))])"

text \<open>The confidence is kept in hundredths.\<close>

definition arp_json :: "json_env \<Rightarrow> arp_entry \<Rightarrow> json" where
  "arp_json je a = JObj ([(''ip'', JStr (arp_ip a)), (''mac'', JStr (arp_mac a)), (''iface'', JStr (arp_iface a)),
      (''state'', JStr (arp_state a)), (''device_type'', JStr (arp_type a))] @
     opt_str ''hostname'' (arp_hostname a) @ opt_str ''detection_source'' (arp_detection a) @ opt_str ''vendor'' (arp_vendor a) @
     (if arp_confidence a = 0 then [] else [(''confidence'', jflo je (of_int (arp_confidence a) / 100))]) @
     (if arp_sources a = [] then [] else [(''sources'', jstrs (arp_sources a))]) @
     opt_str ''isp'' (isp_operator (arp_isp a)) @ opt_str ''asn'' (isp_asn (arp_isp a)) @ opt_str ''network'' (isp_network (arp_isp a)))"

definition net_map_json :: "json_env \<Rightarrow> network_map \<Rightarrow> json" where
  "net_map_json je n = JObj [(''interfaces'', appended iface_json (nmap_interfaces n)),
     (''neighbors'', appended (arp_json je) (nmap_neighbors n))]"

definition disk_json :: "disk_mount \<Rightarrow> json" where
  "disk_json d = JObj [(''device'', JStr (dm_device d)), (''disk'', JStr (dm_disk d)), (''mount'', JStr (dm_mount d)),
     (''fstype'', JStr (dm_fstype d)), (''disk_type'', JStr (dk_type (dm_kind d))), (''model'', JStr (dk_model (dm_kind d))),
     (''transport'', JStr (dk_transport (dm_kind d))), (''icon'', JStr (dk_icon (dm_kind d))), (''total_mb'', JNum (dm_total d)),
     (''used_mb'', JNum (dm_used d)), (''free_mb'', JNum (dm_free d)), (''used_pct'', JNum (dm_pct d)), (''pal'', JStr (dm_pal d)),
     (''bar_cls'', JStr (dm_bar d))]"

definition load_json :: "json_env \<Rightarrow> rat \<times> rat \<times> rat \<Rightarrow> json" where
  "load_json je l = (case l of (a, b, c) \<Rightarrow> JObj [(''load1'', jflo je a), (''load5'', jflo je b), (''load15'', jflo je c)])"

definition temp_json :: "json_env \<Rightarrow> cpu_temp \<Rightarrow> json" where
  "temp_json je t = JObj [(''zone'', JStr (tz_zone t)), (''label'', JStr (tz_label t)), (''temp_c'', jflo je (of_int (tz_milli t) / 1000))]"

text \<open>The processor share of a process is never set.\<close>

definition proc_json :: "json_env \<Rightarrow> proc_info \<Rightarrow> json" where
  "proc_json je p = JObj [(''pid'', JNum (PID p)), (''name'', JStr (pi_name p)), (''state'', JStr (pi_state p)), (''cpu_pct'', jflo je 0),
     (''mem_mb'', JNum (MemMB p)), (''mem_pct'', jflo je (of_int (MemPct p) / 10)), (''virt'', JStr (Virt p)), (''res'', JStr (Res p)),
     (''shr'', JStr (Shr p)), (''user'', JStr (pi_user p)), (''cmd'', JStr (Cmd p))]"

definition xen_info_json :: "xen_info \<Rightarrow> json" where
  "xen_info_json x = JObj [(''available'', JBool (Available x)), (''toolstack'', JStr (Toolstack x)), (''xen_version'', JStr (XenVersion x)),
     (''host'', JStr (xi_host x)), (''scheduler'', JStr (Scheduler x)), (''cpus'', JNum (CPUs x)),
     (''total_memory_mb'', JNum (TotalMemoryMB x)), (''free_memory_mb'', JNum (FreeMemoryMB x)), (''domain_count'', jnat (DomainCount x)),
     (''running'', jnat (Running x)), (''blocked'', jnat (Blocked x)), (''paused'', jnat (Paused x)), (''shutdown'', jnat (Shutdown x)),
     (''crashed'', jnat (Crashed x)), (''dying'', jnat (Dying x)), (''total_vcpus'', JNum (TotalVCPUs x)),
     (''domain_mem_mb'', JNum (DomainMemMB x))]"

definition xen_dom_json :: "json_env \<Rightarrow> xen_dom \<Rightarrow> json" where
  "xen_dom_json je d = JObj [(''domid'', JNum (DomID d)), (''name'', JStr (dom_name d)), (''state'', JStr (dom_state d)),
     (''vcpus'', JNum (VCPUs d)), (''mem_mb'', JNum (dom_mem d)), (''cpu_sec'', jflo je (CPUSec d)), (''cpu_pct'', jflo je (CPUPct d))]"

definition xen_doms_json :: "json_env \<Rightarrow> int \<Rightarrow> xen_dom list \<Rightarrow> json" where
  "xen_doms_json je t ds = (if ds = [] \<and> \<not> je_listed je t then JNull else JArr (map (xen_dom_json je) ds))"

section \<open>The snapshot\<close>

definition snapshot_json :: "json_env \<Rightarrow> snapshot \<Rightarrow> json option" where
  "snapshot_json je s =
     map_option (\<lambda>ts. JObj
       [(''ts'', JStr ts), (''cpu_usage'', jflo je (CPUUsage s)), (''cpu_per_core'', JArr (map (jflo je) (CPUPerCore s))),
        (''cpu_freq_avg_mhz'', JNum (CPUFreqAvg s)), (''cpu_freq_max_mhz'', JNum (CPUFreqMax s)),
        (''cpu_freq_core'', appended JNum (CPUFreqCore s)), (''cpu_y_min'', jflo je (CPUYMin s)), (''cpu_y_max'', jflo je (CPUYMax s)),
        (''cpu_freq_y_min'', JNum (CPUFreqYMin s)), (''cpu_freq_y_max'', JNum (CPUFreqYMax s)), (''mem_y_min'', JNum (MemYMin s)),
        (''mem_y_max'', JNum (MemYMax s)), (''cpu_peak_cores'', appended jnat (CPUPeakCores s)), (''mem_total_mb'', JNum (MemTotal s)),
        (''mem_used_mb'', JNum (MemUsed s)), (''mem_cached_mb'', JNum (MemCached s)), (''mem_free_mb'', JNum (MemFree s)),
        (''mem_stack_used'', JNum (MemStackUsed s)), (''mem_stack_cached'', JNum (MemStackCached s)),
        (''mem_stack_free'', JNum (MemStackFree s)), (''mem_used_pct'', JNum (MemUsedPct s)), (''mem_cached_pct'', JNum (MemCachedPct s)),
        (''net_rx_bytes'', JNum (NetRXBytes s)), (''net_tx_bytes'', JNum (NetTXBytes s)), (''net_rx_bps'', JNum (NetRXBps s)),
        (''net_tx_bps'', JNum (NetTXBps s)), (''net_iface'', JStr (NetIface s)), (''net_ip'', JStr (NetIP s)), (''lbu'', lbu_json (snap_LBU s)),
        (''net_map'', net_map_json je (NetMap s)), (''disks'', appended disk_json (snap_Disks s)), (''load_avg'', load_json je (LoadAvg s)),
        (''cpu_temps'', appended (temp_json je) (CPUTemps s)), (''top_procs'', appended (proc_json je) (TopProcs s)),
        (''xen_info'', xen_info_json (snap_XenInfo s)), (''xen_domains'', xen_doms_json je (Timestamp s) (XenDomains s))])
     (je_time je (Timestamp s))"

text \<open>\<open>json.Marshal\<close> of a snapshot.\<close>

definition marshal_snapshot :: "json_env \<Rightarrow> snapshot \<Rightarrow> string option" where
  "marshal_snapshot je s = map_option json_text (snapshot_json je s)"

section \<open>The system information\<close>

definition caps_json :: "host_capabilities \<Rightarrow> json" where
  "caps_json c = JObj [(''xen_control'', JBool (XenControl c)), (''docker_control'', JBool (DockerControl c)),
     (''podman_control'', JBool (PodmanControl c)), (''qemu_control'', JBool (QEMUControl c))]"

definition layer_json :: "host_layer \<Rightarrow> json" where
  "layer_json l = JObj [(''kind'', JStr (Kind l)), (''runtime'', JStr (layer_Runtime l)), (''role'', JStr (layer_Role l)),
     (''label'', JStr (layer_Label l)), (''verified'', JBool (layer_Verified l))]"

definition host_role_json :: "host_role \<Rightarrow> json" where
  "host_role_json h = JObj ([(''role'', JStr (hr_Role h)), (''runtime'', JStr (Runtime h)), (''label'', JStr (Label h)),
      (''verified'', JBool (Verified h)), (''environment'', JStr (Environment h)), (''virtualization'', JStr (Virtualization h)),
      (''virtualization_role'', JStr (VirtualizationRole h)), (''container_runtime'', JStr (ContainerRuntime h)),
      (''parent_runtime'', JStr (ParentRuntime h)), (''capabilities'', caps_json (Capabilities h))] @
     (if Layers h = [] then [] else [(''layers'', JArr (map layer_json (Layers h)))]))"

text \<open>
  \<open>snap\<close> is the last snapshot, \<open>None\<close> before the first, when its slices are nil.
\<close>

definition system_info_json :: "json_env \<Rightarrow> snapshot option \<Rightarrow> system_info \<Rightarrow> json" where
  "system_info_json je snap i = JObj
     [(''hostname'', JStr (si_Hostname i)), (''os_release'', JStr (si_OSRelease i)), (''os_version'', JStr (si_OSVersion i)),
      (''kernel'', JStr (si_Kernel i)), (''date'', JStr (si_Date i)), (''uptime'', JStr (si_Uptime i)),
      (''unyport_version'', JStr (si_UnyportVersion i)), (''cpu_model'', JStr (si_CPUModel i)), (''cpu_vendor'', JStr (si_CPUVendor i)),
      (''cpu_cores'', jnat (si_CPUCores i)), (''board_name'', JStr (si_BoardName i)), (''board_vendor'', JStr (si_BoardVendor i)),
      (''board_version'', JStr (si_BoardVersion i)), (''bios'', bios_json (si_BIOS i)), (''gpus'', appended gpu_json (si_GPUs i)),
      (''apk'', JObj [(''count'', jnat (fst (si_APK i))), (''db_exists'', JBool (snd (si_APK i)))]),
      (''modules'', JObj [(''count'', jnat (fst (si_Modules i))), (''modules'', jstrs (snd (si_Modules i)))]),
      (''host_role'', host_role_json (si_HostRole i)), (''net_iface'', JStr (si_NetIface i)), (''net_ip'', JStr (si_NetIP i)),
      (''cpu_usage'', jflo je (si_CPUUsage i)),
      (''cpu_per_core'', if snap = None then JNull else JArr (map (jflo je) (si_CPUPerCore i))),
      (''cpu_freq_avg_mhz'', JNum (si_CPUFreqAvg i)), (''cpu_freq_max_mhz'', JNum (si_CPUFreqMax i)),
      (''cpu_freq_core'', appended JNum (si_CPUFreqCore i)), (''cpu_y_min'', jflo je (si_CPUYMin i)), (''cpu_y_max'', jflo je (si_CPUYMax i)),
      (''cpu_freq_y_min'', JNum (si_CPUFreqYMin i)), (''cpu_freq_y_max'', JNum (si_CPUFreqYMax i)), (''mem_y_min'', JNum (si_MemYMin i)),
      (''mem_y_max'', JNum (si_MemYMax i)), (''cpu_peak_cores'', appended jnat (si_CPUPeakCores i)),
      (''mem_total_mb'', JNum (si_MemTotalMB i)), (''mem_used_mb'', JNum (si_MemUsedMB i)), (''mem_cached_mb'', JNum (si_MemCachedMB i)),
      (''mem_free_mb'', JNum (si_MemFreeMB i)), (''mem_stack_used'', JNum (si_MemStackUsed i)),
      (''mem_stack_cached'', JNum (si_MemStackCached i)), (''mem_stack_free'', JNum (si_MemStackFree i)),
      (''mem_used_pct'', JNum (si_MemUsedPct i)), (''mem_cached_pct'', JNum (si_MemCachedPct i)), (''xen_role'', JStr (si_XenRole i)),
      (''lbu'', lbu_json (si_LBU i)), (''xen_info'', xen_info_json (si_XenInfo i)),
      (''xen_domains'', case snap of None \<Rightarrow> appended (xen_dom_json je) (si_XenDomains i)
                        | Some s \<Rightarrow> xen_doms_json je (Timestamp s) (si_XenDomains i))]"

section \<open>The text of a snapshot\<close>

text \<open>The digits of a number are no control characters; all other text is escaped by the encoder.\<close>

definition floats_plain :: "json_env \<Rightarrow> bool" where
  "floats_plain je \<longleftrightarrow> (\<forall>x. no_control (je_float je x))"

lemma plain_jflo [simp]: "floats_plain je \<Longrightarrow> plain (jflo je x)"
  by (simp add: jflo_def floats_plain_def)

lemma plain_jnat [simp]: "plain (jnat n)"
  by (simp add: jnat_def)

lemma plain_jstrs [simp]: "plain (jstrs ss)"
  by (simp add: jstrs_def list_all_iff)

lemma plain_opt_str [simp]: "list_all (\<lambda>m. plain (snd m)) (opt_str k s)"
  by (simp add: opt_str_def)

lemma plain_appended: "(\<And>x. plain (enc x)) \<Longrightarrow> plain (appended enc xs)"
  by (simp add: appended_def list_all_iff)

lemma plain_parts [simp]:
  "plain (lbu_json l)" "plain (iface_json i)" "plain (disk_json d)" "plain (xen_info_json x)"
  by (simp_all add: lbu_json_def iface_json_def disk_json_def xen_info_json_def)

lemma plain_float_parts [simp]:
  assumes "floats_plain je"
  shows "plain (arp_json je a)" "plain (load_json je l)" "plain (temp_json je t)" "plain (proc_json je p)" "plain (xen_dom_json je d)"
  using assms by (simp_all add: arp_json_def load_json_def temp_json_def proc_json_def xen_dom_json_def split: prod.split)

lemma plain_snapshot:
  assumes "floats_plain je" and "snapshot_json je s = Some j"
  shows "plain j"
proof -
  have "plain (net_map_json je n)" for n
    using assms(1) by (simp add: net_map_json_def plain_appended)
  moreover have "plain (xen_doms_json je t ds)" for t ds
    using assms(1) by (simp add: xen_doms_json_def list_all_iff)
  ultimately show ?thesis
    using assms by (auto simp: snapshot_json_def plain_appended list_all_iff)
qed

lemma marshal_no_control: "floats_plain je \<Longrightarrow> marshal_snapshot je s = Some d \<Longrightarrow> no_control d"
  using plain_snapshot plain_text by (fastforce simp: marshal_snapshot_def)

end
