(* ===== verification/SseStream.thy ===== *)
theory SseStream
  imports SnapshotJson
begin

text \<open>
  What a browser reads from the stream: the messages of the event stream format of HTML, as \<open>EventSource\<close> dispatches them, and that they are
  the snapshots that were written, one message each.
\<close>

section \<open>The event stream format\<close>

text \<open>The lines of a stream, ended by a line feed, a carriage return or both; what follows the last of them is no line yet.\<close>

function sse_lines :: "string \<Rightarrow> string \<Rightarrow> string list" where
  "sse_lines acc [] = []"
| "sse_lines acc (c # s) =
     (if c = CHR 0x0A then rev acc # sse_lines [] s
      else if c = CHR 0x0D then rev acc # sse_lines [] (if s \<noteq> [] \<and> hd s = CHR 0x0A then tl s else s)
      else sse_lines (c # acc) s)"
  by pat_completeness auto
termination
  by (relation "measure (\<lambda>(acc, s). length s)") auto

text \<open>A line has a field and a value, from which one leading space is removed.\<close>

definition sse_field :: "string \<Rightarrow> string \<times> string" where
  "sse_field l =
     (let v = drop 1 (dropWhile (\<lambda>c. c \<noteq> CHR '':'') l)
      in (takeWhile (\<lambda>c. c \<noteq> CHR '':'') l, if v \<noteq> [] \<and> hd v = CHR '' '' then tl v else v))"

text \<open>An empty line dispatches the data that was collected, without its last line feed; without data there is no message.\<close>

fun sse_dispatch :: "string \<Rightarrow> string list \<Rightarrow> string list" where
  "sse_dispatch buf [] = []"
| "sse_dispatch buf (l # ls) =
     (if l = [] then (if buf = [] then sse_dispatch [] ls else butlast buf # sse_dispatch [] ls)
      else
        let (f, v) = sse_field l
        in if f = ''data'' then sse_dispatch (buf @ v @ [CHR 0x0A]) ls else sse_dispatch buf ls)"

definition sse_messages :: "string \<Rightarrow> string list" where
  "sse_messages s = sse_dispatch [] (sse_lines [] s)"

section \<open>Facts\<close>

lemma sse_lines_line:
  "CHR 0x0A \<notin> set l \<Longrightarrow> CHR 0x0D \<notin> set l \<Longrightarrow> sse_lines acc (l @ CHR 0x0A # s) = (rev acc @ l) # sse_lines [] s"
  by (induction l arbitrary: acc) auto

lemma no_control_breaks: "no_control d \<Longrightarrow> CHR 0x0A \<notin> set d \<and> CHR 0x0D \<notin> set d"
  by (auto simp: no_control_def list_all_iff)

lemma sse_field_data: "sse_field (''data: '' @ d) = (''data'', d)"
  by (simp add: sse_field_def)

lemma sse_messages_event:
  assumes "no_control d"
  shows "sse_messages (''data: '' @ d @ [CHR 0x0A, CHR 0x0A] @ s) = d # sse_messages s"
proof -
  have l: "sse_lines [] ((''data: '' @ d) @ CHR 0x0A # [] @ CHR 0x0A # s) = (''data: '' @ d) # [] # sse_lines [] s"
    using no_control_breaks [OF assms] by (subst sse_lines_line) simp_all
  have "sse_messages (''data: '' @ d @ [CHR 0x0A, CHR 0x0A] @ s) =
      sse_dispatch [] ((''data: '' @ d) # [] # sse_lines [] s)"
    using l by (simp add: sse_messages_def)
  also have "\<dots> = d # sse_messages s"
    using sse_field_data [of d] by (simp add: sse_messages_def)
  finally show ?thesis .
qed

lemma sse_messages_written:
  assumes "\<And>s d. marshal s = Some d \<Longrightarrow> no_control d"
  shows "sse_messages (concat (map (writeSSE marshal) ss)) = List.map_filter marshal ss"
proof (induction ss)
  case Nil
  then show ?case by (simp add: sse_messages_def)
next
  case (Cons s ss)
  show ?case
  proof (cases "marshal s")
    case None
    with Cons show ?thesis by (simp add: writeSSE_def)
  next
    case (Some d)
    from sse_messages_event [OF assms [OF this]] Cons show ?thesis by (simp add: writeSSE_def Some)
  qed
qed

section \<open>Properties\<close>

definition demo_json_env :: json_env where
  "demo_json_env = \<lparr>je_float = (\<lambda>x. itoa \<lfloor>x\<rfloor>), je_time = (\<lambda>t. Some (itoa t)), je_listed = (\<lambda>_. False)\<rparr>"

text \<open>A neighbour that tries to end the message by its name.\<close>

definition forging_snapshot :: snapshot where
  "forging_snapshot = zero_snapshot\<lparr>Timestamp := 7,
     NetIface := ''eth0'' @ [CHR 0x0A, CHR 0x0A] @ ''data: {}'' @ [CHR 0x0A, CHR 0x0A]\<rparr>"

text \<open>
  C28. The stream is framed: from the bytes a connection has written the browser reads exactly the snapshots that were written, in order, one message each with the snapshot's JSON as its data,
  whatever names, addresses or commands the machine and its neighbours put into them. No text can end a message or start another one.
\<close>

theorem stream_framed:
  assumes "floats_plain je"
  shows "sse_messages (stream_text (marshal_snapshot je) k) = List.map_filter (marshal_snapshot je) (greeting k @ written k)"
  unfolding stream_text_def by (rule sse_messages_written) (rule marshal_no_control [OF assms])

theorem stream_framed_witness:
  "\<exists>d. sse_messages (stream_text (marshal_snapshot demo_json_env)
     \<lparr>conn_phase = Streaming, channel = [], greeting = [forging_snapshot], written = [], conn_from = 1\<rparr>) = [d] \<and>
     marshal_snapshot demo_json_env forging_snapshot = Some d"
proof -
  have "floats_plain demo_json_env" by (simp add: floats_plain_def demo_json_env_def)
  from stream_framed [OF this, of "\<lparr>conn_phase = Streaming, channel = [], greeting = [forging_snapshot], written = [], conn_from = 1\<rparr>"]
  show ?thesis by (simp add: marshal_snapshot_def snapshot_json_def demo_json_env_def map_filter_simps)
qed

end
