(* ===== verification/RebootLog.thy ===== *)
theory RebootLog
  imports Reboots
begin

text \<open>
  The heat map of reboots and the log it falls back on (\<open>RebootsHandler\<close> in \<open>sse/broker.go\<close> with the logger of \<open>cmd/unyport/main.go\<close>): the handler
  warns that the history is unavailable in the very file it then searches for starts, and the warning matches the pattern of a start.
\<close>

section \<open>The logger\<close>

datatype log_sink = StderrOnly | StderrAndFile

text \<open>The log goes to the file as well if its directory can be made and the file be opened for appending.\<close>

definition initLogger :: "bool \<Rightarrow> bool \<Rightarrow> log_sink" where
  "initLogger mkdir_ok open_ok = (if \<not> mkdir_ok then StderrOnly else if \<not> open_ok then StderrOnly else StderrAndFile)"

text \<open>
  A record as \<open>slog.TextHandler\<close> writes it: the time, the level, the message, which is quoted when it has a space, and the attributes.
\<close>

definition log_quote :: "string \<Rightarrow> string" where
  "log_quote s = [CHR 0x22] @ s @ [CHR 0x22]"

definition log_line :: "string \<Rightarrow> string \<Rightarrow> string \<Rightarrow> string \<Rightarrow> string" where
  "log_line ts level msg attrs = ''time='' @ ts @ '' level='' @ level @ '' msg='' @ log_quote msg @ attrs"

definition log_append :: "log_sink \<Rightarrow> string \<Rightarrow> string option \<Rightarrow> string option" where
  "log_append sink l file =
     (case sink of StderrOnly \<Rightarrow> file | StderrAndFile \<Rightarrow> Some ((case file of None \<Rightarrow> [] | Some d \<Rightarrow> d) @ l @ [CHR 0x0A]))"

section \<open>A request\<close>

text \<open>
  The log file after a request that is made at \<open>ts\<close>, and the counts the request is answered from. A history without a single start is an empty result without
  an error, and is not warned of.
\<close>

definition reboots_request ::
  "history_env \<Rightarrow> (string \<Rightarrow> (int \<times> nat \<times> nat) option) \<Rightarrow> log_sink \<Rightarrow> string option \<Rightarrow> int \<Rightarrow> string \<times> string \<Rightarrow>
     string option \<Rightarrow> day_count \<times> string option" where
  "reboots_request e day sink history year stamp file =
     (let file' = (if snd (parseStartupHistoryByDay e day history year) then file
                   else log_append sink (log_line (fst stamp) ''WARN'' ''startup history unavailable'' (snd stamp)) file)
      in (reboot_counts e day history file' year, file'))"

definition reboots_requests ::
  "history_env \<Rightarrow> (string \<Rightarrow> (int \<times> nat \<times> nat) option) \<Rightarrow> log_sink \<Rightarrow> string option \<Rightarrow> int \<Rightarrow> (string \<times> string) list \<Rightarrow>
     string option \<Rightarrow> string option" where
  "reboots_requests e day sink history year stamps file =
     fold (\<lambda>st f. snd (reboots_request e day sink history year st f)) stamps file"

section \<open>Facts\<close>

text \<open>A time in UTC, and the lines the logger can write with it: short enough for the scanner, and without a line break.\<close>

definition utc_stamp :: "string \<Rightarrow> bool" where
  "utc_stamp ts \<longleftrightarrow> (\<exists>t. ts = t @ ''Z'' \<and> t \<noteq> [] \<and> list_all log_time_char t)"

definition stamp_ok :: "string \<times> string \<Rightarrow> bool" where
  "stamp_ok st \<longleftrightarrow> utc_stamp (fst st) \<and> length (fst st) + length (snd st) \<le> 60000 \<and>
     list_all (\<lambda>c. 0x20 \<le> byte c) (snd st)"

lemma startup_time_warning:
  assumes "utc_stamp ts"
  shows "startup_time (log_line ts ''WARN'' ''startup history unavailable'' attrs) = Some ts"
proof -
  obtain t where t: "ts = t @ ''Z''" "t \<noteq> []" "list_all log_time_char t" using assms by (auto simp: utc_stamp_def)
  let ?rest = "'' level=WARN msg='' @ log_quote ''startup history unavailable'' @ attrs"
  have "\<not> log_time_char CHR ''Z''" by (simp add: log_time_char_def is_digit_byte_def in_range_def)
  moreover have "\<forall>c \<in> set t. log_time_char c" using t(3) by (simp add: list_all_iff)
  ultimately have run: "takeWhile log_time_char (t @ CHR ''Z'' # ?rest) = t" by (simp add: takeWhile_append2)
  have "contains (CHR ''Z'' # ?rest) (''msg='' @ [CHR 0x22] @ ''startup'')"
    unfolding contains_iff log_quote_def by (rule exI [of _ "''Z level=WARN ''"]) simp
  moreover have "log_line ts ''WARN'' ''startup history unavailable'' attrs = ''time='' @ t @ CHR ''Z'' # ?rest"
    by (simp add: log_line_def t(1))
  ultimately show ?thesis using run t(1,2) by (simp add: has_prefix_iff Let_def)
qed

lemma time_char_plain: "log_time_char c \<Longrightarrow> 0x20 \<le> byte c"
  by (auto simp: log_time_char_def is_digit_byte_def in_range_def)

lemma log_line_plain:
  assumes "stamp_ok st"
  shows "list_all (\<lambda>c. 0x20 \<le> byte c) (log_line (fst st) ''WARN'' ''startup history unavailable'' (snd st)) \<and>
    int (length (log_line (fst st) ''WARN'' ''startup history unavailable'' (snd st))) \<le> 65535"
proof -
  have "list_all (\<lambda>c. 0x20 \<le> byte c) (fst st)"
    using assms by (auto simp: stamp_ok_def utc_stamp_def list_all_iff time_char_plain)
  then show ?thesis using assms by (simp add: stamp_ok_def log_line_def log_quote_def)
qed

text \<open>A log whose last line is complete, with a warning behind it.\<close>

definition log_complete :: "string \<Rightarrow> bool" where
  "log_complete d \<longleftrightarrow> (d = [] \<or> last d = CHR 0x0A) \<and> snd (scan_lines d)"

lemma log_appended:
  assumes "log_complete d" and "list_all (\<lambda>c. 0x20 \<le> byte c) l" and "int (length l) \<le> 65535" and "l \<noteq> []"
  shows "fst (scan_lines (d @ l @ [CHR 0x0A])) = fst (scan_lines d) @ [l] \<and> log_complete (d @ l @ [CHR 0x0A])"
proof -
  have b: "CHR 0x0A \<notin> set l" "last l \<noteq> CHR 0x0D"
    using assms(2,4) by (auto simp: list_all_iff dest!: last_in_set)
  have "fst (scan_lines (d @ l @ [CHR 0x0A])) = fst (scan_lines d) @ [drop_cr l] \<and> snd (scan_lines (d @ l @ [CHR 0x0A]))"
    using assms(1,3,4) b(1) by (intro scan_lines_append) (simp_all add: log_complete_def)
  then show ?thesis using b(2) by (simp add: drop_cr_def log_complete_def)
qed

lemma no_history: "reboot_counts e day None file year = fst (parseStartupRebootsByDay day file year)"
  by (simp add: reboot_counts_def parseStartupHistoryByDay_def)

lemma warned_request:
  assumes "stamp_ok st" and "log_complete d" and "day (fst st) = Some dy" and "fst dy = year"
  obtains d' where "snd (reboots_request e day StderrAndFile None year st (Some d)) = Some d'" "log_complete d'"
    "count_of (fst (reboots_request e day StderrAndFile None year st (Some d))) dy = Suc (count_of (reboot_counts e day None (Some d) year) dy)"
    "fst (reboots_request e day StderrAndFile None year st (Some d)) = reboot_counts e day None (Some d') year"
proof -
  let ?l = "log_line (fst st) ''WARN'' ''startup history unavailable'' (snd st)"
  let ?d = "d @ ?l @ [CHR 0x0A]"
  have l: "?l \<noteq> []" by (simp add: log_line_def)
  have a: "fst (scan_lines ?d) = fst (scan_lines d) @ [?l]" "log_complete ?d"
    using log_appended [OF assms(2), of ?l] log_line_plain [OF assms(1)] l by auto
  have r: "reboots_request e day StderrAndFile None year st (Some d) = (reboot_counts e day None (Some ?d) year, Some ?d)"
    by (simp add: reboots_request_def parseStartupHistoryByDay_def log_append_def Let_def)
  have "startup_time ?l = Some (fst st)" using assms(1) startup_time_warning by (simp add: stamp_ok_def)
  then have "List.map_filter startup_time (fst (scan_lines ?d)) =
      List.map_filter startup_time (fst (scan_lines d)) @ [fst st]"
    by (simp add: a(1) List.map_filter_def)
  then have "count_of (reboot_counts e day None (Some ?d) year) dy = Suc (count_of (reboot_counts e day None (Some d) year) dy)"
    using assms(3,4) by (simp add: no_history parseStartupRebootsByDay_def case_prod_unfold count_of_bump_day)
  with r a(2) that show ?thesis by simp
qed

section \<open>Properties\<close>

text \<open>
  C30. Without a history the heat map counts its own readers: on a host whose clock is set to UTC, where the server logs to its file and the log ends with a line break and can be read to its end, every request for the map adds one reboot to the
  present day, because the warning of the missing history is a line of the log the handler then reads and matches the pattern of a start.
\<close>

theorem missing_history_counts_requests:
  assumes "list_all stamp_ok stamps" and "list_all (\<lambda>st. day (fst st) = Some dy) stamps" and "fst dy = year" and "log_complete d"
  shows "count_of (reboot_counts e day None (reboots_requests e day (initLogger True True) None year stamps (Some d)) year) dy =
    count_of (reboot_counts e day None (Some d) year) dy + length stamps"
  using assms
proof (induction stamps arbitrary: d)
  case (Cons st stamps)
  from Cons.prems have "stamp_ok st" "day (fst st) = Some dy" by simp_all
  then obtain d' where d': "snd (reboots_request e day StderrAndFile None year st (Some d)) = Some d'" "log_complete d'"
    "count_of (reboot_counts e day None (Some d') year) dy = Suc (count_of (reboot_counts e day None (Some d) year) dy)"
    using warned_request [OF _ Cons.prems(4) _ Cons.prems(3), of st day e] by metis
  with Cons show ?case by (simp add: reboots_requests_def initLogger_def)
qed (simp add: reboots_requests_def)

theorem missing_history_counts_requests_witness:
  "count_of (reboot_counts demo_history (\<lambda>_. Some (2026, 7, 31)) None
     (reboots_requests demo_history (\<lambda>_. Some (2026, 7, 31)) (initLogger True True) None 2026
        [(''2026-07-31T10:00:00.000Z'', '' err=missing''), (''2026-07-31T10:00:02.000Z'', '' err=missing'')] (Some [])) 2026) (2026, 7, 31) = 2"
proof -
  let ?ss = "[(''2026-07-31T10:00:00.000Z'', '' err=missing''), (''2026-07-31T10:00:02.000Z'', '' err=missing'')]"
  have "utc_stamp ''2026-07-31T10:00:00.000Z''" "utc_stamp ''2026-07-31T10:00:02.000Z''"
    unfolding utc_stamp_def
    by (rule exI [of _ "''2026-07-31T10:00:00.000''"], code_simp) (rule exI [of _ "''2026-07-31T10:00:02.000''"], code_simp)
  then have ok: "list_all stamp_ok ?ss" by (simp add: stamp_ok_def)
  have c: "log_complete []" unfolding log_complete_def by (intro conjI disjI1 refl) code_simp
  have z: "count_of (reboot_counts demo_history (\<lambda>_. Some (2026, 7, 31)) None (Some []) 2026) (2026, 7, 31) = 0"
    unfolding no_history by code_simp
  show ?thesis
    using missing_history_counts_requests [OF ok, of "\<lambda>_. Some (2026, 7, 31)" "(2026, 7, 31)" 2026 "[]" demo_history] c z by simp
qed

end
