(* ===== verification/HostView.thy ===== *)
theory HostView
  imports ServerRun SseStream RebootLog
begin

text \<open>
  The broker behind the routes (\<open>server/routes.go\<close> with the handlers of \<open>sse\<close>): what the handlers see at the time of a request, the
  answers they give, and the server in which they stand. The machine, the ring and the caches change between requests, so a request meets a
  view of its own. The cache of the released versions is state of the server, and the warnings a handler logs are recorded there.
\<close>

section \<open>What the handlers see\<close>

text \<open>
  \<open>hv_logfile\<close> is the log when the request comes, with the records of every part of the program. The last components are the parts of the libraries: the reading of the history, the day of a time
  in the local zone, the printing of numbers and times, and whether the writer can be flushed.
\<close>

record host_view =
  hv_machine :: machine
  hv_role :: host_role
  hv_ring :: ring_buffer
  hv_conn :: conn                      \<comment> \<open>the connection of this request, when it has ended\<close>
  hv_tags :: tags_reply
  hv_now :: int
  hv_date :: string
  hv_year :: int
  hv_history :: "string option"
  hv_logfile :: "string option"
  hv_sink :: log_sink
  hv_stamp :: "string \<times> string"       \<comment> \<open>the time and the attributes of a warning\<close>
  hv_history_env :: history_env
  hv_day :: "string \<Rightarrow> (int \<times> nat \<times> nat) option"
  hv_json :: json_env
  hv_flusher :: bool

definition IsXenDom0 :: "host_role \<Rightarrow> bool" where
  "IsXenDom0 role \<longleftrightarrow> XenControl (Capabilities role)"

section \<open>The handlers\<close>

definition no_stream_msg :: string where
  "no_stream_msg = ''SSE non support'' @ [CHR 0xC3, CHR 0xA9]"

text \<open>\<open>Broker.Handler\<close>: the headers, and what the connection has written when it ends.\<close>

definition StreamHandler :: "host_view \<Rightarrow> request \<Rightarrow> response" where
  "StreamHandler v r =
     (if \<not> hv_flusher v then http_error no_stream_msg 500
      else with_header ''X-Accel-Buffering'' ''no''
             (with_header ''Connection'' ''keep-alive''
               (with_header ''Cache-Control'' ''no-cache''
                 (with_header ''Content-Type'' ''text/event-stream''
                   (respond 200 (Plain (stream_text (marshal_snapshot (hv_json v)) (hv_conn v))))))))"

definition or_aborted :: "response option \<Rightarrow> response" where
  "or_aborted x = (case x of None \<Rightarrow> aborted | Some rs \<Rightarrow> rs)"

text \<open>
  \<open>Broker.RebootsHandler\<close> with its logger: the warning about a missing history is in the log before the log is read.
\<close>

definition reboots_answer :: "host_view \<Rightarrow> request \<Rightarrow> response \<times> string list" where
  "reboots_answer v r =
     (case parseStartupHistoryByDay (hv_history_env v) (hv_day v) (hv_history v) (hv_year v) of
        (counts, ok) \<Rightarrow>
          let logfile = snd (reboots_request (hv_history_env v) (hv_day v) (hv_sink v) (hv_history v) (hv_year v) (hv_stamp v)
                (hv_logfile v));
              fallback = (\<not> ok \<or> counts = []) \<and> \<not> snd (parseStartupRebootsByDay (hv_day v) logfile (hv_year v))
          in (RebootsHandler (hv_history_env v) (hv_day v) (hv_history v) logfile (hv_year v) r,
              (if fallback then [''startup log fallback unavailable''] else []) @
              (if ok then [] else [''startup history unavailable''])))"

definition versions_answer :: "host_view \<Rightarrow> request \<Rightarrow> versions_cache \<Rightarrow> response \<times> versions_cache \<times> string list" where
  "versions_answer v r c =
     (case VersionsHandler (hv_now v) (hv_role v) (hv_tags v) r c of
        (rs, c') \<Rightarrow> (rs, c', version_warnings (hv_now v) (hv_role v) (hv_tags v) c))"

definition live_api :: "host_view \<Rightarrow> broker_api" where
  "live_api v =
     (let m = hv_machine v in
      \<lparr>api_stream = StreamHandler v,
       api_system = (\<lambda>r. or_aborted (map_option (\<lambda>i. json_response 200 (system_info_json (hv_json v) (last_snapshot (hv_ring v)) i))
                           (SystemInfoHandler m (hv_date v) (hv_role v) (hv_ring v)))),
       api_versions = versions_answer v, api_reboots = reboots_answer v,
       api_bios = (\<lambda>r. or_aborted (map_option (answer bios_answer) (BIOSHandler m r))),
       api_modules = (\<lambda>r. answer modules_answer (ModulesHandler m r)),
       api_gpus = (\<lambda>r. answer gpus_answer (GPUsHandler m r)),
       api_packages = (\<lambda>r. answer packages_answer (PackagesHandler m r)),
       api_services = (\<lambda>r. answer services_answer (ServicesHandler m r)),
       api_security = (\<lambda>r. answer security_answer (SecurityHandler m r)),
       api_logs = (\<lambda>r. answer (\<lambda>fs. JArr (map (log_json (jflo (hv_json v))) fs)) (LogsListHandler m r)),
       api_logs_tail = (\<lambda>r. answer tail_answer (LogsTailHandler m r))\<rparr>)"

text \<open>The server with these handlers, and with the check for the control domain that the Xen handlers are given.\<close>

definition live_server :: "host_view \<Rightarrow> 'f server \<Rightarrow> 'f server" where
  "live_server v s = s\<lparr>sv_broker := live_api v, sv_xen := (sv_xen s)\<lparr>xe_dom0 := Some (IsXenDom0 (hv_role v))\<rparr>\<rparr>"

lemma live_server_simps [simp]:
  "sv_env (live_server v s) = sv_env s" "sv_oauth (live_server v s) = sv_oauth s"
  "sv_oauth_env (live_server v s) = sv_oauth_env s" "sv_csrf (live_server v s) = sv_csrf s"
  "sv_trusted (live_server v s) = sv_trusted s" "sv_https (live_server v s) = sv_https s"
  "sv_assets (live_server v s) = sv_assets s" "sv_assets_dir (live_server v s) = sv_assets_dir s"
  "sv_alt_svc (live_server v s) = sv_alt_svc s" "sv_broker (live_server v s) = live_api v"
  "sv_xen (live_server v s) = (sv_xen s)\<lparr>xe_dom0 := Some (IsXenDom0 (hv_role v))\<rparr>"
  by (simp_all add: live_server_def)

lemma dom0Ready_live [simp]: "dom0Ready (xe\<lparr>xe_dom0 := Some b\<rparr>) = b"
  by (simp add: dom0Ready_def)

section \<open>The table up to the handlers\<close>

text \<open>Two tables with the same patterns whose handlers agree on a request in a state.\<close>

definition same_answers :: "request \<Rightarrow> 'w \<Rightarrow> 'w table \<Rightarrow> 'w table \<Rightarrow> bool" where
  "same_answers r w = list_all2 (\<lambda>(p, h) (p', h'). p = p' \<and> h r w = h' r w)"

lemma same_answers_refl [simp]: "same_answers r w t t"
  by (auto simp: same_answers_def intro: list_all2_refl)

lemma same_answers_append: "same_answers r w a a' \<Longrightarrow> same_answers r w b b' \<Longrightarrow> same_answers r w (a @ b) (a' @ b')"
  by (simp add: same_answers_def list_all2_appendI)

lemma same_answers_wrap:
  "list_all2 (\<lambda>(p, h) (p', h'). p = p' \<and> mw h r w = mw h' r w) t t' \<Longrightarrow> same_answers r w (wrap mw t) (wrap mw t')"
  by (auto simp: same_answers_def wrap_def list_all2_map1 list_all2_map2 elim!: list_all2_mono)

lemma same_answers_map_of:
  "same_answers r w t t' \<Longrightarrow> rel_option (\<lambda>h h'. h r w = h' r w) (map_of t p) (map_of t' p)"
  unfolding same_answers_def by (induction rule: list_all2_induct) auto

lemma same_answers_fold:
  "same_answers r w t t' \<Longrightarrow> rel_option (\<lambda>(p, h) (p', h'). p = p' \<and> h r w = h' r w) b b' \<Longrightarrow>
     rel_option (\<lambda>(p, h) (p', h'). p = p' \<and> h r w = h' r w) (fold (better_route q) t b) (fold (better_route q) t' b')"
  unfolding same_answers_def
  by (induction t t' arbitrary: b b' rule: list_all2_induct) (auto simp: option_rel_Some1 split: option.splits prod.splits)

lemma same_answers_mux:
  assumes "same_answers r w t t'"
  shows "serve_mux t r w = serve_mux t' r w"
proof -
  let ?p = "cleanPath (path r)"
  have e: "(map_of t q = None) = (map_of t' q = None)" for q
    using same_answers_map_of [OF assms, of q] by (cases "map_of t q"; cases "map_of t' q") auto
  have l: "rel_option (\<lambda>(p, h) (p', h'). p = p' \<and> h r w = h' r w) (longest t ?p) (longest t' ?p)"
    unfolding longest_def by (rule same_answers_fold [OF assms]) simp
  show ?thesis
  proof (cases "map_of t ?p")
    case None
    then have "map_of t' ?p = None" using e by simp
    with None l show ?thesis
      by (cases "longest t ?p"; cases "longest t' ?p") (auto simp: serve_mux_def Let_def e [of "?p @ ''/''"])
  next
    case (Some h)
    with same_answers_map_of [OF assms, of ?p] show ?thesis
      by (cases "map_of t' ?p") (auto simp: serve_mux_def Let_def)
  qed
qed

end
