(* ===== verification/LiveServer.thy ===== *)
theory LiveServer
  imports HostView
begin

text \<open>
  The whole program at work: what a request can learn of the machine, which commands it can cause on which host, and what a
  session is answered, for the assembled server with the broker's handlers behind its routes.
\<close>

section \<open>Noninterference\<close>

lemma wrap_same_answers:
  assumes "\<And>h h'. mw h r w = mw h' r w" and "map fst t = map fst t'"
  shows "same_answers r w (wrap mw t) (wrap mw t')"
proof (rule same_answers_wrap)
  have "list_all2 (\<lambda>x y. fst x = fst y) t t'"
    using assms(2) by (simp add: list_all2_conv_all_nth list_eq_iff_nth_eq)
  then show "list_all2 (\<lambda>(p, h) (p', h'). p = p' \<and> mw h r w = mw h' r w) t t'"
    by (rule list_all2_mono) (use assms(1) in \<open>simp add: case_prod_beta\<close>)
qed

lemma Auth_anonymous_same: "identity e w r = None \<Longrightarrow> Auth e h r w = Auth e h' r w"
  by (simp add: Auth_identity)

lemma serve_cong:
  assumes "\<And>b. serve_mux (setupRoutes (live_server v s)) (skip_mark b r) w = serve_mux (setupRoutes (live_server v' s)) (skip_mark b r) w"
  shows "serve (live_server v s) r w = serve (live_server v' s) r w"
proof -
  let ?chain = "\<lambda>v. Secure (sv_https s) (CSRFBypass (CSRFProtect (e_hmac (sv_env s)) (sv_csrf s) (sv_trusted s) (sv_https s)
      (serve_mux (setupRoutes (live_server v s))))) r w"
  have "?chain v = ?chain v'"
    unfolding Secure_def CSRFBypass_mark CSRFProtect_def by (simp add: assms split: option.split)
  then show ?thesis by (simp add: serve_def Let_def split: option.split)
qed

lemma setup_live:
  "setupRoutes (live_server v s) =
     public_routes s @ static_routes s @ wrap (Auth (sv_env s)) (session_handlers (live_server v s)) @
     wrap (writeMW (sv_env s)) (write_handlers (live_server v s)) @ wrap (adminMW (sv_env s)) (admin_handlers (live_server v s))"
  by (simp add: setupRoutes_def public_routes_def static_routes_def Let_def)

lemma anonymous_table:
  assumes "identity (sv_env s) w r = None"
  shows "same_answers r w (setupRoutes (live_server v s)) (setupRoutes (live_server v' s))"
  unfolding setup_live
  by (intro same_answers_append same_answers_refl wrap_same_answers)
     (simp_all add: session_handlers_def write_handlers_def admin_handlers_def writeMW_def adminMW_def Let_def
        Auth_anonymous_same [OF assms])

section \<open>Which host runs commands\<close>

lemma profile_xl [simp]: "w_xl (snd (profile_handler e r w)) = w_xl w"
  by (cases rule: profile_handler_cases [of e r w]) simp_all

lemma password_xl [simp]: "w_xl (snd (UpdatePasswordHandler e r w)) = w_xl w"
  by (cases rule: password_handler_cases [of e r w]) simp_all

lemma admin_users_xl [simp]: "w_xl (snd (AdminUsers e r w)) = w_xl w"
  by (cases rule: admin_users_cases [of e r w]) simp_all

lemma admin_user_xl [simp]: "w_xl (snd (AdminUserByEmail e r w)) = w_xl w"
  by (cases rule: AdminUserByEmail_cases [of e r w]) simp_all

lemma branding_xl [simp]: "w_xl (snd (UpdateBranding e r w)) = w_xl w" "w_xl (snd (ResetBranding e r w)) = w_xl w"
  using branding_handlers [of e r w] by auto

lemma callback_xl [simp]: "w_xl (snd (CallbackHandler oe os e r w)) = w_xl w"
proof (cases rule: CallbackHandler_cases [of oe os e r w])
  case (finished conf token email0)
  have "w_xl (snd (oauth_finish os e (normalizeEmail email0) r w)) = w_xl w"
    by (auto simp: oauth_finish_def Let_def split: sum.splits)
  then show ?thesis by (simp add: finished(9))
qed simp

lemma xen_not_ready:
  assumes "\<not> dom0Ready xe"
  shows "snd (XenInfo xe r w) = w" "snd (Domains xe r w) = w" "snd (DomainAction xe r w) = w" "snd (XenCreate xe r w) = w"
  using assms by (simp_all add: XenInfo_def Domains_def DomainAction_def XenCreate_def)

lemma serve_no_dom0:
  assumes "\<not> dom0Ready (sv_xen s)"
  shows "w_xl (snd (serve s r w)) = w_xl w"
proof (cases rule: serve_effect [where s = s and r = r and w = w])
  case quiet
  then show ?thesis by (simp add: same_accounts_def)
next
  case (callback b)
  then show ?thesis by simp
next
  case (guarded b pat allowed g em ro)
  from guarded(1) show ?thesis
  proof (cases rule: guarded_cases)
    case open_route
    from open_route(2) show ?thesis
      by (cases rule: session_handler_cases) (simp_all add: guarded(5) xen_not_ready [OF assms] same_accounts_def)
  next
    case write_route
    from write_route(2) show ?thesis
      by (cases rule: write_handler_cases) (simp_all add: guarded(5) xen_not_ready [OF assms])
  next
    case admin_route
    from admin_route(2) show ?thesis
      by (cases rule: admin_handler_cases) (simp_all add: guarded(5) xen_not_ready [OF assms])
  qed
qed

text \<open>A run of the server on a host, each request with the view of its time.\<close>

definition serve_live :: "('f server \<times> host_view \<times> request) list \<Rightarrow> world \<Rightarrow> world" where
  "serve_live reqs = serve_all (map (\<lambda>(s, v, r). (live_server v s, r)) reqs)"

lemma serve_live_simps [simp]:
  "serve_live [] w = w" "serve_live ((s, v, r) # reqs) w = serve_live reqs (snd (serve (live_server v s) r w))"
  by (simp_all add: serve_live_def serve_all_def)

lemma serve_live_no_dom0:
  "list_all (\<lambda>(s, v, r). \<not> IsXenDom0 (hv_role v)) reqs \<Longrightarrow> w_xl (serve_live reqs w) = w_xl w"
  by (induction reqs arbitrary: w) (auto simp: serve_no_dom0)

section \<open>Answers to a session\<close>

text \<open>The paths the handlers behind the session are reached by: each is exact, and the only pattern for its path.\<close>

definition session_paths :: "string list" where
  "session_paths = [''/sse/system'', ''/api/system'', ''/api/versions'', ''/api/reboots'', ''/api/bios'', ''/api/modules'',
     ''/api/gpus'', ''/api/packages'', ''/api/services'', ''/api/security'', ''/api/logs'', ''/api/logs/tail'', ''/api/xen/info'',
     ''/api/xen/domains'', ''/api/profile'']"

definition public_paths :: "string list" where
  "public_paths = [''/api/csrf'', ''/api/public/version'', ''/api/login'', ''/api/logout'', ''/api/session'', ''/api/branding'',
     ''/api/oauth/providers'', ''/api/oauth/login'', ''/api/oauth/callback'']"

lemma session_paths: "map fst (session_handlers s) = session_paths" "map fst (public_routes s) = public_paths"
  by (simp_all add: session_handlers_def session_paths_def public_routes_def public_paths_def Let_def)

lemma session_paths_exact:
  "list_all (\<lambda>p. \<not> has_suffix p ''/'' \<and> p \<notin> set static_files \<and> p \<notin> set public_paths \<and> cleanPath p = p) session_paths"
  "distinct session_paths"
  by code_simp+

lemma session_route:
  assumes "(p, h) \<in> set (session_handlers s)"
  shows "map_of (setupRoutes s) p = Some (Auth (sv_env s) h)" and "cleanPath p = p"
proof -
  have "p \<in> fst ` set (session_handlers s)" using assms by (rule rev_image_eqI) simp
  then have "p \<in> set session_paths" unfolding session_paths(1) [of s, symmetric] set_map .
  then have p: "\<not> has_suffix p ''/''" "p \<notin> set static_files" "p \<notin> set public_paths" "cleanPath p = p"
    using session_paths_exact(1) unfolding list_all_iff by blast+
  have st: "p \<noteq> CHR ''/'' # d @ ''/''" "p \<noteq> ''/''" for d
    using p(1) by (auto simp: has_suffix_iff)
  have "map_of (static_routes s) p = None"
    unfolding map_of_eq_None_iff static_routes_def Let_def using p(2) by (auto simp: st)
  moreover have "map_of (public_routes s) p = None"
    unfolding map_of_eq_None_iff set_map [symmetric] session_paths(2) by (rule p(3))
  moreover have "map_of (wrap (Auth (sv_env s)) (session_handlers s)) p = Some (Auth (sv_env s) h)"
  proof (rule map_of_is_SomeI)
    have "map fst (wrap (Auth (sv_env s)) (session_handlers s)) = session_paths"
      unfolding session_paths(1) [of s, symmetric] by (simp add: wrap_def case_prod_beta)
    then show "distinct (map fst (wrap (Auth (sv_env s)) (session_handlers s)))" using session_paths_exact(2) by simp
  qed (use assms in \<open>force simp: wrap_def\<close>)
  ultimately show "map_of (setupRoutes s) p = Some (Auth (sv_env s) h)" by (simp add: setupRoutes_def map_add_def)
  show "cleanPath p = p" by (rule p(4))
qed

lemma serve_session:
  assumes "(path r, h) \<in> set (session_handlers s)" and "identity (sv_env s) w r = Some i" and "isSafeMethod (req_method r)"
  shows "content (fst (serve s r w)) = content (fst (h (with_identity i (skip_mark (path r \<in> set bypassPaths) r)) w)) \<and>
    status (fst (serve s r w)) = status (fst (h (with_identity i (skip_mark (path r \<in> set bypassPaths) r)) w)) \<and>
    snd (serve s r w) = snd (h (with_identity i (skip_mark (path r \<in> set bypassPaths) r)) w)"
proof -
  let ?r = "skip_mark (path r \<in> set bypassPaths) r"
  have mux: "serve_mux (setupRoutes s) ?r w = h (with_identity i ?r) w"
    using session_route [OF assms(1)] assms(2) by (simp add: serve_mux_def Let_def Auth_allowed)
  have csrf: "CSRFProtect (e_hmac (sv_env s)) (sv_csrf s) (sv_trusted s) (sv_https s) (serve_mux (setupRoutes s)) ?r w =
      h (with_identity i ?r) w"
    using assms(3) by (simp add: CSRFProtect_def validOrigin_def mux)
  have pre: "content (preset k x rs) = content rs" "status (preset k x rs) = status rs" for k x rs
    by (simp_all add: preset_def)
  show ?thesis
    by (simp add: serve_def Let_def Secure_def CSRFBypass_mark csrf pre split: option.split prod.split)
qed

text \<open>The endpoints of the broker, by path.\<close>

definition machine_api :: "host_view \<Rightarrow> world table" where
  "machine_api v =
     (let b = live_api v in
      [(''/sse/system'', pure_handler (api_stream b)), (''/api/system'', pure_handler (api_system b)),
       (''/api/versions'', versions_route b), (''/api/reboots'', reboots_route b),
       (''/api/bios'', pure_handler (api_bios b)), (''/api/modules'', pure_handler (api_modules b)),
       (''/api/gpus'', pure_handler (api_gpus b)), (''/api/packages'', pure_handler (api_packages b)),
       (''/api/services'', pure_handler (api_services b)), (''/api/security'', pure_handler (api_security b)),
       (''/api/logs'', pure_handler (api_logs b)), (''/api/logs/tail'', pure_handler (api_logs_tail b))])"

lemma machine_api_route: "(p, h) \<in> set (machine_api v) \<Longrightarrow> (p, h) \<in> set (session_handlers (live_server v s))"
  by (auto simp: machine_api_def session_handlers_def Let_def)

lemma query_get_ctx [simp]: "query_get (with_identity i (skip_mark b r)) k = query_get r k"
  by (simp add: query_get_def)

lemma machine_api_ctx:
  assumes "(p, h) \<in> set (machine_api v)"
  shows "h (with_identity i (skip_mark b r)) w = h r w"
proof -
  have "list_all (\<lambda>(p, h). h (with_identity i (skip_mark b r)) w = h r w) (machine_api v)"
    by (simp add: machine_api_def live_api_def Let_def pure_handler_def versions_route_def reboots_route_def versions_answer_def
        reboots_answer_def case_prod_unfold StreamHandler_def VersionsHandler_def RebootsHandler_def BIOSHandler_def
        ModulesHandler_def GPUsHandler_def PackagesHandler_def ServicesHandler_def SecurityHandler_def LogsListHandler_def LogsTailHandler_def)
  then show ?thesis using assms by (auto simp: list_all_iff)
qed

text \<open>What the endpoints change: the cache of the released versions, and the warnings.\<close>

lemma machine_api_state:
  assumes "(p, h) \<in> set (machine_api v)"
  shows "snd (h r w) =
    (if p = ''/api/versions'' then
       w\<lparr>w_versions := check_versions (hv_now v) (hv_role v) (hv_tags v) (w_versions w),
         w_warns := version_warnings (hv_now v) (hv_role v) (hv_tags v) (w_versions w) @ w_warns w\<rparr>
     else if p = ''/api/reboots'' then w\<lparr>w_warns := snd (reboots_answer v r) @ w_warns w\<rparr>
     else w)"
proof -
  have "list_all (\<lambda>(p, h). snd (h r w) =
    (if p = ''/api/versions'' then
       w\<lparr>w_versions := check_versions (hv_now v) (hv_role v) (hv_tags v) (w_versions w),
         w_warns := version_warnings (hv_now v) (hv_role v) (hv_tags v) (w_versions w) @ w_warns w\<rparr>
     else if p = ''/api/reboots'' then w\<lparr>w_warns := snd (reboots_answer v r) @ w_warns w\<rparr>
     else w)) (machine_api v)"
    by (simp add: machine_api_def live_api_def Let_def pure_handler_def versions_route_def reboots_route_def versions_answer_def
        VersionsHandler_def case_prod_unfold)
  then show ?thesis using assms by (auto simp: list_all_iff)
qed

section \<open>A host for the witnesses\<close>

definition demo_view :: "machine \<Rightarrow> host_view" where
  "demo_view m =
     \<lparr>hv_machine = m, hv_role = DetectHostRole bare_machine, hv_ring = empty_ring,
      hv_conn = \<lparr>conn_phase = Streaming, channel = [], greeting = [], written = [], conn_from = 0\<rparr>,
      hv_tags = NoTags, hv_now = 0, hv_date = [], hv_year = 2026, hv_history = None,
      hv_logfile = None, hv_sink = StderrOnly, hv_stamp = (''2026-01-01T00:00:00Z'', []), hv_history_env = demo_history, hv_day = (\<lambda>_. None), hv_json = demo_json_env, hv_flusher = True\<rparr>"

definition logging_machine :: machine where
  "logging_machine = bare_machine\<lparr>m_read := [''/var/log/messages'' \<mapsto> ''boot'' @ [CHR 0x0A] @ ''ready''], m_size := (\<lambda>_. 10)\<rparr>"

definition tail_query :: request where
  "tail_query = (base_request ''GET'' ''/api/logs/tail'')\<lparr>query := [(''file'', ''messages'')]\<rparr>"

section \<open>Properties\<close>

text \<open>
  C7. Without a session nothing can be learned of the machine: the answer to a request that the session middleware does not identify, on any path and with any
  method, is the same on every machine, for every role of the host, ring of readings, log and history, and so is its effect.
\<close>

theorem machine_data_needs_session:
  assumes "identity (sv_env s) w r = None"
  shows "serve (live_server v s) r w = serve (live_server v' s) r w"
proof (rule serve_cong)
  show "serve_mux (setupRoutes (live_server v s)) (skip_mark b r) w = serve_mux (setupRoutes (live_server v' s)) (skip_mark b r) w" for b
    by (rule same_answers_mux [OF anonymous_table]) (simp add: assms)
qed

theorem machine_data_needs_session_witness:
  "serve (live_server (demo_view logging_machine) (demo_server (demo_claims ''bob@x.io'' ''admin''))) tail_query demo_world =
     serve (live_server (demo_view bare_machine) (demo_server (demo_claims ''bob@x.io'' ''admin''))) tail_query demo_world"
  by (rule machine_data_needs_session) (simp add: identity_def FromRequest_def cookie_def tail_query_def base_request_def)

text \<open>
  C8. Commands run on the control domain only: on a host whose kernel did not say at the start that it is the control domain of a Xen machine, no sequence of
  requests, of administrators included, runs a single \<open>xl\<close> command, whatever the machine shows later.
\<close>

theorem xl_only_on_control_domain:
  assumes "list_all (\<lambda>(s, v, r). hv_role v = DetectHostRole m) reqs" and "\<not> localXenControlAvailable m"
  shows "w_xl (serve_live reqs w) = w_xl w"
proof (rule serve_live_no_dom0)
  show "list_all (\<lambda>(s, v, r). \<not> IsXenDom0 (hv_role v)) reqs"
    using assms by (auto simp: list_all_iff IsXenDom0_def xen_control)
qed

theorem xl_only_on_control_domain_witness:
  "w_xl (serve_live [(demo_server (demo_claims ''bob@x.io'' ''admin''), demo_view logging_machine,
       with_token (base_request ''POST'' ''/api/xen/domains/web/actions''))] demo_world) = []"
proof -
  let ?reqs = "[(demo_server (demo_claims ''bob@x.io'' ''admin''), demo_view logging_machine,
       with_token (base_request ''POST'' ''/api/xen/domains/web/actions''))]"
  have "w_xl (serve_live ?reqs demo_world) = w_xl demo_world"
  proof (rule xl_only_on_control_domain)
    show "list_all (\<lambda>(s, v, r). hv_role v = DetectHostRole bare_machine) ?reqs" by (simp add: demo_view_def)
    show "\<not> localXenControlAvailable bare_machine" by (simp add: localXenControlAvailable_def bare_machine_def)
  qed
  then show ?thesis by (simp add: demo_world_def)
qed

text \<open>
  C10. Every session sees the machine: a safe request of any signed-in user, a viewer included, to an endpoint of the broker is answered with what its handler says
  of the machine. The request leaves the state as it was, with two exceptions: the versions are looked up again when the cache has expired, and they and the map of
  the reboots log their warnings. The client a stream registers while it is open is a step of the broker.
\<close>

theorem session_sees_machine:
  assumes "(path r, h) \<in> set (machine_api v)" and "identity (sv_env s) w r = Some i" and "isSafeMethod (req_method r)"
  shows "content (fst (serve (live_server v s) r w)) = content (fst (h r w)) \<and>
    status (fst (serve (live_server v s) r w)) = status (fst (h r w)) \<and>
    snd (serve (live_server v s) r w) =
      (if path r = ''/api/versions'' then
         w\<lparr>w_versions := check_versions (hv_now v) (hv_role v) (hv_tags v) (w_versions w),
           w_warns := version_warnings (hv_now v) (hv_role v) (hv_tags v) (w_versions w) @ w_warns w\<rparr>
       else if path r = ''/api/reboots'' then w\<lparr>w_warns := snd (reboots_answer v r) @ w_warns w\<rparr>
       else w)"
  using serve_session [OF machine_api_route [OF assms(1), of s], of w i] assms machine_api_state [OF assms(1), of r w]
  by (simp add: machine_api_ctx [OF assms(1)])

text \<open>The log of a machine read by a viewer, and a map of the reboots without a history, which leaves a warning.\<close>

theorem session_sees_machine_witness:
  "content (fst (serve (live_server (demo_view logging_machine) (demo_server (demo_claims ''bob@x.io'' ''admin'')))
       (with_token tail_query) demo_world)) =
     Json (JObj [(''file'', JStr ''messages''), (''lines'', JArr [JStr ''boot'', JStr ''ready'']), (''count'', JNum 2)]) \<and>
   w_warns (snd (serve (live_server (demo_view logging_machine) (demo_server (demo_claims ''bob@x.io'' ''admin'')))
       (with_token (base_request ''GET'' ''/api/reboots'')) demo_world)) =
     [''startup log fallback unavailable'', ''startup history unavailable'']"
proof -
  let ?v = "demo_view logging_machine" and ?s = "demo_server (demo_claims ''bob@x.io'' ''admin'')"
  let ?q = "with_token (base_request ''GET'' ''/api/reboots'')"
  have m: "(path (with_token tail_query), pure_handler (api_logs_tail (live_api ?v))) \<in> set (machine_api ?v)"
    "(path ?q, reboots_route (live_api ?v)) \<in> set (machine_api ?v)"
    by (simp_all add: machine_api_def Let_def with_token_def tail_query_def base_request_def)
  have i: "identity (sv_env ?s) demo_world (with_token tail_query) = Some (''bob@x.io'', ''viewer'')"
    "identity (sv_env ?s) demo_world ?q = Some (''bob@x.io'', ''viewer'')"
    using bob_session [of "''GET''" "''/api/logs/tail''"] bob_session [of "''GET''" "''/api/reboots''"]
    by (simp_all add: tail_query_def identity_def FromRequest_def cookie_def with_token_def)
  have s: "isSafeMethod (req_method (with_token tail_query))" "isSafeMethod (req_method ?q)"
    by (simp_all add: isSafeMethod_def with_token_def tail_query_def base_request_def)
  have "LogsTailHandler logging_machine (with_token tail_query) = Inr (''messages'', [''boot'', ''ready''], 2)" by code_simp
  then have "content (fst (pure_handler (api_logs_tail (live_api ?v)) (with_token tail_query) demo_world)) =
      Json (JObj [(''file'', JStr ''messages''), (''lines'', JArr [JStr ''boot'', JStr ''ready'']), (''count'', JNum 2)])"
    by (simp add: pure_handler_def live_api_def Let_def demo_view_def tail_answer_def jstrs_def jnat_def)
  moreover have "snd (reboots_answer ?v ?q) = [''startup log fallback unavailable'', ''startup history unavailable'']"
    by (simp add: reboots_answer_def demo_view_def parseStartupHistoryByDay_def reboots_request_def log_append_def
        parseStartupRebootsByDay_def Let_def)
  moreover have "path ?q = ''/api/reboots''" by (simp add: with_token_def base_request_def)
  moreover have "w_warns demo_world = []" by (simp add: demo_world_def)
  ultimately show ?thesis
    using session_sees_machine [OF m(1) i(1) s(1)] session_sees_machine [OF m(2) i(2) s(2)] by simp
qed

end
