(* ===== verification/LoopRun.thy ===== *)
theory LoopRun
  imports Broker
begin

text \<open>
  The collector loop (\<open>Broker.loop\<close> in \<open>sse/broker.go\<close>) turn after turn: when it goes on, what it publishes, and that the
  readings it publishes are sound. It joins the results on the collectors, the lease reader, the identification and the ring.
\<close>

section \<open>Turns of the loop\<close>

fun loop_run ::
  "(string \<Rightarrow> rat option) \<Rightarrow> (string \<Rightarrow> (string \<times> string \<times> string) list list option) \<Rightarrow> host_role \<Rightarrow> tick list \<Rightarrow>
     loop_state \<times> broker \<Rightarrow> (loop_state \<times> broker) option" where
  "loop_run pf um role [] st = Some st"
| "loop_run pf um role (t # ts) st =
     (case loop_step pf um role t st of None \<Rightarrow> None | Some st' \<Rightarrow> loop_run pf um role ts st')"

section \<open>When a turn ends\<close>

text \<open>A turn that can be read: the table of the devices has a line break, and the lease files end if there is an ARP table.\<close>

definition tick_readable :: "tick \<Rightarrow> bool" where
  "tick_readable t \<longleftrightarrow>
     CHR 0x0A \<in> set (read_or_empty (tk_machine t) ''/proc/net/dev'') \<and>
     (m_read (tk_net t) ''/proc/net/arp'' \<noteq> None \<longrightarrow> list_all lease_ends (lease_candidates (tk_leases t)))"

lemma metadata_returns: "readKeaNeighborMetadata um leases m = None \<longleftrightarrow> \<not> list_all lease_ends (lease_candidates leases)"
proof -
  have "readKeaLeaseMetadata leases Map.empty = None \<longleftrightarrow> \<not> list_all lease_ends (lease_candidates leases)"
    using read_lease_files_returns [of "sort_key (\<lambda>f. - the (lf_mtime f)) (lease_candidates leases)" Map.empty]
    unfolding readKeaLeaseMetadata_def by (simp add: list_all_iff del: not_None_eq) blast
  then show ?thesis by (simp add: readKeaNeighborMetadata_def)
qed

lemma arp_neighbors_total: "arp_neighbors m md now ls ac \<noteq> None"
proof (induction ls arbitrary: ac)
  case (Cons l ls)
  have total: "\<exists>i ids'. neighborIdentityFor q ids = Some (i, ids')" for q ids
    using compute_query_total [of q] by (auto simp: neighborIdentityFor_def split: option.splits)
  obtain ip flags mac iface where l: "l = (ip, flags, mac, iface)" by (cases l)
  let ?q = "\<lparr>q_ip = ip, q_mac = mac, q_iface = iface, q_inventory = m_env m ''UNYPORT_DEVICE_TYPES'',
      q_hostname = nm_hostname (metadataForNeighbor md ip mac), q_services = []\<rparr>"
  obtain i ids where "neighborIdentityFor ?q (ac_identities ac) = Some (i, ids)" using total by blast
  then have "\<exists>e ac'. arp_neighbor m md now l ac = Some (e, ac')"
    by (simp add: arp_neighbor_def l Let_def split: prod.split)
  then obtain e ac' where "arp_neighbor m md now l ac = Some (e, ac')" by blast
  then show ?case using Cons [of ac'] by auto
qed simp

lemma network_map_total: "collectNetworkMap m md now prev dt ac \<noteq> None"
  using arp_neighbors_total by (auto simp: collectNetworkMap_def readARPTable_def Let_def split: option.splits)

lemma collect_returns:
  "collect pf rng now before m \<noteq> None \<longleftrightarrow> CHR 0x0A \<in> set (read_or_empty m ''/proc/net/dev'')"
proof -
  have n: "readNetBytes m = None \<longleftrightarrow> CHR 0x0A \<notin> set (read_or_empty m ''/proc/net/dev'')"
    "readMainIface m = None \<longleftrightarrow> CHR 0x0A \<notin> set (read_or_empty m ''/proc/net/dev'')"
    by (auto simp: readNetBytes_def readMainIface_def dev_lines_None)
  show ?thesis
    using n by (cases "readNetBytes m"; cases "readMainIface m") (auto simp: collect_def Let_def split: prod.splits)
qed

lemma collect_tick_returns: "collect_tick pf um role t ls \<noteq> None \<longleftrightarrow> tick_readable t"
proof (cases "collect pf (tk_devices t) (tk_now t) (tk_before t) (tk_machine t)")
  case None
  then show ?thesis using collect_returns [of pf "tk_devices t" "tk_now t" "tk_before t" "tk_machine t"]
    by (simp add: collect_tick_def tick_readable_def)
next
  case (Some s0)
  then have dev: "CHR 0x0A \<in> set (read_or_empty (tk_machine t) ''/proc/net/dev'')"
    using collect_returns [of pf "tk_devices t" "tk_now t" "tk_before t" "tk_machine t"] by simp
  let ?md = "if m_read (tk_net t) ''/proc/net/arp'' = None then Some Map.empty else readKeaNeighborMetadata um (tk_leases t) (tk_net t)"
  have md: "?md = None \<longleftrightarrow> \<not> tick_readable t"
    using metadata_returns [of um "tk_leases t" "tk_net t"] dev by (simp add: tick_readable_def)
  have "collect_tick pf um role t ls = None \<longleftrightarrow> ?md = None"
  proof (cases ?md)
    case None
    then show ?thesis unfolding collect_tick_def Some by (simp only: option.case Let_def) simp
  next
    case md: (Some md)
    let ?dt = "elapsed (prevSnap ls) (net_rates (prevSnap ls) s0)"
    obtain nm cur ac where nm: "collectNetworkMap (tk_net t) md (tk_net_now t) (prevIfaces ls) ?dt (loop_caches ls) = Some (nm, cur, ac)"
      using network_map_total [of "tk_net t" md "tk_net_now t" "prevIfaces ls" ?dt "loop_caches ls"] by auto
    show ?thesis unfolding collect_tick_def Some by (simp only: option.case Let_def md nm prod.case) (simp split: prod.split)
  qed
  then show ?thesis using md by simp
qed

section \<open>What is published\<close>

definition readings_kept :: "tick \<Rightarrow> snapshot \<Rightarrow> snapshot \<Rightarrow> bool" where
  "readings_kept t s0 s \<longleftrightarrow>
     Timestamp s = tk_now t \<and> CPUUsage s = CPUUsage s0 \<and> CPUPerCore s = CPUPerCore s0 \<and> CPUFreqAvg s = CPUFreqAvg s0 \<and>
     MemTotal s = MemTotal s0 \<and> MemUsed s = MemUsed s0 \<and> MemUsedPct s = MemUsedPct s0"

lemma net_rates_kept: "CPUPerCore (net_rates p s) = CPUPerCore s" "MemUsedPct (net_rates p s) = MemUsedPct s"
  by (simp_all add: net_rates_def Let_def)

lemma collect_tick_kept:
  assumes "collect_tick pf um role t ls = Some (s, ls')"
  obtains s0 where "collect pf (tk_devices t) (tk_now t) (tk_before t) (tk_machine t) = Some s0" "readings_kept t s0 s"
proof -
  obtain s0 where s0: "collect pf (tk_devices t) (tk_now t) (tk_before t) (tk_machine t) = Some s0"
    using assms by (auto simp: collect_tick_def split: option.splits)
  have k: "readings_kept t s0 (net_rates p s0\<lparr>NetMap := nm\<rparr>)" for p nm
    by (simp add: readings_kept_def collect_Timestamp [OF s0] net_rates_kept)
  have x: "readings_kept t s0 (fst (with_xen pf role m prev dt u))" if "readings_kept t s0 u" for m prev dt u
    using that by (auto simp: with_xen_def readings_kept_def split: prod.split)
  have "readings_kept t s0 s"
    using assms x [OF k] unfolding collect_tick_def s0 by (auto simp: Let_def split: option.splits prod.splits) (metis fst_conv)+
  with s0 show thesis by (rule that)
qed

lemma publish_simps [simp]:
  "published (publish s b) = published b @ [computeOscilloScales (b_ring b) s windowSnaps]"
  "b_ring (publish s b) = push (computeOscilloScales (b_ring b) s windowSnaps) (b_ring b)"
  by (simp_all add: publish_def Let_def)

lemma loop_run_total: "loop_run pf um role ts st \<noteq> None \<longleftrightarrow> list_all tick_readable ts"
proof (induction ts arbitrary: st)
  case (Cons t ts)
  have "loop_step pf um role t st \<noteq> None \<longleftrightarrow> tick_readable t"
    using collect_tick_returns [of pf um role t "fst st"] by (auto simp: loop_step_def)
  then show ?case using Cons by (cases "loop_step pf um role t st") auto
qed simp

lemma loop_stepE:
  assumes "loop_step pf um role t (ls, b) = Some st"
  obtains s0 s ls' where "collect pf (tk_devices t) (tk_now t) (tk_before t) (tk_machine t) = Some s0" "readings_kept t s0 s"
    "st = (ls', publish s b)"
  using assms collect_tick_kept by (auto simp: loop_step_def elim!: collect_tick_kept)

lemma loop_run_published:
  assumes "loop_run pf um role ts (ls, b) = Some (ls', b')"
  shows "map Timestamp (published b') = map Timestamp (published b) @ map tk_now ts"
  using assms
proof (induction ts arbitrary: ls b)
  case (Cons t ts)
  then obtain st where st: "loop_step pf um role t (ls, b) = Some st" "loop_run pf um role ts st = Some (ls', b')"
    by (auto split: option.splits)
  from st(1) show ?case
  proof (rule loop_stepE)
    fix s0 s l assume "readings_kept t s0 s" "st = (l, publish s b)"
    with Cons.IH [of l "publish s b"] st(2) show ?thesis by (simp add: readings_kept_def)
  qed
qed simp

text \<open>The turns of the loop are publications of the broker, so the results on the connections apply to them.\<close>

lemma loop_run_is_broker_run:
  assumes "loop_run pf um role ts (ls, b) = Some (ls', b')" and "broker_run es b"
  shows "\<exists>ss. length ss = length ts \<and> broker_run (es @ map Publish ss) b'"
  using assms
proof (induction ts arbitrary: ls b es)
  case (Cons t ts)
  then obtain st where st: "loop_step pf um role t (ls, b) = Some st" "loop_run pf um role ts st = Some (ls', b')"
    by (auto split: option.splits)
  from st(1) show ?case
  proof (rule loop_stepE)
    fix s0 s l assume s: "st = (l, publish s b)"
    have "broker_run (es @ [Publish s]) (publish s b)"
      by (rule broker_run.Step [OF Cons.prems(2)]) (rule broker_step.Publish)
    from Cons.IH [OF _ this, of l] st(2) s obtain ss where
      "length ss = length ts" "broker_run ((es @ [Publish s]) @ map Publish ss) b'" by auto
    then show ?thesis by (intro exI [of _ "s # ss"]) simp
  qed
qed (auto intro: exI [of _ "[]"])

section \<open>The readings are sound\<close>

text \<open>A turn whose counters do not go back, on a machine with so much memory.\<close>

definition tick_sound :: "int \<Rightarrow> tick \<Rightarrow> bool" where
  "tick_sound mt t \<longleftrightarrow>
     counters_ok (readCPUTimes (tk_before t)) (readCPUTimes (tk_machine t)) \<and> fst (readMemFull (tk_machine t)) div 1024 = mt"

text \<open>A snapshot within its own scales, all percentages being percentages.\<close>

definition snapshot_sound :: "snapshot \<Rightarrow> bool" where
  "snapshot_sound s \<longleftrightarrow>
     0 \<le> CPUYMin s \<and> CPUYMin s \<le> CPUUsage s \<and> CPUUsage s \<le> CPUYMax s \<and> CPUYMax s \<le> 100 \<and>
     list_all (\<lambda>p. 0 \<le> p \<and> p \<le> 100) (CPUPerCore s) \<and>
     0 \<le> CPUFreqYMin s \<and> CPUFreqYMin s \<le> CPUFreqAvg s \<and> CPUFreqAvg s \<le> CPUFreqYMax s \<and>
     0 \<le> MemYMin s \<and> MemYMin s \<le> MemUsed s \<and> MemUsed s \<le> MemYMax s \<and> MemYMax s \<le> MemTotal s \<and>
     0 \<le> MemUsedPct s \<and> MemUsedPct s \<le> 100"

lemma collect_sound:
  assumes "collect pf rng now before m = Some s"
    and "counters_ok (readCPUTimes before) (readCPUTimes m)" and "fst (readMemFull m) div 1024 = mt"
  shows "reading_ok mt s \<and> MemTotal s = mt \<and> mt < 2 ^ 62 \<and> list_all (\<lambda>p. 0 \<le> p \<and> p \<le> 100) (CPUPerCore s) \<and>
    0 \<le> MemUsedPct s \<and> MemUsedPct s \<le> 100"
proof -
  obtain usage cores where cpu: "cpuPercentAll (readCPUTimes before) (readCPUTimes m) = (usage, cores)" by fastforce
  obtain fa fm fc where freq: "readFreqsPerCore pf m = (fa, fm, fc)" by (cases "readFreqsPerCore pf m")
  obtain tot free cached used where mem: "readMemFull m = (tot, free, cached, used)" by (cases "readMemFull m")
  have b: "0 \<le> usage" "usage \<le> 100" "\<forall>(i, p) \<in> set cores. 0 \<le> p \<and> p \<le> 100"
    using cpu_usage_bounds [OF assms(2) cpu, of 0] by auto
  have f: "0 \<le> computeEffectiveFreq (readCPUTimes before) (readCPUTimes m) fm"
    using cpu_usage_bounds [OF assms(2) cpu, of fm] by (cases "0 \<le> fm") (auto simp: computeEffectiveFreq_def)
  have u: "0 \<le> used div 1024" "used div 1024 \<le> tot div 1024" "tot div 1024 < 2 ^ 62"
    using readMemFull_bounds [OF mem] by (auto simp: zdiv_mono1)
  from b(3) have "list_all (\<lambda>p. 0 \<le> p \<and> p \<le> 100) (map snd cores)" by (auto simp: list_all_iff)
  then show ?thesis
    using assms(1,3) b(1,2) f u mem_pct_bounds [of used tot]
    by (auto simp: collect_def Let_def cpu freq mem reading_ok_def split: option.splits prod.splits)
qed

lemma scaled_simps [simp]:
  "CPUUsage (computeOscilloScales b s w) = CPUUsage s" "CPUPerCore (computeOscilloScales b s w) = CPUPerCore s"
  "CPUFreqAvg (computeOscilloScales b s w) = CPUFreqAvg s" "MemTotal (computeOscilloScales b s w) = MemTotal s"
  "MemUsed (computeOscilloScales b s w) = MemUsed s" "MemUsedPct (computeOscilloScales b s w) = MemUsedPct s"
  by (simp_all add: computeOscilloScales_def Let_def)

lemma reading_ok_scaled [simp]: "reading_ok mt (computeOscilloScales b s w) = reading_ok mt s"
  by (simp add: reading_ok_def)

text \<open>What the broker has published so far, and that its ring is made of it.\<close>

definition published_ok :: "int \<Rightarrow> broker \<Rightarrow> bool" where
  "published_ok mt b \<longleftrightarrow>
     b_ring b = fold push (published b) empty_ring \<and> list_all (\<lambda>s. reading_ok mt s \<and> snapshot_sound s) (published b)"

lemma publish_sound:
  assumes "published_ok mt b" and "reading_ok mt s" and "MemTotal s = mt" and "mt < 2 ^ 62"
    and "list_all (\<lambda>p. 0 \<le> p \<and> p \<le> 100) (CPUPerCore s)" and "0 \<le> MemUsedPct s \<and> MemUsedPct s \<le> 100"
  shows "published_ok mt (publish s b)"
proof -
  have "set (window_of (b_ring b) windowSnaps) \<subseteq> set (published b)"
    using assms(1) by (auto simp: published_ok_def window_history dest!: in_set_dropD in_set_takeD)
  then have "list_all (reading_ok (MemTotal s)) (s # window_of (b_ring b) windowSnaps)"
    using assms(1-3) by (auto simp: published_ok_def list_all_iff)
  from scales_contain_window [OF this] assms(3,4) have "snapshot_sound (computeOscilloScales (b_ring b) s windowSnaps)"
    using assms(5,6) by (simp add: snapshot_sound_def Let_def)
  then show ?thesis using assms(1,2) by (simp add: published_ok_def)
qed

lemma loop_run_sound:
  assumes "list_all (tick_sound mt) ts" and "loop_run pf um role ts (ls, b) = Some (ls', b')" and "published_ok mt b"
  shows "published_ok mt b'"
  using assms
proof (induction ts arbitrary: ls b)
  case (Cons t ts)
  then obtain st where st: "loop_step pf um role t (ls, b) = Some st" "loop_run pf um role ts st = Some (ls', b')"
    by (auto split: option.splits)
  from st(1) show ?case
  proof (rule loop_stepE)
    fix s0 s l
    assume s: "collect pf (tk_devices t) (tk_now t) (tk_before t) (tk_machine t) = Some s0" "readings_kept t s0 s" "st = (l, publish s b)"
    have "reading_ok mt s0 \<and> MemTotal s0 = mt \<and> mt < 2 ^ 62 \<and> list_all (\<lambda>p. 0 \<le> p \<and> p \<le> 100) (CPUPerCore s0) \<and>
        0 \<le> MemUsedPct s0 \<and> MemUsedPct s0 \<le> 100"
      using Cons.prems(1) by (intro collect_sound [OF s(1)]) (simp_all add: tick_sound_def)
    with s(2) have "published_ok mt (publish s b)"
      by (intro publish_sound [OF Cons.prems(3)]) (simp_all add: readings_kept_def reading_ok_def)
    with Cons.IH [of l "publish s b"] Cons.prems(1) st(2) s(3) show ?thesis by simp
  qed
qed simp

section \<open>Properties\<close>

text \<open>A machine at two moments, and a turn of the loop on it.\<close>

definition stat_machine :: "string \<Rightarrow> machine" where
  "stat_machine counters = demo_machine\<lparr>m_read := (m_read demo_machine)(''/proc/stat'' \<mapsto> ''cpu0 '' @ counters)\<rparr>"

definition demo_tick :: tick where
  "demo_tick = \<lparr>tk_now = 5, tk_before = stat_machine ''10 0 10 80 0 0 0 0'', tk_machine = stat_machine ''40 0 10 90 0 0 0 0'',
     tk_net = demo_machine, tk_net_now = 6, tk_devices = [], tk_leases = []\<rparr>"

lemma demo_tick_readable: "tick_readable demo_tick"
proof -
  have "CHR 0x0A \<in> set (read_or_empty (tk_machine demo_tick) ''/proc/net/dev'')" by code_simp
  moreover have "m_read (tk_net demo_tick) ''/proc/net/arp'' = None" by code_simp
  ultimately show ?thesis by (simp add: tick_readable_def)
qed

lemma demo_tick_sound: "tick_sound 8192 demo_tick"
proof -
  have "readCPUTimes (tk_before demo_tick) = [(''cpu0'', \<lparr>idle = 80, total = 100\<rparr>)]"
    "readCPUTimes (tk_machine demo_tick) = [(''cpu0'', \<lparr>idle = 90, total = 140\<rparr>)]" by code_simp+
  moreover have "fst (readMemFull (tk_machine demo_tick)) div 1024 = 8192" by code_simp
  ultimately show ?thesis by (simp add: tick_sound_def counters_ok_def)
qed

text \<open>
  C25. The collector keeps going: however many turns, the loop goes through all of them exactly if in each the table of network devices can be read and, where there is an
  ARP table, every lease file comes to its end; then it has published one snapshot per turn, in order, and nothing else happened to the broker.
\<close>

theorem loop_keeps_running:
  "(loop_run pf um role ts (first_state, new_broker) \<noteq> None \<longleftrightarrow> list_all tick_readable ts) \<and>
   (case loop_run pf um role ts (first_state, new_broker) of
      None \<Rightarrow> True
    | Some (ls, b) \<Rightarrow> map Timestamp (published b) = map tk_now ts \<and>
        (\<exists>ss. length ss = length ts \<and> broker_run (map Publish ss) b))"
proof (cases "loop_run pf um role ts (first_state, new_broker)")
  case None
  then show ?thesis using loop_run_total [of pf um role ts "(first_state, new_broker)"] by simp
next
  case (Some st)
  obtain ls b where st: "st = (ls, b)" by (cases st)
  have "map Timestamp (published b) = map tk_now ts"
    using loop_run_published [OF Some [unfolded st]] by (simp add: new_broker_def)
  moreover have "\<exists>ss. length ss = length ts \<and> broker_run (map Publish ss) b"
    using loop_run_is_broker_run [OF Some [unfolded st] broker_run.Start] by simp
  ultimately show ?thesis using Some st loop_run_total [of pf um role ts "(first_state, new_broker)"] by simp
qed

text \<open>
  C26. Every snapshot that is published makes sense: as long as the processor counters do not go back and the memory of the machine does not change, its usage, per core and in all,
  and its memory share are percentages, and its readings lie within the scales it is sent with, which stay between 0 and 100 percent and 0 and the total memory.
\<close>

theorem published_readings_sound:
  assumes "list_all (tick_sound mt) ts" and "loop_run pf um role ts (first_state, new_broker) = Some (ls, b)"
  shows "list_all snapshot_sound (published b)"
proof -
  have "published_ok mt new_broker" by (simp add: published_ok_def new_broker_def)
  from loop_run_sound [OF assms this] show ?thesis by (simp add: published_ok_def list_all_iff)
qed

theorem published_readings_sound_witness:
  "\<exists>ls b. loop_run (\<lambda>_. None) (\<lambda>_. None) alpineBaremetalRole [demo_tick] (first_state, new_broker) = Some (ls, b) \<and>
     length (published b) = 1 \<and> list_all snapshot_sound (published b)"
proof -
  let ?run = "loop_run (\<lambda>_. None) (\<lambda>_. None) alpineBaremetalRole [demo_tick] (first_state, new_broker)"
  obtain ls b where run: "?run = Some (ls, b)" using loop_run_total [of _ _ _ "[demo_tick]"] demo_tick_readable by fastforce
  have "list_all (tick_sound 8192) [demo_tick]" by (simp add: demo_tick_sound)
  from published_readings_sound [OF this run] have "list_all snapshot_sound (published b)" .
  moreover have "map Timestamp (published b) = [5]"
    using loop_run_published [OF run] by (simp add: new_broker_def demo_tick_def)
  ultimately show ?thesis using run by auto
qed

end
