(* ===== verification/ProcessEntry.thy ===== *)
theory ProcessEntry
  imports ServerRun StartupHistory
begin

text \<open>
  The start of the process (\<open>main\<close> in \<open>cmd/unyport/main.go\<close>): the two files are loaded, the start is noted in the history, the server is assembled, and one of
  the two ways of listening is chosen (\<open>ListenAndServe\<close> and \<open>ListenAndServeHTTP\<close> in \<open>server/server.go\<close>). Serving itself, the signal and the shutdown are I/O.
\<close>

section \<open>Listening\<close>

datatype listening = OverTLS | OverHTTP | ListenError

text \<open>
  \<open>http.Server.ListenAndServeTLS("", "")\<close> needs certificates in the configuration, which \<open>New\<close> puts there together with the HTTP/3 server;
  without them it returns an error at once.
\<close>

definition ListenAndServe :: "listener \<Rightarrow> listening" where
  "ListenAndServe li = (if li_http3 li then OverTLS else ListenError)"

definition ListenAndServeHTTP :: "listener \<Rightarrow> listening" where
  "ListenAndServeHTTP li = OverHTTP"

definition start_listening :: "settings \<Rightarrow> listener \<Rightarrow> listening" where
  "start_listening st li =
     (if http3_Enabled (HTTP3 st) \<and> CertFile (HTTP3 st) \<noteq> [] then ListenAndServe li else ListenAndServeHTTP li)"

section \<open>The process\<close>

text \<open>What the process finds: the two files, the machine and the history file, and what the server is assembled from.\<close>

record 'f process_env =
  pe_config :: config_file
  pe_settings :: settings_file
  pe_machine :: machine
  pe_now :: int
  pe_history_env :: history_env
  pe_writable :: bool
  pe_written :: "nat option"
  pe_history :: "string option"
  pe_startup :: "settings \<Rightarrow> 'f startup"

datatype 'f outcome =
    ExitConfig | ExitSettings
  | Panicked startup_panic "string option"
  | Running "'f server" world listener listening "string option"

text \<open>The history file after the start is the last component of the outcome.\<close>

definition main_start :: "'f process_env \<Rightarrow> 'f outcome" where
  "main_start pe =
     (case LoadConfig (pe_config pe) of
        Inl _ \<Rightarrow> ExitConfig
      | Inr cfg \<Rightarrow>
     (case LoadSettings (pe_settings pe) of
        Inl _ \<Rightarrow> ExitSettings
      | Inr st \<Rightarrow>
          let hist = recordStartupEvent (pe_history_env pe) (pe_machine pe) (pe_now pe) (Theme st) (pe_writable pe)
                       (pe_written pe) (pe_history pe)
          in case New cfg st (pe_startup pe st) of
               Inl x \<Rightarrow> Panicked x hist
             | Inr (s, w, li) \<Rightarrow> Running s w li (start_listening st li) hist))"

section \<open>Facts\<close>

text \<open>The process that runs is in the state the invariant of the server starts from, with limits that are positive.\<close>

lemma main_start_Running:
  assumes "main_start pe = Running s w li l hist"
  obtains cfg st where "LoadConfig (pe_config pe) = Inr cfg" "LoadSettings (pe_settings pe) = Inr st"
    "New cfg st (pe_startup pe st) = Inr (s, w, li)" "l = start_listening st li"
  using assms by (auto simp: main_start_def Let_def split: sum.splits prod.splits)

lemma main_start_limits:
  "main_start pe = Running s w li l hist \<Longrightarrow> 0 < maxAttempts (w_limiter w)"
  by (auto simp: New_def Let_def login_attempts_def NewLoginRateLimiter_def elim!: main_start_Running dest!: LoadSettings_limits
      split: sum.splits prod.splits option.splits)

text \<open>
  A certificate without a usable key leaves the process without a listener: the configuration is said to fall back to HTTP, but the
  process then asks for TLS all the same, gets an error, and waits for its signal; this is the only way not to listen.
\<close>

theorem unusable_key_serves_nothing:
  "start_listening st (listeners st cert_ok port) = ListenError \<longleftrightarrow>
     http3_Enabled (HTTP3 st) \<and> CertFile (HTTP3 st) \<noteq> [] \<and> (KeyFile (HTTP3 st) = [] \<or> \<not> cert_ok)"
  by (auto simp: start_listening_def ListenAndServe_def ListenAndServeHTTP_def listeners_def Let_def)

text \<open>Without a certificate the port of HTTP/3 speaks plain HTTP, although the redirection sends browsers to https there.\<close>

lemma redirect_to_plain_port:
  "http3_Enabled (HTTP3 st) \<Longrightarrow> RedirectHTTP (HTTP3 st) \<Longrightarrow> CertFile (HTTP3 st) = [] \<Longrightarrow>
     li_redirect (listeners st cert_ok port) \<and> start_listening st (listeners st cert_ok port) = OverHTTP"
  by (simp add: start_listening_def ListenAndServeHTTP_def listeners_def Let_def)

end
