(* ===== verification/Program.thy ===== *)
theory Program
  imports LiveServer LoopRun ProcessEntry
begin

text \<open>
  The program as a whole: the state of the server, of the collector loop and of the broker side by side, from the start of the process on. What
  happens is any interleaving of requests, turns of the loop and events of the streams; a request meets the ring as it is, and the role of the host as it was
  detected at the start.
\<close>

text \<open>The broker as it starts: the role of the host is detected, nothing has been read, nobody is connected.\<close>

definition NewBroker :: "machine \<Rightarrow> host_role \<times> loop_state \<times> broker" where
  "NewBroker m = (DetectHostRole m, first_state, new_broker)"

record 'f program =
  pg_server :: "'f server"          \<comment> \<open>as it was assembled\<close>
  pg_role :: host_role              \<comment> \<open>detected once, when the process starts\<close>
  pg_world :: world
  pg_loop :: loop_state
  pg_broker :: broker

datatype 'f happening = Request "'f server" host_view request | Turn tick | Client event

definition is_publish :: "event \<Rightarrow> bool" where
  "is_publish e = (case e of Publish _ \<Rightarrow> True | _ \<Rightarrow> False)"

text \<open>The view of a request at a state.\<close>

definition view_at :: "'f program \<Rightarrow> host_view \<Rightarrow> host_view" where
  "view_at p v = v\<lparr>hv_role := pg_role p, hv_ring := b_ring (pg_broker p)\<rparr>"

text \<open>
  A request meets the server that was assembled, with the outcomes of its surroundings at that time: the clock, the random numbers, the files, the provider, the hypervisor. The token
  service, the password hash and the settings are the same for all of them.
\<close>

definition same_server :: "'f server \<Rightarrow> 'f server \<Rightarrow> bool" where
  "same_server s0 s \<longleftrightarrow>
     s = s0\<lparr>sv_env := sv_env s, sv_oauth_env := sv_oauth_env s, sv_xen := sv_xen s, sv_broker := sv_broker s, sv_assets := sv_assets s\<rparr> \<and>
     e_jwt (sv_env s) = e_jwt (sv_env s0) \<and> e_gen (sv_env s) = e_gen (sv_env s0) \<and> e_cmp (sv_env s) = e_cmp (sv_env s0) \<and>
     e_mailer (sv_env s) = e_mailer (sv_env s0) \<and> set (e_color_order (sv_env s)) = set (e_color_order (sv_env s0))"

text \<open>The turns are on a machine whose counters do not go back and whose memory is \<open>mt\<close>.\<close>

inductive program_run ::
  "'f process_env \<Rightarrow> int \<Rightarrow> 'f happening list \<Rightarrow> 'f program \<Rightarrow> bool"
  for pe mt where
  Start: "main_start pe = Running s w li l hist \<Longrightarrow> NewBroker (pe_machine pe) = (role, ls, b) \<Longrightarrow>
    program_run pe mt [] \<lparr>pg_server = s, pg_role = role, pg_world = w, pg_loop = ls, pg_broker = b\<rparr>"
| Request: "program_run pe mt hs p \<Longrightarrow> same_server (pg_server p) s \<Longrightarrow>
    program_run pe mt (hs @ [Request s v r])
      (p\<lparr>pg_world := snd (serve (live_server (view_at p v) s) r (pg_world p))\<rparr>)"
| Turn: "program_run pe mt hs p \<Longrightarrow> tick_sound mt t \<Longrightarrow>
    loop_step pf um (pg_role p) t (pg_loop p, pg_broker p) = Some (ls, b) \<Longrightarrow>
    program_run pe mt (hs @ [Turn t]) (p\<lparr>pg_loop := ls, pg_broker := b\<rparr>)"
| Client: "program_run pe mt hs p \<Longrightarrow> broker_step (pg_broker p) e b \<Longrightarrow> \<not> is_publish e \<Longrightarrow>
    program_run pe mt (hs @ [Client e]) (p\<lparr>pg_broker := b\<rparr>)"

section \<open>The invariants together\<close>

lemma client_published:
  assumes "broker_step b e b'" and "\<not> is_publish e"
  shows "published b' = published b \<and> b_ring b' = b_ring b"
  using assms
  by cases (auto simp: is_publish_def subscribe_def unsubscribe_def greet_def deliver_def Let_def split: option.split list.split)

lemma loop_step_ok:
  assumes "loop_step pf um role t (ls, b) = Some (ls', b')" and "tick_sound mt t" and "broker_ok b" and "published_ok mt b"
  shows "broker_ok b' \<and> published_ok mt b'"
proof -
  have "loop_run pf um role [t] (ls, b) = Some (ls', b')" using assms(1) by simp
  then have "published_ok mt b'" using loop_run_sound [of mt "[t]"] assms(2,4) by fastforce
  moreover have "broker_ok b'"
    using assms(1,3) by (auto simp: loop_step_def intro: broker_ok_step [OF broker_step.Publish])
  ultimately show ?thesis by simp
qed

definition program_ok :: "(string \<Rightarrow> string option) \<Rightarrow> machine \<Rightarrow> int \<Rightarrow> 'f program \<Rightarrow> bool" where
  "program_ok gen m mt p \<longleftrightarrow>
     e_gen (sv_env (pg_server p)) = gen \<and> set (e_color_order (sv_env (pg_server p))) = set color_names \<and>
     server_ok gen (pg_world p) \<and> broker_ok (pg_broker p) \<and> published_ok mt (pg_broker p) \<and>
     pg_role p = DetectHostRole m \<and> (localXenControlAvailable m \<or> w_xl (pg_world p) = [])"

text \<open>
  A first start: no users file, no branding file, an administrator's password that is long enough; \<open>e_color_order\<close> is an order in which Go ranges over the colours.
\<close>

definition first_start :: "(string \<Rightarrow> string option) \<Rightarrow> 'f startup \<Rightarrow> bool" where
  "first_start gen su \<longleftrightarrow>
     su_users_file su = Missing \<and> su_branding_file su = NoBrandingFile \<and> e_gen (su_env su) = gen \<and>
     set (e_color_order (su_env su)) = set color_names \<and>
     (su_admin_password su = [] \<or> 8 \<le> length (su_admin_password su))"

lemma New_env:
  "New cfg st su = Inr (s, w, li) \<Longrightarrow>
     e_gen (sv_env s) = e_gen (su_env su) \<and> e_color_order (sv_env s) = e_color_order (su_env su)"
  by (auto simp: New_def Let_def split: sum.splits prod.splits option.splits)

lemma start_ok:
  assumes "main_start pe = Running s w li l hist" and "\<And>st. first_start gen (pe_startup pe st)"
    and "NewBroker m = (role, ls, b)"
  shows "program_ok gen m mt \<lparr>pg_server = s, pg_role = role, pg_world = w, pg_loop = ls, pg_broker = b\<rparr>"
proof -
  obtain cfg st where n: "New cfg st (pe_startup pe st) = Inr (s, w, li)"
    using assms(1) by (rule main_start_Running)
  have "server_ok gen w" using New_ok [OF n] assms(2) [of st] by (simp add: first_start_def)
  moreover have "e_gen (sv_env s) = gen" "set (e_color_order (sv_env s)) = set color_names"
    using New_env [OF n] assms(2) [of st] by (simp_all add: first_start_def)
  moreover have "w_xl w = []" using n by (auto simp: New_def Let_def split: sum.splits prod.splits option.splits)
  moreover have "broker_ok new_broker" "published_ok mt new_broker"
    by (simp_all add: broker_ok_def published_ok_def new_broker_def)
  ultimately show ?thesis using assms(3) by (auto simp: program_ok_def NewBroker_def)
qed

lemma program_run_ok:
  assumes "program_run pe mt hs p" and "\<And>st. first_start gen (pe_startup pe st)"
  shows "program_ok gen (pe_machine pe) mt p"
  using assms(1)
proof (induction rule: program_run.induct)
  case (Start s w li l hist role ls b)
  from start_ok [OF Start(1) assms(2) Start(2)] show ?case .
next
  case (Request hs p s v r)
  let ?s = "live_server (view_at p v) s"
  have "server_ok gen (snd (serve ?s r (pg_world p)))"
    using server_ok_serve [of ?s "pg_world p" r] Request by (simp add: program_ok_def same_server_def)
  moreover have "w_xl (snd (serve ?s r (pg_world p))) = w_xl (pg_world p)" if "\<not> localXenControlAvailable (pe_machine pe)"
  proof -
    have "\<not> dom0Ready (sv_xen ?s)"
      using that Request.IH xen_control [of "pe_machine pe"] by (simp add: program_ok_def view_at_def IsXenDom0_def)
    then show ?thesis by (rule serve_no_dom0)
  qed
  ultimately show ?case
    using Request.IH by (cases "localXenControlAvailable (pe_machine pe)") (simp_all add: program_ok_def)
next
  case (Turn hs p t pf um ls b)
  have "broker_ok b \<and> published_ok mt b"
    by (rule loop_step_ok [OF Turn.hyps(3) Turn.hyps(2)]) (use Turn.IH in \<open>simp_all add: program_ok_def\<close>)
  with Turn.IH show ?case by (simp add: program_ok_def)
next
  case (Client hs p e b)
  then have "broker_ok b" "published b = published (pg_broker p) \<and> b_ring b = b_ring (pg_broker p)"
    using client_published broker_ok_step by (auto simp: program_ok_def)
  with Client.IH show ?case by (simp add: program_ok_def published_ok_def)
qed

text \<open>The parts of the invariant, as they are promised.\<close>

lemma program_okD:
  assumes "program_ok gen m mt p"
  shows "has_admin (w_store (pg_world p))" "store_inv (w_store (pg_world p))" "hashed gen (w_store (pg_world p))"
    "colors_ok (current (w_branding (pg_world p)))" "logo_ok (current (w_branding (pg_world p)))"
    "list_all snapshot_sound (published (pg_broker p))"
    "recent (b_ring (pg_broker p)) = take ringSize (rev (published (pg_broker p)))"
    "b_clients (pg_broker p) c = Some k \<Longrightarrow> conn_ok (published (pg_broker p)) k"
    "\<not> localXenControlAvailable m \<Longrightarrow> w_xl (pg_world p) = []"
  using assms
  by (auto simp: program_ok_def server_ok_def broker_ok_def published_ok_def list_all_iff ring.history)

section \<open>A concrete process\<close>

text \<open>A first start without files, and one turn of the loop.\<close>

definition demo_process :: "json process_env" where
  "demo_process =
     \<lparr>pe_config = ConfigYAML [], pe_settings = SettingsYAML (demo_settings []), pe_machine = bare_machine, pe_now = 0,
      pe_history_env = \<lparr>encode_event = (\<lambda>_. []), decode_event = (\<lambda>_. None), format_time = (\<lambda>_. []), parse_float = (\<lambda>_. None)\<rparr>,
      pe_writable = True, pe_written = None, pe_history = None, pe_startup = (\<lambda>_. demo_startup DefaultAdminEmail)\<rparr>"

lemma demo_process_runs: "\<exists>s w li l hist. main_start demo_process = Running s w li l hist"
proof -
  obtain st where st: "LoadSettings (SettingsYAML (demo_settings [])) = Inr st" by (simp add: LoadSettings_def)
  with LoadSettings_secrets have "Security st = Security (demo_settings [])" by blast
  then obtain s w li where "New [] st (demo_startup DefaultAdminEmail) = Inr (s, w, li)" using demo_New_any by fastforce
  then show ?thesis by (simp add: main_start_def demo_process_def LoadConfig_def st Let_def)
qed

lemma demo_first_start: "first_start toy_gen (pe_startup demo_process st)"
  by (simp add: first_start_def demo_process_def demo_startup_def demo_env_def)

lemma same_server_refl [simp]: "same_server s s"
  by (simp add: same_server_def)

lemma demo_turn: "\<exists>ls b. loop_step (\<lambda>_. None) (\<lambda>_. None) role demo_tick st = Some (ls, b) \<and>
    length (published b) = Suc (length (published (snd st)))"
proof -
  obtain ls b where s: "loop_step (\<lambda>_. None) (\<lambda>_. None) role demo_tick st = Some (ls, b)"
    using loop_run_total [of "\<lambda>_. None" "\<lambda>_. None" role "[demo_tick]" st] demo_tick_readable
    by (auto split: option.splits)
  then show ?thesis by (auto simp: loop_step_def publish_def Let_def)
qed

end
