(* ===== verification/ProcessLife.thy ===== *)
theory ProcessLife
  imports Program
begin

text \<open>
  The life of the process after its start (\<open>main\<close> in \<open>cmd/unyport/main.go\<close>, \<open>Shutdown\<close> in \<open>server/server.go\<close>): it serves until a signal, closes HTTP/3,
  and gives the connections of the other server five seconds to end. \<open>http.Server.Shutdown\<close> is modelled as it is documented: it closes the
  listeners, and then again and again the connections that are idle, until none is left or its context expires; it does not end a connection in
  use. A connection is in use while a handler works for it: the handler of the stream returns only when its client is gone, for it watches
  nothing else; other handlers finish by themselves.
\<close>

section \<open>Connections\<close>

datatype conn_use = Idle | Busy | Stream

record http_conn =
  hc_id :: nat
  hc_quic :: bool
  hc_use :: conn_use

definition use_of :: "nat \<Rightarrow> http_conn list \<Rightarrow> conn_use option" where
  "use_of c hs = map_option hc_use (List.find (\<lambda>h. hc_id h = c) hs)"

definition set_use :: "nat \<Rightarrow> conn_use \<Rightarrow> http_conn list \<Rightarrow> http_conn list" where
  "set_use c u hs = map (\<lambda>h. if hc_id h = c then h\<lparr>hc_use := u\<rparr> else h) hs"

definition drop_conn :: "nat \<Rightarrow> http_conn list \<Rightarrow> http_conn list" where
  "drop_conn c hs = filter (\<lambda>h. hc_id h \<noteq> c) hs"

text \<open>One round of \<open>Shutdown\<close>: the connections that stay, and whether there is none.\<close>

definition closeIdleConns :: "http_conn list \<Rightarrow> bool \<times> http_conn list" where
  "closeIdleConns hs = (let left = filter (\<lambda>h. hc_use h \<noteq> Idle) hs in (left = [], left))"

section \<open>Steps\<close>

definition shutdown_timeout :: int where
  "shutdown_timeout = 5 * 1000000000"

text \<open>\<open>Stopping t\<close>: the signal came at \<open>t\<close>.\<close>

datatype phase_of_life = Serving | Stopping int | Exited int

datatype shutdown_error = DeadlineExceeded

text \<open>The status of the process by the answer of \<open>Shutdown\<close>.\<close>

definition main_status :: "shutdown_error option \<Rightarrow> int" where
  "main_status err = (case err of None \<Rightarrow> 0 | Some _ \<Rightarrow> 1)"

record life =
  lf_phase :: phase_of_life
  lf_conns :: "http_conn list"
  lf_broker :: broker
  lf_clock :: int

definition running :: "life \<Rightarrow> bool" where
  "running l \<longleftrightarrow> (case lf_phase l of Exited _ \<Rightarrow> False | _ \<Rightarrow> True)"

text \<open>\<open>HTTP3.Close\<close> ends the connections of HTTP/3, and with them their handlers.\<close>

definition close_http3 :: "life \<Rightarrow> life" where
  "close_http3 l = l\<lparr>lf_conns := filter (\<lambda>h. \<not> hc_quic h) (lf_conns l),
     lf_broker := fold (\<lambda>h. unsubscribe (hc_id h)) (filter hc_quic (lf_conns l)) (lf_broker l)\<rparr>"

datatype life_event =
    Accept nat bool | Begin nat | Finish nat | Open nat | StreamEvent event | Gone nat
  | Wait int | Signal | Poll | Expire

text \<open>
  A connection is accepted while the server serves; a request on it begins and finishes, or opens the stream; the broker and the stream's handlers go on; a client goes, which ends its
  handler. Upon the signal \<open>main\<close> shuts the servers down: \<open>Poll\<close> is a round of it, \<open>Expire\<close> the end of its context.
\<close>

inductive life_step :: "life \<Rightarrow> life_event \<Rightarrow> life \<Rightarrow> bool" where
  Accept: "lf_phase l = Serving \<Longrightarrow> use_of c (lf_conns l) = None \<Longrightarrow>
    life_step l (Accept c quic) (l\<lparr>lf_conns := \<lparr>hc_id = c, hc_quic = quic, hc_use = Idle\<rparr> # lf_conns l\<rparr>)"
| Begin: "running l \<Longrightarrow> use_of c (lf_conns l) = Some Idle \<Longrightarrow> life_step l (Begin c) (l\<lparr>lf_conns := set_use c Busy (lf_conns l)\<rparr>)"
| Finish: "running l \<Longrightarrow> use_of c (lf_conns l) = Some Busy \<Longrightarrow> life_step l (Finish c) (l\<lparr>lf_conns := set_use c Idle (lf_conns l)\<rparr>)"
| Open: "running l \<Longrightarrow> use_of c (lf_conns l) = Some Idle \<Longrightarrow>
    life_step l (Open c) (l\<lparr>lf_conns := set_use c Stream (lf_conns l), lf_broker := subscribe c (lf_broker l)\<rparr>)"
| StreamEvent: "running l \<Longrightarrow> broker_step (lf_broker l) e b \<Longrightarrow> \<forall>c. e \<noteq> Connect c \<and> e \<noteq> Disconnect c \<Longrightarrow>
    life_step l (StreamEvent e) (l\<lparr>lf_broker := b\<rparr>)"
| Gone: "running l \<Longrightarrow> use_of c (lf_conns l) = Some u \<Longrightarrow>
    life_step l (Gone c) (l\<lparr>lf_conns := drop_conn c (lf_conns l), lf_broker := unsubscribe c (lf_broker l)\<rparr>)"
| Wait: "running l \<Longrightarrow> lf_clock l \<le> t \<Longrightarrow> life_step l (Wait t) (l\<lparr>lf_clock := t\<rparr>)"
| Signal: "lf_phase l = Serving \<Longrightarrow> life_step l Signal ((close_http3 l)\<lparr>lf_phase := Stopping (lf_clock l)\<rparr>)"
| Poll: "lf_phase l = Stopping t \<Longrightarrow> closeIdleConns (lf_conns l) = (quiescent, left) \<Longrightarrow>
    life_step l Poll (l\<lparr>lf_conns := left, lf_phase := (if quiescent then Exited (main_status None) else Stopping t)\<rparr>)"
| Expire: "lf_phase l = Stopping t \<Longrightarrow> t + shutdown_timeout \<le> lf_clock l \<Longrightarrow>
    life_step l Expire (l\<lparr>lf_phase := Exited (main_status (Some DeadlineExceeded))\<rparr>)"

inductive_cases SignalE: "life_step l Signal l'"

inductive life_path :: "life \<Rightarrow> life_event list \<Rightarrow> life \<Rightarrow> bool" where
  Here: "life_path l [] l"
| Then: "life_path l es l' \<Longrightarrow> life_step l' e l'' \<Longrightarrow> life_path l (es @ [e]) l''"

text \<open>The process as it begins to serve, and the status with which it ends before.\<close>

definition serving_at :: "int \<Rightarrow> life" where
  "serving_at t = \<lparr>lf_phase = Serving, lf_conns = [], lf_broker = new_broker, lf_clock = t\<rparr>"

definition exit_status :: "'f outcome \<Rightarrow> int option" where
  "exit_status x = (case x of ExitConfig \<Rightarrow> Some 1 | ExitSettings \<Rightarrow> Some 1 | Panicked _ _ \<Rightarrow> Some 2 | Running _ _ _ _ _ \<Rightarrow> None)"

section \<open>The table of the connections\<close>

lemma use_of_simps [simp]:
  "use_of c [] = None"
  "use_of c (h # hs) = (if hc_id h = c then Some (hc_use h) else use_of c hs)"
  by (simp_all add: use_of_def)

lemma use_of_set_use [simp]: "use_of d (set_use c u hs) = (if d = c then map_option (\<lambda>_. u) (use_of c hs) else use_of d hs)"
  by (induction hs) (auto simp: set_use_def)

lemma use_of_drop [simp]: "use_of d (drop_conn c hs) = (if d = c then None else use_of d hs)"
  by (induction hs) (auto simp: drop_conn_def)

lemma use_of_None_iff: "use_of c hs = None \<longleftrightarrow> c \<notin> hc_id ` set hs"
  by (induction hs) auto

lemma ids_kept [simp]:
  "map hc_id (set_use c u hs) = map hc_id hs" "distinct (map hc_id hs) \<Longrightarrow> distinct (map hc_id (drop_conn c hs))"
  "distinct (map hc_id hs) \<Longrightarrow> distinct (map hc_id (filter P hs))"
  by (induction hs) (auto simp: set_use_def drop_conn_def)

lemma use_of_iff:
  "distinct (map hc_id hs) \<Longrightarrow> use_of c hs = Some u \<longleftrightarrow> (\<exists>h \<in> set hs. hc_id h = c \<and> hc_use h = u)"
  by (induction hs) (auto simp: rev_image_eqI)

lemma use_of_filter:
  "distinct (map hc_id hs) \<Longrightarrow> use_of c (filter P hs) = Some u \<longleftrightarrow> (\<exists>h \<in> set hs. hc_id h = c \<and> hc_use h = u \<and> P h)"
  using use_of_iff [of "filter P hs" c u] by auto

lemma same_conn: "distinct (map hc_id hs) \<Longrightarrow> h \<in> set hs \<Longrightarrow> g \<in> set hs \<Longrightarrow> hc_id g = hc_id h \<Longrightarrow> g = h"
  by (auto simp: distinct_map dest: inj_onD)

section \<open>Facts\<close>

text \<open>
  In every reachable state the connections have numbers of their own, and the clients of the broker are those with an open stream.
\<close>

definition streams_match :: "life \<Rightarrow> bool" where
  "streams_match l \<longleftrightarrow> distinct (map hc_id (lf_conns l)) \<and>
     (\<forall>c. b_clients (lf_broker l) c \<noteq> None \<longleftrightarrow> use_of c (lf_conns l) = Some Stream)"

lemma clients_kept:
  assumes "broker_step b e b'" and "\<forall>c. e \<noteq> Connect c \<and> e \<noteq> Disconnect c"
  shows "b_clients b' c \<noteq> None \<longleftrightarrow> b_clients b c \<noteq> None"
  using assms
  by cases (auto simp: publish_def greet_def deliver_def Let_def split: option.splits list.splits)

lemma clients_fold_unsubscribe:
  "b_clients (fold (\<lambda>h. unsubscribe (hc_id h)) hs b) c = (if c \<in> hc_id ` set hs then None else b_clients b c)"
  by (induction hs arbitrary: b) (auto simp: unsubscribe_def)

lemma streams_match_close:
  assumes "streams_match l"
  shows "streams_match ((close_http3 l)\<lparr>lf_phase := p\<rparr>)"
proof -
  let ?hs = "lf_conns l"
  have d: "distinct (map hc_id ?hs)" using assms by (simp add: streams_match_def)
  have m: "b_clients (lf_broker l) c \<noteq> None \<longleftrightarrow> (\<exists>h \<in> set ?hs. hc_id h = c \<and> hc_use h = Stream)" for c
    using assms use_of_iff [OF d] by (simp add: streams_match_def)
  have "b_clients (fold (\<lambda>h. unsubscribe (hc_id h)) (filter hc_quic ?hs) (lf_broker l)) c \<noteq> None \<longleftrightarrow>
      use_of c (filter (\<lambda>h. \<not> hc_quic h) ?hs) = Some Stream" for c
  proof (cases "\<exists>h \<in> set ?hs. hc_id h = c \<and> hc_quic h")
    case True
    then obtain h where h: "h \<in> set ?hs" "hc_id h = c" "hc_quic h" by blast
    then have "c \<in> hc_id ` set (filter hc_quic ?hs)" by force
    moreover have "use_of c (filter (\<lambda>h. \<not> hc_quic h) ?hs) \<noteq> Some Stream"
      unfolding use_of_filter [OF d]
    proof
      assume "\<exists>g \<in> set ?hs. hc_id g = c \<and> hc_use g = Stream \<and> \<not> hc_quic g"
      then obtain g where "g \<in> set ?hs" "hc_id g = c" "\<not> hc_quic g" by blast
      with same_conn [OF d h(1), of g] h(2,3) show False by simp
    qed
    ultimately show ?thesis by (simp only: clients_fold_unsubscribe if_True simp_thms)
  next
    case False
    then have "c \<notin> hc_id ` set (filter hc_quic ?hs)" by auto
    then show ?thesis unfolding clients_fold_unsubscribe use_of_filter [OF d] using m [of c] False by auto
  qed
  with d show ?thesis by (simp add: streams_match_def close_http3_def)
qed

lemma streams_match_accept:
  assumes "streams_match l" and "use_of c (lf_conns l) = None"
  shows "streams_match (l\<lparr>lf_conns := \<lparr>hc_id = c, hc_quic = quic, hc_use = Idle\<rparr> # lf_conns l\<rparr>)"
proof -
  have "b_clients (lf_broker l) c = None"
  proof (rule ccontr)
    assume "b_clients (lf_broker l) c \<noteq> None"
    then have "use_of c (lf_conns l) = Some Stream" using assms(1) unfolding streams_match_def by blast
    with assms(2) show False by simp
  qed
  with assms use_of_None_iff [of c "lf_conns l"] show ?thesis by (auto simp: streams_match_def)
qed

lemma closeIdleConns_stream:
  assumes "distinct (map hc_id hs)" and "closeIdleConns hs = (quiescent, left)"
  shows "use_of c left = Some Stream \<longleftrightarrow> use_of c hs = Some Stream" and "quiescent \<longleftrightarrow> left = []"
    and "distinct (map hc_id left)"
proof -
  have left: "left = filter (\<lambda>h. hc_use h \<noteq> Idle) hs" and q: "quiescent \<longleftrightarrow> left = []"
    using assms(2) by (auto simp: closeIdleConns_def Let_def)
  show "use_of c left = Some Stream \<longleftrightarrow> use_of c hs = Some Stream"
    unfolding left use_of_filter [OF assms(1)] use_of_iff [OF assms(1)] by force
  show "quiescent \<longleftrightarrow> left = []" by (rule q)
  show "distinct (map hc_id left)" unfolding left using assms(1) by simp
qed

lemma streams_match_step: "life_step l e l' \<Longrightarrow> streams_match l \<Longrightarrow> streams_match l'"
proof (induction rule: life_step.induct)
  case (Accept l c quic)
  then show ?case by (simp add: streams_match_accept)
next
  case (StreamEvent l e b)
  then show ?case using clients_kept [OF StreamEvent.hyps(2,3)] by (simp add: streams_match_def)
next
  case (Signal l)
  then show ?case by (rule_tac streams_match_close)
next
  case (Poll l t quiescent left)
  then have d: "distinct (map hc_id (lf_conns l))" by (simp add: streams_match_def)
  from Poll.prems closeIdleConns_stream(1,3) [OF d Poll.hyps(2)] show ?case by (simp add: streams_match_def)
qed (auto simp: streams_match_def subscribe_def unsubscribe_def)

lemma streams_match_path: "life_path l es l' \<Longrightarrow> streams_match l \<Longrightarrow> streams_match l'"
  by (induction rule: life_path.induct) (auto dest: streams_match_step)

lemma streams_match_start [simp]: "streams_match (serving_at t)"
  by (simp add: streams_match_def serving_at_def new_broker_def)

lemma subscribe_ok: "broker_ok b \<Longrightarrow> broker_ok (subscribe c b)"
  by (auto simp: broker_ok_def subscribe_def conn_ok_def)

lemma unsubscribe_ok: "broker_ok b \<Longrightarrow> broker_ok (unsubscribe c b)"
  by (auto simp: broker_ok_def unsubscribe_def)

text \<open>The broker's invariant holds to the end.\<close>

lemma life_broker_ok: "life_path l es l' \<Longrightarrow> broker_ok (lf_broker l) \<Longrightarrow> broker_ok (lf_broker l')"
proof (induction rule: life_path.induct)
  case (Then l es l' e l'')
  have "broker_ok (fold (\<lambda>h. unsubscribe (hc_id h)) hs b)" if "broker_ok b" for hs b
    using that by (induction hs arbitrary: b) (simp_all add: unsubscribe_ok)
  with Then.hyps(2) Then.IH [OF Then.prems] show ?case
    by cases (simp_all add: close_http3_def subscribe_ok unsubscribe_ok broker_ok_step)
qed

text \<open>An open stream stays open until its client goes, so the process is stopping or has given up after its time.\<close>

definition held :: "nat \<Rightarrow> int \<Rightarrow> life \<Rightarrow> bool" where
  "held c t l \<longleftrightarrow>
     lf_phase l = Stopping t \<and> distinct (map hc_id (lf_conns l)) \<and> use_of c (lf_conns l) = Some Stream \<or>
     lf_phase l = Exited 1 \<and> t + shutdown_timeout \<le> lf_clock l"

lemma held_step:
  assumes "life_step l e l'" and "held c t l" and "e \<noteq> Gone c"
  shows "held c t l'"
  using assms(1)
proof cases
  case (Poll t' quiescent left)
  then have h: "distinct (map hc_id (lf_conns l))" "use_of c (lf_conns l) = Some Stream" "t' = t"
    using assms(2) by (simp_all add: held_def)
  note k = closeIdleConns_stream [OF h(1) Poll(4)]
  have "use_of c left = Some Stream" using k(1) h(2) by simp
  moreover from this have "left \<noteq> []" by auto
  ultimately show ?thesis using Poll h k(2,3) by (simp add: held_def)
next
  case (Expire t')
  then show ?thesis using assms(2) by (auto simp: held_def main_status_def)
qed (use assms(2,3) in \<open>auto simp: held_def running_def\<close>)

lemma held_path: "life_path l es l' \<Longrightarrow> held c t l \<Longrightarrow> Gone c \<notin> set es \<Longrightarrow> held c t l'"
  by (induction rule: life_path.induct) (auto dest: held_step)

text \<open>A process that stops always comes to an end, with status 0 if no connection is in use.\<close>

lemma stopping_ends:
  assumes "lf_phase l = Stopping t"
  shows "\<exists>es l' n. life_path l es l' \<and> lf_phase l' = Exited n \<and>
    (list_all (\<lambda>h. hc_use h = Idle) (lf_conns l) \<longrightarrow> n = 0)"
proof (cases "list_all (\<lambda>h. hc_use h = Idle) (lf_conns l)")
  case True
  then have "closeIdleConns (lf_conns l) = (True, [])"
    by (auto simp: closeIdleConns_def Let_def filter_empty_conv list_all_iff)
  from life_path.Then [OF life_path.Here life_step.Poll [OF assms this]] show ?thesis by (fastforce simp: main_status_def)
next
  case False
  let ?l = "l\<lparr>lf_clock := max (lf_clock l) (t + shutdown_timeout)\<rparr>"
  have w: "life_step l (Wait (max (lf_clock l) (t + shutdown_timeout))) ?l"
    using assms by (intro life_step.Wait) (simp_all add: running_def)
  have "life_step ?l Expire (?l\<lparr>lf_phase := Exited (main_status (Some DeadlineExceeded))\<rparr>)"
    using assms by (intro life_step.Expire [where t = t]) simp_all
  from life_path.Then [OF life_path.Then [OF life_path.Here w] this] False show ?thesis by fastforce
qed

section \<open>Properties\<close>

text \<open>
  C29. An open page keeps the server from stopping in order: if the signal comes while a connection over HTTP/1.1 or HTTP/2 has the stream open, the process can only end
  after the full five seconds and with status 1, as long as that client does not go by itself, whatever else happens. A connection over HTTP/3 is closed at once.
\<close>

theorem open_stream_fails_shutdown:
  assumes "life_path (serving_at t0) es0 l" and "life_step l Signal l1"
    and "\<lparr>hc_id = c, hc_quic = False, hc_use = Stream\<rparr> \<in> set (lf_conns l)"
    and "life_path l1 es l2" and "Gone c \<notin> set es" and "lf_phase l2 = Exited n"
  shows "n = 1 \<and> lf_clock l + shutdown_timeout \<le> lf_clock l2"
proof -
  have d: "distinct (map hc_id (lf_conns l))"
    using streams_match_path [OF assms(1) streams_match_start] by (simp add: streams_match_def)
  have "lf_phase l1 = Stopping (lf_clock l)" "lf_conns l1 = filter (\<lambda>h. \<not> hc_quic h) (lf_conns l)"
    using assms(2) by (auto simp: close_http3_def elim: SignalE)
  moreover have "use_of c (filter (\<lambda>h. \<not> hc_quic h) (lf_conns l)) = Some Stream"
    unfolding use_of_filter [OF d] using assms(3) by force
  ultimately have "held c (lf_clock l) l1" using d by (simp add: held_def)
  from held_path [OF assms(4) this assms(5)] assms(6) show ?thesis by (auto simp: held_def)
qed

theorem open_stream_fails_shutdown_witness:
  "\<exists>l l1 l2. life_path (serving_at 0) [Accept 7 False, Open 7] l \<and> life_step l Signal l1 \<and>
     life_path l1 [Poll, Wait shutdown_timeout, Expire] l2 \<and> lf_phase l2 = Exited 1 \<and> shutdown_timeout \<le> lf_clock l2"
proof -
  define h where "h = \<lparr>hc_id = 7, hc_quic = False, hc_use = Stream\<rparr>"
  define l where "l = \<lparr>lf_phase = Serving, lf_conns = [h], lf_broker = subscribe 7 new_broker, lf_clock = 0\<rparr>"
  define l1 where "l1 = l\<lparr>lf_phase := Stopping 0\<rparr>"
  define l2 where "l2 = l1\<lparr>lf_clock := shutdown_timeout, lf_phase := Exited 1\<rparr>"
  have a: "life_step (serving_at 0) (Accept 7 False) ((serving_at 0)\<lparr>lf_conns := [\<lparr>hc_id = 7, hc_quic = False, hc_use = Idle\<rparr>]\<rparr>)"
    using life_step.Accept [of "serving_at 0" 7 False] by (simp add: serving_at_def)
  have o: "life_step ((serving_at 0)\<lparr>lf_conns := [\<lparr>hc_id = 7, hc_quic = False, hc_use = Idle\<rparr>]\<rparr>) (Open 7) l"
    using life_step.Open [of "(serving_at 0)\<lparr>lf_conns := [\<lparr>hc_id = 7, hc_quic = False, hc_use = Idle\<rparr>]\<rparr>" 7]
    by (simp add: running_def serving_at_def set_use_def l_def h_def)
  have p: "life_path (serving_at 0) ([] @ [Accept 7 False] @ [Open 7]) l"
    using life_path.Then [OF life_path.Then [OF life_path.Here a] o] by simp
  have s: "life_step l Signal l1"
    using life_step.Signal [of l] by (simp add: close_http3_def l_def l1_def h_def)
  have q: "life_step l1 Poll l1"
    using life_step.Poll [of l1 0 False "[h]"] by (simp add: closeIdleConns_def l_def l1_def h_def)
  have w: "life_step l1 (Wait shutdown_timeout) (l1\<lparr>lf_clock := shutdown_timeout\<rparr>)"
    by (rule life_step.Wait) (simp_all add: running_def l1_def l_def shutdown_timeout_def)
  have x: "life_step (l1\<lparr>lf_clock := shutdown_timeout\<rparr>) Expire l2"
    using life_step.Expire [of "l1\<lparr>lf_clock := shutdown_timeout\<rparr>" 0] by (simp add: l1_def l2_def l_def main_status_def)
  have r: "life_path l1 ([] @ [Poll] @ [Wait shutdown_timeout] @ [Expire]) l2"
    using life_path.Then [OF life_path.Then [OF life_path.Then [OF life_path.Here q] w] x] by simp
  have m: "\<lparr>hc_id = 7, hc_quic = False, hc_use = Stream\<rparr> \<in> set (lf_conns l)" by (simp add: l_def h_def)
  from open_stream_fails_shutdown [OF p s m r, of 1] p s r show ?thesis
    by (intro exI [of _ l] exI [of _ l1] exI [of _ l2]) (simp add: l2_def l_def)
qed

end
