(* ===== verification/UsersJson.thy ===== *)
theory UsersJson
  imports Jwt
begin

text \<open>
  The users file of \<open>auth/users.go\<close> as a JSON value: how \<open>encoding/json\<close> writes the map of \<open>User\<close> by the tags of the
  struct, and how it reads a value into it. The text of a value, below this, is the library's; a time is written and read by the
  parameters \<open>tt\<close> and \<open>tp\<close> (\<open>time.Time\<close>'s methods).
\<close>

section \<open>Writing\<close>

definition omit_empty :: "string \<Rightarrow> string \<Rightarrow> (string \<times> json) list" where
  "omit_empty k v = (if v = [] then [] else [(k, JStr v)])"

text \<open>A slice without elements is taken as \<open>nil\<close>; both forms read alike.\<close>

definition user_json :: "(int \<Rightarrow> string) \<Rightarrow> user \<Rightarrow> json" where
  "user_json tt u =
     JObj ([(''id'', JStr (ID u)), (''email'', JStr (Email u)), (''password'', JStr (Password u)),
            (''roles'', if Roles u = [] then JNull else JArr (map JStr (Roles u)))] @
           omit_empty ''display_name'' (DisplayName u) @ omit_empty ''avatar'' (Avatar u) @
           omit_empty ''photo_url'' (PhotoURL u) @ omit_empty ''ssh_key'' (SSHKey u) @
           [(''two_fa'', JBool (TwoFA u)), (''created_at'', JStr (tt (CreatedAt u)))])"

text \<open>\<open>keys\<close> are the keys of the map in the order in which the encoder sorts them.\<close>

definition users_json :: "(int \<Rightarrow> string) \<Rightarrow> string list \<Rightarrow> (string \<Rightarrow> user option) \<Rightarrow> json" where
  "users_json tt keys m = JObj (map (\<lambda>k. (k, case m k of None \<Rightarrow> JNull | Some u \<Rightarrow> user_json tt u)) keys)"

section \<open>Reading\<close>

definition user_fields :: "string list" where
  "user_fields =
     [''id'', ''email'', ''password'', ''roles'', ''display_name'', ''avatar'', ''photo_url'', ''ssh_key'', ''two_fa'', ''created_at'']"

definition user_field :: "string \<Rightarrow> string option" where
  "user_field k = (if k \<in> set user_fields then Some k else List.find (\<lambda>n. equal_fold n k) user_fields)"

definition zero_user :: user where
  "zero_user = \<lparr>ID = [], Email = [], Password = [], Roles = [], DisplayName = [], Avatar = [], PhotoURL = [], SSHKey = [],
     TwoFA = False, CreatedAt = - 62135596800 * second\<rparr>"

fun json_roles :: "json list \<Rightarrow> string list option" where
  "json_roles [] = Some []"
| "json_roles (JStr r # vs) = map_option ((#) r) (json_roles vs)"
| "json_roles (JNull # vs) = map_option ((#) []) (json_roles vs)"
| "json_roles (_ # vs) = None"

definition json_string :: "json \<Rightarrow> string option" where
  "json_string v = (case v of JStr t \<Rightarrow> Some t | _ \<Rightarrow> None)"

text \<open>A value for a field; \<open>None\<close> is a value of another type. A null leaves a field as it is, but a slice becomes \<open>nil\<close>.\<close>

definition set_field :: "(string \<Rightarrow> int option) \<Rightarrow> string \<Rightarrow> json \<Rightarrow> user \<Rightarrow> user option" where
  "set_field tp n v u =
     (if n = ''roles'' then
        (case v of
           JNull \<Rightarrow> Some (u\<lparr>Roles := []\<rparr>)
         | JArr vs \<Rightarrow> map_option (\<lambda>rs. u\<lparr>Roles := rs\<rparr>) (json_roles vs)
         | _ \<Rightarrow> None)
      else if v = JNull then Some u
      else if n = ''two_fa'' then (case v of JBool b \<Rightarrow> Some (u\<lparr>TwoFA := b\<rparr>) | _ \<Rightarrow> None)
      else
        case json_string v of
          None \<Rightarrow> None
        | Some t \<Rightarrow>
            if n = ''id'' then Some (u\<lparr>ID := t\<rparr>)
            else if n = ''email'' then Some (u\<lparr>Email := t\<rparr>)
            else if n = ''password'' then Some (u\<lparr>Password := t\<rparr>)
            else if n = ''display_name'' then Some (u\<lparr>DisplayName := t\<rparr>)
            else if n = ''avatar'' then Some (u\<lparr>Avatar := t\<rparr>)
            else if n = ''photo_url'' then Some (u\<lparr>PhotoURL := t\<rparr>)
            else if n = ''ssh_key'' then Some (u\<lparr>SSHKey := t\<rparr>)
            else map_option (\<lambda>t. u\<lparr>CreatedAt := t\<rparr>) (tp t))"

fun read_members :: "(string \<Rightarrow> int option) \<Rightarrow> (string \<times> json) list \<Rightarrow> user \<Rightarrow> user option" where
  "read_members tp [] u = Some u"
| "read_members tp ((k, v) # ms) u =
     (case user_field k of
        None \<Rightarrow> read_members tp ms u
      | Some n \<Rightarrow> (case set_field tp n v u of None \<Rightarrow> None | Some u' \<Rightarrow> read_members tp ms u'))"

text \<open>An entry of the map: a null is a nil pointer.\<close>

definition read_user :: "(string \<Rightarrow> int option) \<Rightarrow> json \<Rightarrow> user option option" where
  "read_user tp v =
     (case v of
        JNull \<Rightarrow> Some None
      | JObj ms \<Rightarrow> map_option Some (read_members tp ms zero_user)
      | _ \<Rightarrow> None)"

fun read_entries ::
  "(string \<Rightarrow> int option) \<Rightarrow> (string \<times> json) list \<Rightarrow> (string \<Rightarrow> user option option) \<Rightarrow> users_file" where
  "read_entries tp [] m = Entries m"
| "read_entries tp ((k, v) # ms) m =
     (case read_user tp v of None \<Rightarrow> Garbled | Some e \<Rightarrow> read_entries tp ms (m(k \<mapsto> e)))"

text \<open>Decoding the file; \<open>None\<close> is a text that is no JSON. The decoder reports a value of a wrong type as an error as well.\<close>

definition read_users :: "(string \<Rightarrow> int option) \<Rightarrow> json option \<Rightarrow> users_file" where
  "read_users tp doc =
     (case doc of
        None \<Rightarrow> Garbled
      | Some JNull \<Rightarrow> NullDoc
      | Some (JObj ms) \<Rightarrow> read_entries tp ms Map.empty
      | Some _ \<Rightarrow> Garbled)"

section \<open>Reading what was written\<close>

lemma json_roles_map [simp]: "json_roles (map JStr rs) = Some rs"
  by (induction rs) simp_all

lemma user_field_own: "k \<in> set user_fields \<Longrightarrow> user_field k = Some k"
  by (simp add: user_field_def)

lemma read_members_append:
  "read_members tp (ms @ ns) u = (case read_members tp ms u of None \<Rightarrow> None | Some u' \<Rightarrow> read_members tp ns u')"
  by (induction ms arbitrary: u) (auto split: option.splits)

lemma read_own: "k \<in> set user_fields \<Longrightarrow> read_members tp [(k, v)] u = set_field tp k v u"
  by (simp add: user_field_own split: option.split)

lemma read_omit_empty:
  "read_members tp (omit_empty ''display_name'' t) u = Some (if t = [] then u else u\<lparr>DisplayName := t\<rparr>)"
  "read_members tp (omit_empty ''avatar'' t) u = Some (if t = [] then u else u\<lparr>Avatar := t\<rparr>)"
  "read_members tp (omit_empty ''photo_url'' t) u = Some (if t = [] then u else u\<lparr>PhotoURL := t\<rparr>)"
  "read_members tp (omit_empty ''ssh_key'' t) u = Some (if t = [] then u else u\<lparr>SSHKey := t\<rparr>)"
  by (simp_all add: omit_empty_def user_field_def user_fields_def set_field_def json_string_def)

lemma read_user_json:
  assumes "tp (tt (CreatedAt u)) = Some (CreatedAt u)"
  shows "read_user tp (user_json tt u) = Some (Some u)"
proof -
  let ?a = "zero_user\<lparr>ID := ID u, Email := Email u, Password := Password u, Roles := Roles u\<rparr>"
  have a: "read_members tp [(''id'', JStr (ID u)), (''email'', JStr (Email u)), (''password'', JStr (Password u)),
      (''roles'', if Roles u = [] then JNull else JArr (map JStr (Roles u)))] zero_user = Some ?a"
    by (simp add: user_field_def user_fields_def set_field_def json_string_def)
  have z: "read_members tp [(''two_fa'', JBool (TwoFA u)), (''created_at'', JStr (tt (CreatedAt u)))] x =
      Some (x\<lparr>TwoFA := TwoFA u, CreatedAt := CreatedAt u\<rparr>)" for x
    using assms by (simp add: user_field_def user_fields_def set_field_def json_string_def)
  show ?thesis
    unfolding read_user_def user_json_def json.case read_members_append a z read_omit_empty option.case
    by (cases u) (simp add: zero_user_def)
qed

lemma read_entries_json:
  "\<forall>k \<in> set keys. \<exists>u. m k = Some u \<and> tp (tt (CreatedAt u)) = Some (CreatedAt u) \<Longrightarrow>
   read_entries tp (map (\<lambda>k. (k, case m k of None \<Rightarrow> JNull | Some u \<Rightarrow> user_json tt u)) keys) f =
     Entries (\<lambda>k. if k \<in> set keys then Some (m k) else f k)"
proof (induction keys arbitrary: f)
  case (Cons k keys)
  then obtain u where u: "m k = Some u" "tp (tt (CreatedAt u)) = Some (CreatedAt u)" by auto
  have "(\<lambda>x. if x \<in> set keys then Some (m x) else (f(k \<mapsto> Some u)) x) =
      (\<lambda>x. if x \<in> set (k # keys) then Some (m x) else f x)"
    using u(1) by (auto simp: fun_eq_iff)
  with Cons.IH [of "f(k \<mapsto> Some u)"] Cons.prems read_user_json [of tp tt u, OF u(2)] show ?case
    by (simp del: fun_upd_apply add: u(1))
qed simp

lemma read_users_json:
  assumes "set keys = dom m" and "\<forall>u \<in> ran m. tp (tt (CreatedAt u)) = Some (CreatedAt u)"
  shows "read_users tp (Some (users_json tt keys m)) = file_of m"
proof -
  have "\<forall>k \<in> set keys. \<exists>u. m k = Some u \<and> tp (tt (CreatedAt u)) = Some (CreatedAt u)"
    using assms by (auto simp: ran_def)
  from read_entries_json [OF this, of Map.empty] show ?thesis
    using assms(1) by (auto simp: read_users_def users_json_def file_of_def fun_eq_iff dom_def)
qed

section \<open>Properties\<close>

text \<open>
  C17. Round trip of the users file: the JSON value the encoder writes for the map, by the tags of the struct, decodes to the file a save
  is said to leave, and the store it loads is the one that was saved, in whatever order the entries are written and ranged over. The store is one whose
  users are filed under their normalised emails, with an identifier and a role each, and not empty; times are read as they were written.
\<close>

theorem users_file_roundtrip:
  assumes "store_inv s" and "\<forall>u \<in> ran (users s). ID u \<noteq> [] \<and> Roles u \<noteq> []"
    and "\<forall>u \<in> ran (users s). tp (tt (CreatedAt u)) = Some (CreatedAt u)"
    and "set keys = dom (users s)" and "set order = dom (users s)" and "order \<noteq> []"
  shows "read_users tp (Some (users_json tt keys (users s))) = disk (fst (saveLocked SaveOk s)) \<and>
    NewUserStore gen io env now order (read_users tp (Some (users_json tt keys (users s)))) =
      (fst (saveLocked SaveOk s), Inr ())"
  using save_load_roundtrip [OF assms(1,2,5,6), of gen io env now] read_users_json [OF assms(4,3)] by simp

definition toy_time :: "int \<Rightarrow> string" where
  "toy_time t = (if t = 0 then ''1970-01-01T00:00:00Z'' else ''1970-01-01T00:00:01Z'')"

definition toy_parse_time :: "string \<Rightarrow> int option" where
  "toy_parse_time t = (if t = ''1970-01-01T00:00:00Z'' then Some 0 else None)"

theorem users_file_roundtrip_witness:
  "NewUserStore toy_gen SaveOk [] 0 [''bob@x.io'', ''ann@x.io'']
     (read_users toy_parse_time (Some (users_json toy_time [''ann@x.io'', ''bob@x.io''] (users demo_store)))) =
     (demo_store, Inr ())"
proof -
  have c: "ID u \<noteq> [] \<and> Roles u \<noteq> []" "CreatedAt u = 0" if "u \<in> ran (users demo_store)" for u
    using that by (auto simp: demo_store_def ran_def ann_def bob_def mk_user_def split: if_splits)
  have t: "\<forall>u \<in> ran (users demo_store). toy_parse_time (toy_time (CreatedAt u)) = Some (CreatedAt u)"
    using c(2) by (simp add: toy_parse_time_def toy_time_def)
  have d: "set [''ann@x.io'', ''bob@x.io''] = dom (users demo_store)" "set [''bob@x.io'', ''ann@x.io''] = dom (users demo_store)"
    by (auto simp: demo_store_def)
  have s: "fst (saveLocked SaveOk demo_store) = demo_store" by (simp add: demo_store_def)
  have "\<forall>u \<in> ran (users demo_store). ID u \<noteq> [] \<and> Roles u \<noteq> []" using c(1) by blast
  from conjunct2 [OF users_file_roundtrip [OF demo_inv this t d, of toy_gen SaveOk "[]" 0]]
  show ?thesis unfolding s by simp
qed

end
