(* ===== verification/Spec2Isabelle.thy ===== *)
theory Spec2Isabelle
  imports ProcessLife UsersJson
begin

text \<open>
  UnyPort: a model of its Go backend (\<open>src/unyport/backend\<close>) and the theorems that make it correct.

  The program. UnyPort is the administration console of an Alpine Linux host, usually the control domain of a Xen
  machine. One process (\<open>cmd/unyport/main.go\<close>) loads its settings, notes its start in a history file and assembles a
  server (\<open>server/server.go\<close>, \<open>server/routes.go\<close>). A request passes the security headers, the CSRF layer
  (\<open>middleware/csrf.go\<close>) and the multiplexer, then, for all but the public paths, the session middleware
  (\<open>middleware/auth.go\<close>), which asks the token service (\<open>auth/jwt.go\<close>) and the user store (\<open>auth/users.go\<close>), and
  a check of the role. Handlers change users (\<open>auth/handlers.go\<close>), open sessions (password login behind the rate limiter, or
  \<open>auth/oauth.go\<close>), change the branding (\<open>config/branding.go\<close>) or run \<open>xl\<close> commands (\<open>xenctl\<close>). Beside the requests
  a broker (\<open>sse/broker.go\<close>) reads the machine every two seconds (\<open>sse/metrics.go\<close>, \<open>sse/xen.go\<close>,
  \<open>sse/device_identity.go\<close>), keeps two minutes of snapshots in a ring and streams them to the clients; further handlers of
  the broker (\<open>sse/sysinfo.go\<close>, \<open>sse/security.go\<close>) read the machine on demand.

  The model. A Go struct is a record, an error the left of a sum or \<open>None\<close>, a handler a function from a request and
  the state of the server to a response and the new state. A \<open>string\<close> is a list of bytes. \<open>int\<close> is used for Go's integers, with the
  wrap-around of \<open>uint64\<close> written out (\<open>u64\<close>) and the overflow of \<open>strconv\<close> in its readers; \<open>float64\<close> is an exact
  rational except in \<open>Float64\<close>, where sums are compared and rounded as the hardware does it. Definitions keep the
  names of the source; a prefix is added where HOL or another package has the name.

  Prelude and library:
  \<^item> \<open>GoPrelude\<close>: \<open>strings\<close>, \<open>strconv\<close>, \<open>fmt\<close>, UTF-8, association lists; \<open>Base64\<close>: \<open>encoding/base64\<close>; \<open>Url\<close>:
    \<open>net/url\<close>; \<open>Http\<close>: requests, responses, cookies, JSON decoding; \<open>NetIP\<close>, \<open>Interfaces\<close>: \<open>net.ParseIP\<close>, \<open>net.ParseCIDR\<close> and the text of an address; \<open>GoSort\<close>: the sorting
    loops written out in the source, with the locale of the weak orders they need; \<open>Float64\<close>: additions of doubles; \<open>Memo\<close>: the
    locale of a bounded memo table; \<open>Machine\<close>: files, directories, links, commands and mounts as the collectors see them.

  Accounts and sessions:
  \<^item> \<open>Users\<close> (\<open>auth/users.go\<close>): \<open>UserStore\<close>, its file and every operation; \<open>UsersJson\<close>: the file as JSON, by the tags of \<open>User\<close>; \<open>Jwt\<close> (\<open>auth/jwt.go\<close>): issue, parse, cookie;
    \<open>SessionAuth\<close> (\<open>middleware/auth.go\<close>): \<open>Auth\<close>, \<open>RequireRole\<close>; \<open>RateLimit\<close> (\<open>middleware/ratelimit.go\<close>): buckets and
    janitor; \<open>AuthHandlers\<close>, \<open>AdminAccess\<close>, \<open>LoginFlow\<close> (\<open>auth/handlers.go\<close>): the handlers, what an administrator can do
    and what a login does; \<open>Mailer\<close> (\<open>auth/mailer.go\<close>); \<open>OAuthFlow\<close> (\<open>auth/oauth.go\<close>); \<open>Csrf\<close> (\<open>middleware/csrf.go\<close>,
    \<open>middleware/secure.go\<close>).
  \<^item> \<open>Settings\<close> (\<open>config/settings.go\<close>, \<open>config.go\<close>), \<open>Branding\<close> (\<open>config/branding.go\<close>), \<open>PublicVersion\<close> (\<open>server/routes.go\<close>,
    the release cache), \<open>Xenctl\<close> (\<open>xenctl/xenctl.go\<close>, \<open>xenctl/http.go\<close>).
  \<^item> \<open>Routes\<close>, \<open>Server\<close> (\<open>server/routes.go\<close>, \<open>server/server.go\<close>): the table, the asset fallbacks, the chain, \<open>New\<close>;
    \<open>ServerAccess\<close>: which requests can have which effect; \<open>ServerRun\<close>: runs from the first start.

  Metrics:
  \<^item> \<open>HostRole\<close>: the probes that decide what the host is; \<open>CpuMetrics\<close>, \<open>NetMetrics\<close>, \<open>Disks\<close>, \<open>Processes\<close>: the collectors of
    \<open>sse/metrics.go\<close>; \<open>Neighbors\<close>: hostnames from the hosts file and Kea; \<open>DeviceCatalog\<close>, \<open>DeviceIdentity\<close>: what kind of
    device a neighbour is (\<open>sse/device_identity.go\<close> and the two catalogues); \<open>Isp\<close>: the operator of a public neighbour, with its background
    lookups as a step relation; \<open>XenMetrics\<close> (\<open>sse/xen.go\<close>).
  \<^item> \<open>Snapshot\<close>: \<open>collect\<close> and the rates; \<open>Broker\<close>: the ring, the scales, the turn of the loop (\<open>loop_step\<close>), and the
    connections as the step relation \<open>broker_step\<close> with its reachable states \<open>broker_run\<close>. Publishing happens under the lock, so
    publishing, connecting, greeting, delivering and disconnecting interleave as atomic steps.
  \<^item> \<open>LoopRun\<close>: the loop turn after turn, with the conditions under which it goes on and the soundness of what it publishes.
  \<^item> \<open>SystemApi\<close>, \<open>VersionCheck\<close>, \<open>StartupHistory\<close> (\<open>cmd/unyport/main.go\<close>), \<open>Reboots\<close>, \<open>SysInfo\<close>, \<open>Services\<close>, \<open>Logs\<close>,
    \<open>Security\<close>: the other handlers of the broker with their collectors; \<open>SseJson\<close>, \<open>SnapshotJson\<close>: their answers and the snapshot as JSON; \<open>JsonText\<close>: the text
    of a JSON value; \<open>SseStream\<close>: what a browser reads from the stream; \<open>RebootLog\<close>: the heat map and the log it falls back on.

  The whole:
  \<^item> \<open>HostView\<close>: the broker's handlers behind the routes (\<open>live_server\<close>); \<open>LiveServer\<close>: what a request can learn and cause on which host;
    \<open>ProcessEntry\<close>: the start of the process, \<open>Program\<close>: requests, turns of the loop and clients of the
    stream in any interleaving, with the invariants of the parts together; \<open>ProcessLife\<close>: the connections, the signal and the shutdown, with \<open>http.Server.Shutdown\<close> as it is documented.

  What the lemmas show. The operations of the store keep its invariants, leave either the old or the new file, and a saved file loads
  again; from there \<open>ServerAccess\<close> classifies the effect of every request by its session (\<open>serve_effect\<close>), and the properties
  about anonymous requests, viewers, own accounts, the last administrator and the \<open>xl\<close> commands are instances of it. That nothing of the
  machine leaks is a congruence of the multiplexer: two tables whose handlers agree on a request answer it alike. The CSRF and session properties
  say exactly when a request passes. The ring is interpreted in the locale \<open>history\<close>, whose client lemmas give the ring's
  refinement of a bounded history; the invariant of \<open>broker_run\<close> gives what a client is sent, and the turns of the loop
  are steps of it (\<open>loop_run_is_broker_run\<close>); that the text of a value has no control character (\<open>plain_text\<close>) is why no
  text of the machine can break the stream. \<open>program_run_ok\<close> puts the invariants of the server, the
  loop and the broker together. The sorting loops are
  interpretations of the locale \<open>weak_order\<close>, the identity cache one of \<open>memo\<close>; lists that are shown sorted and complete rest on them.
  Several theorems describe flaws of the code as it is (a window that starts one slot late, a lock-out of all
  administrators by two crossing requests, origins that are configured to no effect, and others); their texts say so.

  Bounds and fuel. Only two definitions carry fuel: the address parser, whose fuel is the number of groups an address
  can have, and \<open>lease_rows\<close>, which is a \<open>partial_function\<close>: \<open>None\<close> is the loop that does not return, and
  \<open>lease_files_return_iff\<close> says when that is. All other functions are total by structural or measured recursion. The constants are those of the
  code: 60 slots, a window of 15, channels of 4, 4096 cached identities, a megabyte of log.

  Parameters, with what is assumed of them as named hypotheses: bcrypt (its salt is fixed, so that a hash is a function of the password), HMAC, randomness, the token library
  (\<open>jwt_lib_ok\<close>), YAML, and the JSON of the history (\<open>history_env_ok\<close>), CSV, \<open>time\<close> in zones, \<open>strconv.ParseFloat\<close> and the digits of a
  floating-point number (\<open>floats_plain\<close>), the OAuth exchange, the registry and tag
  servers, \<open>xl\<close>, \<open>sendmail\<close>, the asset tree, and the order in which Go ranges over a map where the order matters.

  Not modelled: sockets, TLS and HTTP/3 beyond the choice and the end of the listeners; the records of the logger apart from the warnings of the
  broker's handlers (\<open>w_warns\<close>), of which the heat map reads one again; the embedding of the assets; the rounding of percentages; the browser front end, which is not Go. A handler that panics is answered with
  \<open>aborted\<close>, as \<open>net/http\<close> closes the connection. The cache of the released versions is state of the server; the collectors' caches are advanced by \<open>collect_tick\<close>.
  Of the commands, those run for requests are recorded (\<open>w_xl\<close>); the collector's own readings of the hypervisor (\<open>xl list\<close>, \<open>xl info\<close>,
  \<open>xl dmesg\<close>) are inputs of a turn. A few helpers that nothing
  calls (\<open>mathMax\<close>, \<open>mathMin\<close>, \<open>highestMatchedVersion\<close>, \<open>deviceTypeForNeighbor\<close>) are left out.
\<close>

section \<open>The program as a whole\<close>

text \<open>
  C3. The program's invariant: from the first start of the process on, however requests, turns of the collector loop and the clients of the stream interleave,
  there is always an administrator, the user store is well formed and holds only hashes, the public branding is safe to inject, every published snapshot lies
  within its scales, the ring holds the last sixty of them, every client has read a part of what was published, in order, and on a host that was not the control
  domain when the process started no request gave a command to the hypervisor. The turns are ones in which the counters of the processor do not go back and the
  total memory stays the same; the collector's own readings of the hypervisor are inputs of a turn and not in \<open>w_xl\<close>.
\<close>

theorem program_invariant:
  assumes "program_run pe mt hs p" and "\<And>st. first_start gen (pe_startup pe st)"
  shows "has_admin (w_store (pg_world p)) \<and> store_inv (w_store (pg_world p)) \<and> hashed gen (w_store (pg_world p)) \<and>
    colors_ok (current (w_branding (pg_world p))) \<and> logo_ok (current (w_branding (pg_world p))) \<and>
    list_all snapshot_sound (published (pg_broker p)) \<and>
    recent (b_ring (pg_broker p)) = take ringSize (rev (published (pg_broker p))) \<and>
    (\<forall>c k. b_clients (pg_broker p) c = Some k \<longrightarrow> conn_ok (published (pg_broker p)) k) \<and>
    (localXenControlAvailable (pe_machine pe) \<or> w_xl (pg_world p) = [])"
  using program_okD [OF program_run_ok [OF assms]] by blast

theorem program_invariant_witness:
  "\<exists>s v r hs p. program_run demo_process 8192 (Request s v r # hs) p \<and> length (published (pg_broker p)) = 1 \<and>
     has_admin (w_store (pg_world p)) \<and> list_all snapshot_sound (published (pg_broker p)) \<and> w_xl (pg_world p) = []"
proof -
  obtain s0 w li l hist where start: "main_start demo_process = Running s0 w li l hist" using demo_process_runs by blast
  let ?p0 = "\<lparr>pg_server = s0, pg_role = DetectHostRole bare_machine, pg_world = w, pg_loop = first_state, pg_broker = new_broker\<rparr>"
  let ?v = "demo_view bare_machine"
  let ?r = "with_token (base_request ''DELETE'' (''/api/admin/users/'' @ DefaultAdminEmail))"
  let ?p1 = "?p0\<lparr>pg_world := snd (serve (live_server (view_at ?p0 ?v) s0) ?r w)\<rparr>"
  have broker: "NewBroker (pe_machine demo_process) = (DetectHostRole bare_machine, first_state, new_broker)"
    by (simp add: NewBroker_def demo_process_def)
  have "program_run demo_process 8192 [Request s0 ?v ?r] ?p1"
    using program_run.Request [OF program_run.Start [OF start broker], of s0 8192 ?v ?r] by simp
  moreover obtain ls b where turn: "loop_step (\<lambda>_. None) (\<lambda>_. None) (pg_role ?p1) demo_tick (pg_loop ?p1, pg_broker ?p1) = Some (ls, b)"
    "length (published b) = 1"
    using demo_turn [of "pg_role ?p1" "(pg_loop ?p1, pg_broker ?p1)"] by (auto simp: new_broker_def)
  ultimately have run: "program_run demo_process 8192 ([Request s0 ?v ?r] @ [Turn demo_tick])
      (?p1\<lparr>pg_loop := ls, pg_broker := b\<rparr>)" (is "program_run _ _ _ ?p2")
    using demo_tick_sound by (intro program_run.Turn) simp_all
  have "\<not> localXenControlAvailable (pe_machine demo_process)"
    by (simp add: localXenControlAvailable_def demo_process_def bare_machine_def)
  with program_invariant [OF run demo_first_start] run turn(2) show ?thesis by (intro exI [of _ s0] exI [of _ ?v]) force
qed

end
